theory Spec2Isabelle
  imports Main "HOL-Library.Word"
begin

section \<open>The outside world of PublicVolume\<close>

text \<open>
  The class PublicVolume (src/main.cpp, from line 311 on: the file holds main.cpp of the
  daemon followed by PublicVolume.cpp) drives collaborators that live outside the file: the filesystem
  adapters (vfat, exfat), the helpers of Utils.h, system calls, the volume manager and
  the listener callbacks. Every such call is recorded, in program order, in a history,
  and its result is read from a world that may answer differently depending on the
  history so far. Nothing is assumed about the answers.
\<close>

type_synonym status_t = int
type_synonym userid_t = nat

datatype gid_t = AID_ROOT | AID_MEDIA_RW | AID_EXTERNAL_STORAGE

datatype call =
    ReadMetadataUntrusted string
  | OnVolumeMetadataChanged string string string string
  | VfatCheck string
  | ExfatCheck string
  | FsPrepareDir string
  | VfatMount string string gid_t
  | ExfatMount string string gid_t
  | Access string
  | Rename string string
  | Mkdir string
  | BindMount string string
  | GetDevice string
  | ForkSdcardFs bool userid_t string string
  | Usleep nat
  | SystemTime
  | Waitpid int
  | MountUserFuse userid_t string string
  | OnVolumeChecking string string
  | ConfigureReadAheadForFuse string nat
  | ConfigureMaxDirtyRatioForFuse string nat
  | PrepareMountDirForUser userid_t
  | PrepareDir string
  | KillProcessesUsingPath string
  | ForceUnmount string
  | Rmdir string
  | UmountDetach string
  | UnmountUserFuse userid_t string string
  | GetBlockDevSize string
  | WipeBlockDevice string
  | VfatFormat string
  | ExfatFormat string

text \<open>
  \<open>respond w h c\<close> is the value call \<open>c\<close> returns when the calls \<open>h\<close> came before it;
  \<open>errno w h\<close> is the value of \<open>errno\<close> once the calls \<open>h\<close> have been made. The output
  parameters of \<open>ReadMetadataUntrusted\<close> and \<open>GetBlockDevSize\<close> are \<open>metadata\<close> and
  \<open>blockDevSize\<close>. \<open>startedUsers\<close> is the order in which the volume manager's set of
  started users is iterated. \<open>GetFuseMountPathForUser\<close> is declared in Utils.h only,
  so the world supplies it.
\<close>

record world =
  respond :: "call list \<Rightarrow> call \<Rightarrow> int"
  errno :: "call list \<Rightarrow> int"
  metadata :: "call list \<Rightarrow> string \<times> string \<times> string"
  blockDevSize :: "call list \<Rightarrow> 64 word"
  vfatSupported :: bool
  exfatSupported :: bool
  startedUsers :: "userid_t list"
  getSharedStorageUser :: "userid_t \<Rightarrow> userid_t"
  GetFuseMountPathForUser :: "userid_t \<Rightarrow> string \<Rightarrow> string"

text \<open>
  The fields of the C++ object, the values the base class VolumeBase hands out
  (\<open>getId\<close>, \<open>getPath\<close>, \<open>getInternalPath\<close>, \<open>getMountUserId\<close>, the two mount flags the
  file tests, whether a listener and a mount callback are registered), and the history
  of outside calls made so far. \<open>setPath\<close> and \<open>setInternalPath\<close> of the base class
  store the value that \<open>getPath\<close> and \<open>getInternalPath\<close> return.
\<close>

record PublicVolume =
  mId :: string
  mDevPath :: string
  mFsType :: string
  mFsUuid :: string
  mFsLabel :: string
  mRawPath :: string
  mSdcardFsDefault :: string
  mSdcardFsRead :: string
  mSdcardFsWrite :: string
  mSdcardFsFull :: string
  mFuseMounted :: bool
  mUseSdcardFs :: bool
  mPath :: string
  mInternalPath :: string
  mMountUserId :: userid_t
  flagPrimary :: bool
  visibleForWrite :: bool
  hasListener :: bool
  hasMountCallback :: bool
  calls :: "call list"

definition OK :: status_t where "OK = 0"
definition EIO :: int where "EIO = 5"
definition EEXIST :: int where "EEXIST = 17"
definition EINVAL :: int where "EINVAL = 22"
definition ETIMEDOUT :: int where "ETIMEDOUT = 110"

definition kAsecPath :: string where "kAsecPath = ''/mnt/secure/asec''"

text \<open>Make an outside call: read its result off the world, then log it.\<close>

definition ask :: "world \<Rightarrow> call \<Rightarrow> PublicVolume \<Rightarrow> int \<times> PublicVolume" where
  "ask w c v = (respond w (calls v) c, v\<lparr>calls := calls v @ [c]\<rparr>)"

text \<open>An outside call whose result the source throws away.\<close>

definition fire :: "call \<Rightarrow> PublicVolume \<Rightarrow> PublicVolume" where
  "fire c v = v\<lparr>calls := calls v @ [c]\<rparr>"

section \<open>doFormat\<close>

text \<open>\<open>PublicVolume::doFormat\<close>, lines 683 to 738 of src/main.cpp.\<close>

datatype fsPick = NONE | VFAT | EXFAT

text \<open>The comparison \<open>size > 32896LL * 1024 * 1024\<close> on the \<open>uint64_t\<close> size.\<close>

definition sdxcThreshold :: "64 word" where
  "sdxcThreshold = 32896 * 1024 * 1024"

definition autoPick :: "64 word \<Rightarrow> fsPick" where
  "autoPick devSize = (if devSize > sdxcThreshold then EXFAT else VFAT)"

text \<open>The second chain of tests, "Resolve explicit requests".\<close>

definition explicitPick :: "string \<Rightarrow> bool \<Rightarrow> bool \<Rightarrow> fsPick \<Rightarrow> fsPick" where
  "explicitPick fsType isVfatSup isExfatSup fsPick =
     (if fsType = ''vfat'' \<and> isVfatSup then VFAT
      else if fsType = ''exfat'' \<and> isExfatSup then EXFAT
      else fsPick)"

text \<open>
  The first part of doFormat, up to the wipe: the value of \<open>fsPick\<close>, or the early
  return when the size of the device cannot be read.
\<close>

definition resolvePick :: "world \<Rightarrow> string \<Rightarrow> PublicVolume \<Rightarrow> (status_t + fsPick) \<times> PublicVolume" where
  "resolvePick w fsType v =
     (let isVfatSup = vfatSupported w; isExfatSup = exfatSupported w in
      if fsType = ''auto'' \<and> isVfatSup \<and> isExfatSup then
        (case ask w (GetBlockDevSize (mDevPath v)) v of (res, v1) \<Rightarrow>
           if res \<noteq> OK then (Inl res, v1)
           else (Inr (explicitPick fsType isVfatSup isExfatSup
                        (autoPick (blockDevSize w (calls v1)))), v1))
      else if fsType = ''auto'' \<and> isExfatSup then
        (Inr (explicitPick fsType isVfatSup isExfatSup EXFAT), v)
      else if fsType = ''auto'' \<and> isVfatSup then
        (Inr (explicitPick fsType isVfatSup isExfatSup VFAT), v)
      else (Inr (explicitPick fsType isVfatSup isExfatSup NONE), v))"

text \<open>The rest of doFormat: wipe, then format with the picked filesystem.\<close>

definition formatPicked :: "world \<Rightarrow> fsPick \<Rightarrow> PublicVolume \<Rightarrow> status_t \<times> PublicVolume" where
  "formatPicked w fsPick v =
     (let v1 = fire (WipeBlockDevice (mDevPath v)) v in
      case fsPick of
        VFAT \<Rightarrow> (case ask w (VfatFormat (mDevPath v1)) v1 of (res, v2) \<Rightarrow>
                   (if res \<noteq> OK then - errno w (calls v2) else res, v2))
      | EXFAT \<Rightarrow> (case ask w (ExfatFormat (mDevPath v1)) v1 of (res, v2) \<Rightarrow>
                   (if res \<noteq> OK then - errno w (calls v2) else res, v2))
      | NONE \<Rightarrow> (- EINVAL, v1))"

definition doFormat :: "world \<Rightarrow> string \<Rightarrow> PublicVolume \<Rightarrow> status_t \<times> PublicVolume" where
  "doFormat w fsType v =
     (case resolvePick w fsType v of
        (Inl res, v1) \<Rightarrow> (res, v1)
      | (Inr fsPick, v1) \<Rightarrow> formatPicked w fsPick v1)"

section \<open>doUnmount\<close>

text \<open>\<open>PublicVolume::doUnmount\<close>, lines 615 to 681 of src/main.cpp, in four parts.\<close>

text \<open>"Use UUID as stable name, if available", as doMount, bindMountForUser and doUnmount each compute it.\<close>

definition stableName :: "PublicVolume \<Rightarrow> string" where
  "stableName v = (if mFsUuid v \<noteq> [] then mFsUuid v else mId v)"

text \<open>
  The loop "Unmount bind mounts for running users": every started user but the owner
  of the mount has its path force-unmounted and removed; both results are dropped.
\<close>

fun unmountBinds :: "world \<Rightarrow> userid_t \<Rightarrow> string \<Rightarrow> userid_t list \<Rightarrow> PublicVolume \<Rightarrow> PublicVolume" where
  "unmountBinds w user_id sn [] v = v"
| "unmountBinds w user_id sn (started_user # rest) v =
     (if started_user = user_id then unmountBinds w user_id sn rest v
      else
        let mountPath = GetFuseMountPathForUser w started_user sn in
        unmountBinds w user_id sn rest (fire (Rmdir mountPath) (fire (ForceUnmount mountPath) v)))"

text \<open>
  The block \<open>if (mFuseMounted) { ... }\<close>. The result \<open>Some e\<close> is the early
  \<open>return -errno\<close>; \<open>None\<close> means doUnmount goes on.
\<close>

definition unmountFuse :: "world \<Rightarrow> PublicVolume \<Rightarrow> status_t option \<times> PublicVolume" where
  "unmountFuse w v =
     (if mFuseMounted v then
        let sn = stableName v;
            v1 = unmountBinds w (mMountUserId v) sn (startedUsers w) v
        in case ask w (UnmountUserFuse (mMountUserId v1) (mInternalPath v1) sn) v1 of
             (res, v2) \<Rightarrow>
               if res \<noteq> OK then (Some (- errno w (calls v2)), v2)
               else (None, v2\<lparr>mFuseMounted := False\<rparr>)
      else (None, v))"

text \<open>The block \<open>if (mUseSdcardFs) { ... }\<close>.\<close>

definition unmountSdcardFs :: "PublicVolume \<Rightarrow> PublicVolume" where
  "unmountSdcardFs v =
     (if mUseSdcardFs v then
        let v1 = fire (ForceUnmount (mSdcardFsDefault v)) v;
            v2 = fire (ForceUnmount (mSdcardFsRead v1)) v1;
            v3 = fire (ForceUnmount (mSdcardFsWrite v2)) v2;
            v4 = fire (ForceUnmount (mSdcardFsFull v3)) v3;
            v5 = fire (Rmdir (mSdcardFsDefault v4)) v4;
            v6 = fire (Rmdir (mSdcardFsRead v5)) v5;
            v7 = fire (Rmdir (mSdcardFsWrite v6)) v6;
            v8 = fire (Rmdir (mSdcardFsFull v7)) v7
        in v8\<lparr>mSdcardFsDefault := [], mSdcardFsRead := [],
               mSdcardFsWrite := [], mSdcardFsFull := []\<rparr>
      else v)"

text \<open>The end of doUnmount, from \<open>ForceUnmount(mRawPath)\<close> to \<open>return OK\<close>.\<close>

definition unmountRaw :: "world \<Rightarrow> PublicVolume \<Rightarrow> status_t \<times> PublicVolume" where
  "unmountRaw w v =
     (case ask w (ForceUnmount (mRawPath v)) v of (res, v1) \<Rightarrow>
        let v2 = (if res \<noteq> 0 then fire (UmountDetach (mRawPath v1)) v1 else v1) in
        case ask w (Rmdir (mRawPath v2)) v2 of (rm, v3) \<Rightarrow>
          let v4 = (if rm \<noteq> 0 then fire (KillProcessesUsingPath (mPath v3)) v3 else v3) in
          (OK, v4\<lparr>mRawPath := []\<rparr>))"

definition doUnmount :: "world \<Rightarrow> PublicVolume \<Rightarrow> status_t \<times> PublicVolume" where
  "doUnmount w v =
     (case unmountFuse w (fire (KillProcessesUsingPath (mPath v)) v) of
        (Some e, v1) \<Rightarrow> (e, v1)
      | (None, v1) \<Rightarrow> unmountRaw w (unmountSdcardFs (fire (ForceUnmount kAsecPath) v1)))"

section \<open>doMount\<close>

text \<open>
  \<open>PublicVolume::doMount\<close>, lines 409 to 595 of src/main.cpp, cut into its stages, with
  \<open>readMetadata\<close> (lines 369 to 376), \<open>initAsecStage\<close> (lines 378 to 399) and
  \<open>bindMountForUser\<close> (lines 597 to 613).
\<close>

definition readMetadata :: "world \<Rightarrow> PublicVolume \<Rightarrow> status_t \<times> PublicVolume" where
  "readMetadata w v =
     (case ask w (ReadMetadataUntrusted (mDevPath v)) v of (res, v1) \<Rightarrow>
        case metadata w (calls v1) of (fsType, fsUuid, fsLabel) \<Rightarrow>
          let v2 = v1\<lparr>mFsType := fsType, mFsUuid := fsUuid, mFsLabel := fsLabel\<rparr> in
          (res, if hasListener v2
                then fire (OnVolumeMetadataChanged (mId v2) (mFsType v2) (mFsUuid v2) (mFsLabel v2)) v2
                else v2))"

text \<open>
  \<open>access\<close> answers 0 when the path is accessible, and \<open>&&\<close> evaluates its second
  operand only when the first holds. \<open>Mkdir\<close> stands for
  \<open>TEMP_FAILURE_RETRY(mkdir(...))\<close>, the call repeated while it is interrupted.
\<close>

definition initAsecStage :: "world \<Rightarrow> PublicVolume \<Rightarrow> status_t \<times> PublicVolume" where
  "initAsecStage w v =
     (let legacyPath = mRawPath v @ ''/android_secure'';
          securePath = mRawPath v @ ''/.android_secure''
      in case ask w (Access legacyPath) v of (legacy, v1) \<Rightarrow>
         let v3 = (if legacy = 0 then
                     (case ask w (Access securePath) v1 of (secure, v2) \<Rightarrow>
                        if secure \<noteq> 0 then fire (Rename legacyPath securePath) v2 else v2)
                   else v1)
         in case ask w (Mkdir securePath) v3 of (res, v4) \<Rightarrow>
              if res \<noteq> 0 \<and> errno w (calls v4) \<noteq> EEXIST then (- errno w (calls v4), v4)
              else (OK, fire (BindMount securePath kAsecPath) v4))"

text \<open>
  The first stage of doMount: read the metadata and check the filesystem. \<open>Some e\<close>
  is an early \<open>return e\<close>, \<open>None\<close> means the function goes on.
\<close>

definition checkFilesystem :: "world \<Rightarrow> PublicVolume \<Rightarrow> status_t option \<times> PublicVolume" where
  "checkFilesystem w v0 =
     (case readMetadata w v0 of (_, v) \<Rightarrow>
        if mFsType v = ''vfat'' \<and> vfatSupported w then
          (case ask w (VfatCheck (mDevPath v)) v of (res, v1) \<Rightarrow>
             if res \<noteq> 0 then (Some (- EIO), v1) else (None, v1))
        else if mFsType v = ''exfat'' \<and> exfatSupported w then
          (case ask w (ExfatCheck (mDevPath v)) v of (res, v1) \<Rightarrow>
             if res \<noteq> 0 then (Some (- EIO), v1) else (None, v1))
        else (Some (- EIO), v))"

text \<open>
  The second stage: derive the paths from the stable name, prepare the raw mount point,
  mount the device, and for a primary volume call initAsecStage, whose result doMount
  drops.
\<close>

definition mountDevice :: "world \<Rightarrow> bool \<Rightarrow> PublicVolume \<Rightarrow> status_t option \<times> PublicVolume" where
  "mountDevice w isVisible v =
     (let gid = (if isVisible then AID_MEDIA_RW else AID_EXTERNAL_STORAGE) in
      if mFsType v = ''vfat'' then
        (case ask w (VfatMount (mDevPath v) (mRawPath v) gid) v of (res, v1) \<Rightarrow>
           if res \<noteq> 0 then (Some (- EIO), v1) else (None, v1))
      else if mFsType v = ''exfat'' then
        (case ask w (ExfatMount (mDevPath v) (mRawPath v) gid) v of (res, v1) \<Rightarrow>
           if res \<noteq> 0 then (Some (- EIO), v1) else (None, v1))
      else (None, v))"

definition mountPoints :: "bool \<Rightarrow> string \<Rightarrow> PublicVolume \<Rightarrow> PublicVolume" where
  "mountPoints isVisible sn v =
     v\<lparr>mRawPath := ''/mnt/media_rw/'' @ sn,
       mSdcardFsDefault := ''/mnt/runtime/default/'' @ sn,
       mSdcardFsRead := ''/mnt/runtime/read/'' @ sn,
       mSdcardFsWrite := ''/mnt/runtime/write/'' @ sn,
       mSdcardFsFull := ''/mnt/runtime/full/'' @ sn,
       mInternalPath := ''/mnt/media_rw/'' @ sn,
       mPath := (if isVisible then ''/storage/'' @ sn else ''/mnt/media_rw/'' @ sn)\<rparr>"

definition mountRaw :: "world \<Rightarrow> bool \<Rightarrow> string \<Rightarrow> PublicVolume \<Rightarrow> status_t option \<times> PublicVolume" where
  "mountRaw w isVisible sn v =
     (let v1 = mountPoints isVisible sn v
      in case ask w (FsPrepareDir (mRawPath v1)) v1 of (res, v2) \<Rightarrow>
           if res \<noteq> 0 then (Some (- errno w (calls v2)), v2)
           else
             (case mountDevice w isVisible v2 of
                (Some e, v3) \<Rightarrow> (Some e, v3)
              | (None, v3) \<Rightarrow>
                  (None, if flagPrimary v3 then snd (initAsecStage w v3) else v3)))"

text \<open>
  The third stage, run when \<open>mUseSdcardFs\<close> is set. The four \<open>fs_prepare_dir\<close> calls are
  joined by \<open>||\<close>: the first that fails ends the chain.
\<close>

fun prepareDirs :: "world \<Rightarrow> string list \<Rightarrow> PublicVolume \<Rightarrow> bool \<times> PublicVolume" where
  "prepareDirs w [] v = (False, v)"
| "prepareDirs w (p # ps) v =
     (case ask w (FsPrepareDir p) v of (res, v1) \<Rightarrow>
        if res \<noteq> 0 then (True, v1) else prepareDirs w ps v1)"

text \<open>\<open>nanoseconds_to_milliseconds\<close> of utils/Timers.h: the C++ division \<open>n / 1000000\<close>, which truncates towards zero.\<close>

definition nanoseconds_to_milliseconds :: "int \<Rightarrow> int" where
  "nanoseconds_to_milliseconds n =
     (if 0 \<le> n then n div 1000000 else - ((- n) div 1000000))"

text \<open>
  The loop \<open>while (before == GetDevice(mSdcardFsFull))\<close>. Whether it ends depends on
  the world, so it is a partial function: \<open>None\<close> means the loop runs forever. The
  readings of the boot-time clock are \<open>int64_t\<close> nanoseconds since boot.
\<close>

partial_function (option) waitForSdcardFs ::
  "world \<Rightarrow> int \<Rightarrow> int \<Rightarrow> PublicVolume \<Rightarrow> (status_t option \<times> PublicVolume) option" where
  "waitForSdcardFs w before start v =
     (case ask w (GetDevice (mSdcardFsFull v)) v of (dev, v1) \<Rightarrow>
        if before = dev then
          (case ask w SystemTime (fire (Usleep 50000) v1) of (now, v3) \<Rightarrow>
             if nanoseconds_to_milliseconds (now - start) > 5000
             then Some (Some (- ETIMEDOUT), v3)
             else waitForSdcardFs w before start v3)
        else Some (None, v1))"

text \<open>
  \<open>ForkSdcardFs\<close> is \<open>fork()\<close> together with what the child does (\<open>execl\<close> of
  /system/bin/sdcard with the arguments logged, \<open>-w\<close> for a primary volume, or
  \<open>_exit(1)\<close>). Its answer is the value \<open>fork\<close> returns: the child's pid or -1 in the
  parent, 0 in the child, where doMount never returns.
\<close>

definition spinUpSdcardFs :: "world \<Rightarrow> string \<Rightarrow> PublicVolume \<Rightarrow> (status_t option \<times> PublicVolume) option" where
  "spinUpSdcardFs w sn v =
     (case prepareDirs w [mSdcardFsDefault v, mSdcardFsRead v, mSdcardFsWrite v, mSdcardFsFull v] v of
        (failed, v1) \<Rightarrow>
          if failed then Some (Some (- errno w (calls v1)), v1)
          else
            (case ask w (GetDevice (mSdcardFsFull v1)) v1 of (before, v2) \<Rightarrow>
               (case ask w (ForkSdcardFs (flagPrimary v2) (mMountUserId v2) (mRawPath v2) sn) v2 of
                  (sdcardFsPid, v3) \<Rightarrow>
                    if sdcardFsPid = 0 then None
                    else if sdcardFsPid = - 1 then Some (Some (- errno w (calls v3)), v3)
                    else
                      (case ask w SystemTime v3 of (start, v4) \<Rightarrow>
                         (case waitForSdcardFs w before start v4 of
                            None \<Rightarrow> None
                          | Some (Some e, v5) \<Rightarrow> Some (Some e, v5)
                          | Some (None, v5) \<Rightarrow> Some (None, fire (Waitpid sdcardFsPid) v5))))))"

text \<open>The fourth stage: the FUSE mount and the readiness callback.\<close>

definition mountFuse :: "world \<Rightarrow> string \<Rightarrow> PublicVolume \<Rightarrow> status_t option \<times> PublicVolume" where
  "mountFuse w sn v =
     (case ask w (MountUserFuse (mMountUserId v) (mInternalPath v) sn) v of (result, v1) \<Rightarrow>
        if result \<noteq> 0 then (Some (- result), snd (doUnmount w v1))
        else
          let v2 = v1\<lparr>mFuseMounted := True\<rparr> in
          if hasMountCallback v2 then
            (case ask w (OnVolumeChecking (mPath v2) (mInternalPath v2)) v2 of (is_ready, v3) \<Rightarrow>
               if is_ready = 0 then (Some (- EIO), snd (doUnmount w v3))
               else (None, v3))
          else (None, v2))"

text \<open>The last stage: the bind mounts for the running users.\<close>

definition bindMountForUser :: "world \<Rightarrow> userid_t \<Rightarrow> PublicVolume \<Rightarrow> status_t \<times> PublicVolume" where
  "bindMountForUser w user_id v =
     (let mountUserId = mMountUserId v;
          sn = stableName v;
          sourcePath = GetFuseMountPathForUser w mountUserId sn;
          destPath = GetFuseMountPathForUser w user_id sn
      in ask w (BindMount sourcePath destPath) (fire (PrepareDir destPath) v))"

fun bindStartedUsers :: "world \<Rightarrow> userid_t list \<Rightarrow> PublicVolume \<Rightarrow> PublicVolume" where
  "bindStartedUsers w [] v = v"
| "bindStartedUsers w (started_user # rest) v =
     (let mountUserId = mMountUserId v in
      if started_user = mountUserId then bindStartedUsers w rest v
      else if mountUserId \<noteq> getSharedStorageUser w started_user then bindStartedUsers w rest v
      else
        (case ask w (PrepareMountDirForUser started_user) v of (mountDirStatus, v1) \<Rightarrow>
           case bindMountForUser w started_user v1 of (bindMountStatus, v2) \<Rightarrow>
             bindStartedUsers w rest v2))"

definition tuneAndBind :: "world \<Rightarrow> string \<Rightarrow> PublicVolume \<Rightarrow> status_t \<times> PublicVolume" where
  "tuneAndBind w sn v =
     (let user_id = mMountUserId v;
          v1 = fire (ConfigureReadAheadForFuse (GetFuseMountPathForUser w user_id sn) 256) v;
          v2 = fire (ConfigureMaxDirtyRatioForFuse (GetFuseMountPathForUser w user_id sn) 40) v1
      in (OK, bindStartedUsers w (startedUsers w) v2))"

text \<open>
  doMount up to the comment "We need to mount FUSE *after* sdcardfs": the first three
  stages in order. \<open>Inl e\<close> is an early \<open>return e\<close> (also the \<open>return OK\<close> of a volume
  that is not visible), \<open>Inr stableName\<close> means doMount goes on to the FUSE mount.
  \<open>None\<close>: the function does not return.
\<close>

definition mountBelowFuse :: "world \<Rightarrow> PublicVolume \<Rightarrow> ((status_t + string) \<times> PublicVolume) option" where
  "mountBelowFuse w v =
     (let isVisible = visibleForWrite v in
      case checkFilesystem w v of
        (Some e, v1) \<Rightarrow> Some (Inl e, v1)
      | (None, v1) \<Rightarrow>
          let sn = stableName v1 in
          (case mountRaw w isVisible sn v1 of
             (Some e, v2) \<Rightarrow> Some (Inl e, v2)
           | (None, v2) \<Rightarrow>
               if \<not> isVisible then Some (Inl OK, v2)
               else if mUseSdcardFs v2 then
                 (case spinUpSdcardFs w sn v2 of
                    None \<Rightarrow> None
                  | Some (Some e, v3) \<Rightarrow> Some (Inl e, v3)
                  | Some (None, v3) \<Rightarrow> Some (Inr sn, v3))
               else Some (Inr sn, v2)))"

text \<open>doMount: those stages, then the FUSE mount, then the tuning and the bind mounts.\<close>

definition doMount :: "world \<Rightarrow> PublicVolume \<Rightarrow> (status_t \<times> PublicVolume) option" where
  "doMount w v =
     (case mountBelowFuse w v of
        None \<Rightarrow> None
      | Some (Inl e, v3) \<Rightarrow> Some (e, v3)
      | Some (Inr sn, v3) \<Rightarrow>
          (case mountFuse w sn v3 of
             (Some e, v4) \<Rightarrow> Some (e, v4)
           | (None, v4) \<Rightarrow> Some (tuneAndBind w sn v4)))"

text \<open>
  The microseconds \<open>usleep\<close> was asked to sleep in a history. A clock that advances by
  exactly the time slept reads \<open>boot + 1000 * slept h\<close> nanoseconds after history \<open>h\<close>.
\<close>

definition slept :: "call list \<Rightarrow> nat" where
  "slept h = sum_list (map (\<lambda>c. case c of Usleep us \<Rightarrow> us | _ \<Rightarrow> 0) h)"

text \<open>\<open>extends P v v'\<close>: the history of \<open>v'\<close> is that of \<open>v\<close> followed by calls that all satisfy \<open>P\<close>.\<close>

definition extends :: "(call \<Rightarrow> bool) \<Rightarrow> PublicVolume \<Rightarrow> PublicVolume \<Rightarrow> bool" where
  "extends P v v' \<longleftrightarrow> (\<exists>t. calls v' = calls v @ t \<and> list_all P t)"

text \<open>The calls that take something down, and the calls only initAsecStage makes.\<close>

fun isTeardown :: "call \<Rightarrow> bool" where
  "isTeardown (KillProcessesUsingPath p) = True"
| "isTeardown (ForceUnmount p) = True"
| "isTeardown (Rmdir p) = True"
| "isTeardown (UmountDetach p) = True"
| "isTeardown (UnmountUserFuse u p n) = True"
| "isTeardown c = False"


section \<open>Concrete worlds and volumes\<close>

text \<open>
  A world in which every call succeeds (answers 0), the card reports a vfat filesystem,
  its size is exactly 32896 MiB, and users 0, 10, 11 and 12 are running, of which 10
  and 11 share the storage of user 0.
\<close>

definition calm :: world where
  "calm = \<lparr> respond = (\<lambda>h c. 0), errno = (\<lambda>h. 0),
      metadata = (\<lambda>h. (''vfat'', ''1234-ABCD'', ''SDCARD'')),
      blockDevSize = (\<lambda>h. 32896 * 1024 * 1024),
      vfatSupported = True, exfatSupported = True,
      startedUsers = [0, 10, 11, 12],
      getSharedStorageUser = (\<lambda>u. if u = 12 then 12 else 0),
      GetFuseMountPathForUser = (\<lambda>u n. ''/mnt/user/'' @
         (if u = 0 then ''0'' else if u = 10 then ''10'' else if u = 11 then ''11''
          else if u = 12 then ''12'' else ''other'') @ ''/'' @ n) \<rparr>"

text \<open>The calm world, except that nothing can be unmounted or removed.\<close>

definition busy :: world where
  "busy = calm\<lparr> respond := (\<lambda>h c. case c of ForceUnmount p \<Rightarrow> - 16 | UmountDetach p \<Rightarrow> - 1
                                      | Rmdir p \<Rightarrow> - 1 | _ \<Rightarrow> 0),
                 errno := (\<lambda>h. 16) \<rparr>"

text \<open>A freshly constructed volume for device 8,1, owned by user 0.\<close>

definition card :: PublicVolume where
  "card = \<lparr> mId = ''public:8,1'', mDevPath = ''/dev/block/vold/public:8,1'',
      mFsType = [], mFsUuid = [], mFsLabel = [], mRawPath = [],
      mSdcardFsDefault = [], mSdcardFsRead = [], mSdcardFsWrite = [], mSdcardFsFull = [],
      mFuseMounted = False, mUseSdcardFs = False, mPath = [], mInternalPath = [],
      mMountUserId = 0, flagPrimary = False, visibleForWrite = True,
      hasListener = False, hasMountCallback = False, calls = [] \<rparr>"

text \<open>
  The fields of that volume after a complete mount on a device that uses sdcardfs,
  with an empty history.
\<close>

definition mountedCard :: PublicVolume where
  "mountedCard = card\<lparr> mFsType := ''vfat'', mFsUuid := ''1234-ABCD'', mFsLabel := ''SDCARD'',
      mRawPath := ''/mnt/media_rw/1234-ABCD'',
      mSdcardFsDefault := ''/mnt/runtime/default/1234-ABCD'',
      mSdcardFsRead := ''/mnt/runtime/read/1234-ABCD'',
      mSdcardFsWrite := ''/mnt/runtime/write/1234-ABCD'',
      mSdcardFsFull := ''/mnt/runtime/full/1234-ABCD'',
      mFuseMounted := True, mUseSdcardFs := True,
      mPath := ''/storage/1234-ABCD'', mInternalPath := ''/mnt/media_rw/1234-ABCD'' \<rparr>"

text \<open>The fresh volume when it is not visible to apps, on a device that uses sdcardfs.\<close>

definition hiddenCard :: PublicVolume where
  "hiddenCard = card\<lparr>visibleForWrite := False, mUseSdcardFs := True\<rparr>"

text \<open>
  The calm world, except that \<open>fork\<close> answers with the pid 4711 and the clock advances by
  exactly the time slept. The device of every path stays 0, so sdcardfs never comes up.
\<close>

definition stuck :: world where
  "stuck = calm\<lparr> respond := (\<lambda>h c. case c of SystemTime \<Rightarrow> 1000 * int (slept h)
                                       | ForkSdcardFs a b c d \<Rightarrow> 4711 | _ \<Rightarrow> 0) \<rparr>"

text \<open>The fresh volume on a device that uses sdcardfs.\<close>

definition sdcardfsCard :: PublicVolume where
  "sdcardfsCard = card\<lparr>mUseSdcardFs := True\<rparr>"

text \<open>The fields of the volume after the raw mount on such a device, before sdcardfs is started.\<close>

definition rawMountedCard :: PublicVolume where
  "rawMountedCard = mountedCard\<lparr>mFuseMounted := False\<rparr>"

text \<open>The volume that doMount leaves behind when sdcardfs never comes up.\<close>

definition timedOutCard :: PublicVolume where
  "timedOutCard = sdcardfsCard\<lparr>mFsType := ''vfat'', mFsUuid := ''1234-ABCD'', mFsLabel := ''SDCARD'',
      mRawPath := ''/mnt/media_rw/1234-ABCD'',
      mSdcardFsDefault := ''/mnt/runtime/default/1234-ABCD'',
      mSdcardFsRead := ''/mnt/runtime/read/1234-ABCD'',
      mSdcardFsWrite := ''/mnt/runtime/write/1234-ABCD'',
      mSdcardFsFull := ''/mnt/runtime/full/1234-ABCD'',
      mPath := ''/storage/1234-ABCD'', mInternalPath := ''/mnt/media_rw/1234-ABCD'',
      calls := [ReadMetadataUntrusted ''/dev/block/vold/public:8,1'',
        VfatCheck ''/dev/block/vold/public:8,1'',
        FsPrepareDir ''/mnt/media_rw/1234-ABCD'',
        VfatMount ''/dev/block/vold/public:8,1'' ''/mnt/media_rw/1234-ABCD'' AID_MEDIA_RW,
        FsPrepareDir ''/mnt/runtime/default/1234-ABCD'',
        FsPrepareDir ''/mnt/runtime/read/1234-ABCD'',
        FsPrepareDir ''/mnt/runtime/write/1234-ABCD'',
        FsPrepareDir ''/mnt/runtime/full/1234-ABCD'',
        GetDevice ''/mnt/runtime/full/1234-ABCD'',
        ForkSdcardFs False 0 ''/mnt/media_rw/1234-ABCD'' ''1234-ABCD'',
        SystemTime] @
       concat (replicate 101 [GetDevice ''/mnt/runtime/full/1234-ABCD'', Usleep 50000, SystemTime])\<rparr>"

text \<open>The fresh volume when doMount reaches the FUSE mount, on a device without sdcardfs.\<close>

definition atFuseCard :: PublicVolume where
  "atFuseCard = card\<lparr>mFsType := ''vfat'', mFsUuid := ''1234-ABCD'', mFsLabel := ''SDCARD'',
      mRawPath := ''/mnt/media_rw/1234-ABCD'',
      mSdcardFsDefault := ''/mnt/runtime/default/1234-ABCD'',
      mSdcardFsRead := ''/mnt/runtime/read/1234-ABCD'',
      mSdcardFsWrite := ''/mnt/runtime/write/1234-ABCD'',
      mSdcardFsFull := ''/mnt/runtime/full/1234-ABCD'',
      mPath := ''/storage/1234-ABCD'', mInternalPath := ''/mnt/media_rw/1234-ABCD'',
      calls := [ReadMetadataUntrusted ''/dev/block/vold/public:8,1'',
        VfatCheck ''/dev/block/vold/public:8,1'',
        FsPrepareDir ''/mnt/media_rw/1234-ABCD'',
        VfatMount ''/dev/block/vold/public:8,1'' ''/mnt/media_rw/1234-ABCD'' AID_MEDIA_RW]\<rparr>"

text \<open>That volume once the FUSE mount has succeeded.\<close>

definition fuseMountedCard :: PublicVolume where
  "fuseMountedCard = atFuseCard\<lparr>mFuseMounted := True,
     calls := calls atFuseCard @ [MountUserFuse 0 ''/mnt/media_rw/1234-ABCD'' ''1234-ABCD'']\<rparr>"

text \<open>The calm world, except that the FUSE mount fails.\<close>

definition noFuse :: world where
  "noFuse = calm\<lparr> respond := (\<lambda>h c. case c of MountUserFuse u p n \<Rightarrow> - 1 | _ \<Rightarrow> 0) \<rparr>"

text \<open>The calm world, except that no per-user mount directory can be made and no bind mount succeeds.\<close>

definition bindFail :: world where
  "bindFail = calm\<lparr> respond := (\<lambda>h c. case c of BindMount p q \<Rightarrow> - 1
                                     | PrepareMountDirForUser u \<Rightarrow> - 1 | _ \<Rightarrow> 0) \<rparr>"




text \<open>
  The world \<open>stuck\<close>, except that every outside call takes one microsecond: the clock
  reads the time slept plus one microsecond for each call made so far.
\<close>

definition slow :: world where
  "slow = calm\<lparr> respond := (\<lambda>h c. case c of SystemTime \<Rightarrow> 1000 * int (slept h + length h)
                                       | ForkSdcardFs a b c d \<Rightarrow> 4711 | _ \<Rightarrow> 0) \<rparr>"

text \<open>The calm world, except that the one call \<open>c0\<close> fails (it answers -1) and \<open>errno\<close> reads \<open>e\<close>.\<close>

definition failAt :: "call \<Rightarrow> int \<Rightarrow> world" where
  "failAt c0 e = calm\<lparr> respond := (\<lambda>h c. if c = c0 then - 1 else 0), errno := (\<lambda>h. e) \<rparr>"

text \<open>
  The fresh volume after its metadata was read and the filesystem check passed; \<open>s\<close>
  says whether the device uses sdcardfs.
\<close>

definition checkedCard :: "bool \<Rightarrow> PublicVolume" where
  "checkedCard s = card\<lparr>mUseSdcardFs := s, mFsType := ''vfat'', mFsUuid := ''1234-ABCD'', mFsLabel := ''SDCARD'',
      calls := [ReadMetadataUntrusted ''/dev/block/vold/public:8,1'',
                VfatCheck ''/dev/block/vold/public:8,1'']\<rparr>"

section \<open>Format\<close>

text \<open>
  C1, as the code has it. For a request \<open>auto\<close> with both filesystems supported and a
  size query that succeeds, doFormat picks exfat when the size is strictly greater than
  32896 MiB and vfat otherwise (so also at exactly 32896 MiB), and the calls it makes
  are the size query, the wipe and the format of the picked filesystem. With only one
  of the two supported, that one is picked and the size is never queried.
\<close>

theorem doFormat_auto_pick:
  "(vfatSupported w \<and> exfatSupported w \<and>
      respond w (calls v) (GetBlockDevSize (mDevPath v)) = OK \<longrightarrow>
      fst (resolvePick w ''auto'' v) =
        Inr (if sdxcThreshold < blockDevSize w (calls v @ [GetBlockDevSize (mDevPath v)])
             then EXFAT else VFAT) \<and>
      calls (snd (doFormat w ''auto'' v)) =
        calls v @ [GetBlockDevSize (mDevPath v), WipeBlockDevice (mDevPath v),
          if sdxcThreshold < blockDevSize w (calls v @ [GetBlockDevSize (mDevPath v)])
          then ExfatFormat (mDevPath v) else VfatFormat (mDevPath v)])
   \<and> (vfatSupported w \<and> \<not> exfatSupported w \<longrightarrow>
        resolvePick w ''auto'' v = (Inr VFAT, v))
   \<and> (exfatSupported w \<and> \<not> vfatSupported w \<longrightarrow>
        resolvePick w ''auto'' v = (Inr EXFAT, v))"
  by (simp add: doFormat_def formatPicked_def fire_def resolvePick_def ask_def
      explicitPick_def autoPick_def Let_def)

theorem doFormat_auto_pick_witness:
  "fst (resolvePick (calm\<lparr>blockDevSize := \<lambda>h. 32896 * 1024 * 1024 + 1\<rparr>) ''auto'' card) = Inr EXFAT
   \<and> fst (resolvePick (calm\<lparr>blockDevSize := \<lambda>h. 32896 * 1024 * 1024 - 1\<rparr>) ''auto'' card) = Inr VFAT
   \<and> resolvePick (calm\<lparr>exfatSupported := False\<rparr>) ''auto'' card = (Inr VFAT, card)
   \<and> resolvePick (calm\<lparr>vfatSupported := False\<rparr>) ''auto'' card = (Inr EXFAT, card)"
  using doFormat_auto_pick [of "calm\<lparr>blockDevSize := \<lambda>h. 32896 * 1024 * 1024 + 1\<rparr>" card]
    doFormat_auto_pick [of "calm\<lparr>blockDevSize := \<lambda>h. 32896 * 1024 * 1024 - 1\<rparr>" card]
    doFormat_auto_pick [of "calm\<lparr>exfatSupported := False\<rparr>" card]
    doFormat_auto_pick [of "calm\<lparr>vfatSupported := False\<rparr>" card]
  by (simp add: calm_def OK_def sdxcThreshold_def)

text \<open>
  Against C1 as stated: a card of exactly 32896 MiB (34493956096 bytes), both
  filesystems supported. The request \<open>auto\<close> formats it as vfat, not exfat.
\<close>

theorem doFormat_auto_at_threshold:
  "blockDevSize calm [GetBlockDevSize (mDevPath card)] = 34493956096
   \<and> fst (resolvePick calm ''auto'' card) = Inr VFAT
   \<and> calls (snd (doFormat calm ''auto'' card)) =
       [GetBlockDevSize ''/dev/block/vold/public:8,1'',
        WipeBlockDevice ''/dev/block/vold/public:8,1'',
        VfatFormat ''/dev/block/vold/public:8,1'']"
  by (simp add: calm_def card_def doFormat_def resolvePick_def formatPicked_def ask_def
      fire_def explicitPick_def autoPick_def sdxcThreshold_def OK_def)

text \<open>
  C10. When the request resolves to no supported filesystem (\<open>auto\<close> with neither
  supported, \<open>vfat\<close> or \<open>exfat\<close> unsupported, or any other name), doFormat returns
  \<open>-EINVAL\<close>, and by then it has called \<open>WipeBlockDevice\<close> on the device: the wipe is
  the one call it made, and no field of the volume changed.
\<close>

theorem doFormat_unsupported_wipes_first:
  assumes "fsType = ''auto'' \<longrightarrow> \<not> vfatSupported w \<and> \<not> exfatSupported w"
    and "fsType = ''vfat'' \<longrightarrow> \<not> vfatSupported w"
    and "fsType = ''exfat'' \<longrightarrow> \<not> exfatSupported w"
  shows "doFormat w fsType v =
           (- EINVAL, v\<lparr>calls := calls v @ [WipeBlockDevice (mDevPath v)]\<rparr>)"
  using assms
  by (auto simp add: doFormat_def resolvePick_def formatPicked_def fire_def explicitPick_def)

theorem doFormat_unsupported_wipes_first_witness:
  "doFormat calm ''ext4'' card =
     (- 22, card\<lparr>calls := [WipeBlockDevice ''/dev/block/vold/public:8,1'']\<rparr>)
   \<and> doFormat (calm\<lparr>vfatSupported := False, exfatSupported := False\<rparr>) ''auto'' card =
     (- 22, card\<lparr>calls := [WipeBlockDevice ''/dev/block/vold/public:8,1'']\<rparr>)"
  using doFormat_unsupported_wipes_first [of "''ext4''" calm card]
    doFormat_unsupported_wipes_first
      [of "''auto''" "calm\<lparr>vfatSupported := False, exfatSupported := False\<rparr>" card]
  by (simp add: EINVAL_def card_def)

section \<open>Unmount\<close>

subsection \<open>What each part of doUnmount does to the volume and to the history\<close>

lemma stableName_calls [simp]: "stableName (v\<lparr>calls := h\<rparr>) = stableName v"
  by (simp add: stableName_def)

lemma unmountBinds_eq:
  "unmountBinds w uid sn us v =
     v\<lparr>calls := calls v @
        concat (map (\<lambda>u. [ForceUnmount (GetFuseMountPathForUser w u sn),
                           Rmdir (GetFuseMountPathForUser w u sn)])
                    (filter (\<lambda>u. u \<noteq> uid) us))\<rparr>"
  by (induction us arbitrary: v) (simp_all add: fire_def Let_def)

lemma unmountFuse_not_mounted: "\<not> mFuseMounted v \<Longrightarrow> unmountFuse w v = (None, v)"
  by (simp add: unmountFuse_def)

lemma unmountFuse_mounted:
  assumes "mFuseMounted v"
  shows "unmountFuse w v =
    (let h = calls v @
          concat (map (\<lambda>u. [ForceUnmount (GetFuseMountPathForUser w u (stableName v)),
                             Rmdir (GetFuseMountPathForUser w u (stableName v))])
                      (filter (\<lambda>u. u \<noteq> mMountUserId v) (startedUsers w)));
         c = UnmountUserFuse (mMountUserId v) (mInternalPath v) (stableName v)
     in if respond w h c \<noteq> OK then (Some (- errno w (h @ [c])), v\<lparr>calls := h @ [c]\<rparr>)
        else (None, v\<lparr>calls := h @ [c], mFuseMounted := False\<rparr>))"
  using assms by (simp add: unmountFuse_def unmountBinds_eq ask_def Let_def)

lemma unmountSdcardFs_calls:
  "calls (unmountSdcardFs v) = calls v @
     (if mUseSdcardFs v then
        [ForceUnmount (mSdcardFsDefault v), ForceUnmount (mSdcardFsRead v),
         ForceUnmount (mSdcardFsWrite v), ForceUnmount (mSdcardFsFull v),
         Rmdir (mSdcardFsDefault v), Rmdir (mSdcardFsRead v),
         Rmdir (mSdcardFsWrite v), Rmdir (mSdcardFsFull v)]
      else [])"
  by (simp add: unmountSdcardFs_def fire_def Let_def)

lemma unmountSdcardFs_fields:
  "mRawPath (unmountSdcardFs v) = mRawPath v"
  "mPath (unmountSdcardFs v) = mPath v"
  "mFuseMounted (unmountSdcardFs v) = mFuseMounted v"
  "mUseSdcardFs (unmountSdcardFs v) = mUseSdcardFs v"
  by (simp_all add: unmountSdcardFs_def fire_def Let_def)

lemma unmountRaw_eq:
  "unmountRaw w v =
     (OK, v\<lparr>mRawPath := [], calls := calls v @ [ForceUnmount (mRawPath v)] @
        (if respond w (calls v) (ForceUnmount (mRawPath v)) \<noteq> 0
         then [UmountDetach (mRawPath v)] else []) @
        [Rmdir (mRawPath v)] @
        (if respond w (calls v @ [ForceUnmount (mRawPath v)] @
              (if respond w (calls v) (ForceUnmount (mRawPath v)) \<noteq> 0
               then [UmountDetach (mRawPath v)] else [])) (Rmdir (mRawPath v)) \<noteq> 0
         then [KillProcessesUsingPath (mPath v)] else [])\<rparr>)"
  by (simp add: unmountRaw_def ask_def fire_def Let_def)

lemma unmountRaw_shape:
  "\<exists>detach kill.
     unmountRaw w v =
       (OK, v\<lparr>mRawPath := [], calls := calls v @ [ForceUnmount (mRawPath v)] @ detach @
              [Rmdir (mRawPath v)] @ kill\<rparr>)
     \<and> (detach = [] \<or> detach = [UmountDetach (mRawPath v)])
     \<and> (kill = [] \<or> kill = [KillProcessesUsingPath (mPath v)])"
  apply (rule exI [of _ "if respond w (calls v) (ForceUnmount (mRawPath v)) \<noteq> 0
         then [UmountDetach (mRawPath v)] else []"])
  apply (rule exI [of _ "if respond w (calls v @ [ForceUnmount (mRawPath v)] @
              (if respond w (calls v) (ForceUnmount (mRawPath v)) \<noteq> 0
               then [UmountDetach (mRawPath v)] else [])) (Rmdir (mRawPath v)) \<noteq> 0
         then [KillProcessesUsingPath (mPath v)] else []"])
  apply (simp add: unmountRaw_eq)
  done

lemma unmountRaw_calls: "\<exists>t. calls (snd (unmountRaw w v)) = calls v @ t"
  by (simp add: unmountRaw_eq)

lemma bindStartedUsers_eq:
  "bindStartedUsers w us v =
     v\<lparr>calls := calls v @
        concat (map (\<lambda>u. [PrepareMountDirForUser u,
                           PrepareDir (GetFuseMountPathForUser w u (stableName v)),
                           BindMount (GetFuseMountPathForUser w (mMountUserId v) (stableName v))
                                     (GetFuseMountPathForUser w u (stableName v))])
                    (filter (\<lambda>u. u \<noteq> mMountUserId v \<and> mMountUserId v = getSharedStorageUser w u) us))\<rparr>"
proof (induction us arbitrary: v)
  case Nil
  show ?case by simp
next
  case (Cons u us)
  show ?case
    by (simp add: Cons.IH bindMountForUser_def ask_def fire_def Let_def)
qed

subsection \<open>The claims about doUnmount\<close>

text \<open>
  C3, as the code has it. Once doUnmount is past the bridge block (the bridge was not
  mounted, or \<open>UnmountUserFuse\<close> succeeded), it returns OK with the raw path cleared
  and, when \<open>mUseSdcardFs\<close> is set, the four sdcardfs paths cleared, whatever the
  unmount and rmdir calls answered. Only when \<open>UnmountUserFuse\<close> fails does doUnmount
  stop early, and then \<open>mFuseMounted\<close> and every recorded path are as they were.
\<close>

theorem doUnmount_path_clearing:
  "(fst (unmountFuse w (fire (KillProcessesUsingPath (mPath v)) v)) = None \<longrightarrow>
      fst (doUnmount w v) = OK \<and>
      \<not> mFuseMounted (snd (doUnmount w v)) \<and>
      mRawPath (snd (doUnmount w v)) = [] \<and>
      (mUseSdcardFs v \<longrightarrow>
         mSdcardFsDefault (snd (doUnmount w v)) = [] \<and>
         mSdcardFsRead (snd (doUnmount w v)) = [] \<and>
         mSdcardFsWrite (snd (doUnmount w v)) = [] \<and>
         mSdcardFsFull (snd (doUnmount w v)) = []))
   \<and> (fst (unmountFuse w (fire (KillProcessesUsingPath (mPath v)) v)) \<noteq> None \<longrightarrow>
      mFuseMounted (snd (doUnmount w v)) \<and>
      mRawPath (snd (doUnmount w v)) = mRawPath v \<and>
      mSdcardFsDefault (snd (doUnmount w v)) = mSdcardFsDefault v \<and>
      mSdcardFsRead (snd (doUnmount w v)) = mSdcardFsRead v \<and>
      mSdcardFsWrite (snd (doUnmount w v)) = mSdcardFsWrite v \<and>
      mSdcardFsFull (snd (doUnmount w v)) = mSdcardFsFull v)"
  by (auto simp add: doUnmount_def unmountFuse_def unmountBinds_eq unmountRaw_eq
      unmountSdcardFs_def ask_def fire_def Let_def split: if_splits)

theorem doUnmount_path_clearing_witness:
  "fst (doUnmount calm mountedCard) = OK \<and>
   mRawPath (snd (doUnmount calm mountedCard)) = [] \<and>
   mSdcardFsFull (snd (doUnmount calm mountedCard)) = [] \<and>
   mRawPath (snd (doUnmount (calm\<lparr>respond := \<lambda>h c. - 1\<rparr>) mountedCard)) = ''/mnt/media_rw/1234-ABCD''"
  using doUnmount_path_clearing [of calm mountedCard] doUnmount_path_clearing [of "calm\<lparr>respond := \<lambda>h c. - 1\<rparr>" mountedCard]
  by (simp add: calm_def mountedCard_def card_def unmountFuse_def unmountBinds_eq ask_def fire_def
      Let_def OK_def)

text \<open>
  Against C3 as stated: in the world \<open>busy\<close> neither the forced nor the detached unmount of the raw path
  succeeds, and no sdcardfs path can be unmounted; doUnmount still returns OK with the
  raw path and the sdcardfs paths cleared.
\<close>

theorem doUnmount_busy_clears_paths:
  "respond busy (take 17 (calls (snd (doUnmount busy mountedCard))))
       (ForceUnmount ''/mnt/media_rw/1234-ABCD'') = - 16
   \<and> respond busy (take 18 (calls (snd (doUnmount busy mountedCard))))
       (UmountDetach ''/mnt/media_rw/1234-ABCD'') = - 1
   \<and> mRawPath mountedCard = ''/mnt/media_rw/1234-ABCD''
   \<and> fst (doUnmount busy mountedCard) = 0
   \<and> mRawPath (snd (doUnmount busy mountedCard)) = []
   \<and> mSdcardFsDefault (snd (doUnmount busy mountedCard)) = []
   \<and> calls (snd (doUnmount busy mountedCard)) =
       [KillProcessesUsingPath ''/storage/1234-ABCD'',
        ForceUnmount ''/mnt/user/10/1234-ABCD'', Rmdir ''/mnt/user/10/1234-ABCD'',
        ForceUnmount ''/mnt/user/11/1234-ABCD'', Rmdir ''/mnt/user/11/1234-ABCD'',
        ForceUnmount ''/mnt/user/12/1234-ABCD'', Rmdir ''/mnt/user/12/1234-ABCD'',
        UnmountUserFuse 0 ''/mnt/media_rw/1234-ABCD'' ''1234-ABCD'',
        ForceUnmount ''/mnt/secure/asec'',
        ForceUnmount ''/mnt/runtime/default/1234-ABCD'',
        ForceUnmount ''/mnt/runtime/read/1234-ABCD'',
        ForceUnmount ''/mnt/runtime/write/1234-ABCD'',
        ForceUnmount ''/mnt/runtime/full/1234-ABCD'',
        Rmdir ''/mnt/runtime/default/1234-ABCD'',
        Rmdir ''/mnt/runtime/read/1234-ABCD'',
        Rmdir ''/mnt/runtime/write/1234-ABCD'',
        Rmdir ''/mnt/runtime/full/1234-ABCD'',
        ForceUnmount ''/mnt/media_rw/1234-ABCD'',
        UmountDetach ''/mnt/media_rw/1234-ABCD'',
        Rmdir ''/mnt/media_rw/1234-ABCD'',
        KillProcessesUsingPath ''/storage/1234-ABCD'']"
  by (simp add: busy_def calm_def mountedCard_def card_def doUnmount_def unmountFuse_def
      unmountBinds_eq unmountRaw_eq unmountSdcardFs_def ask_def fire_def Let_def OK_def
      stableName_def kAsecPath_def)

text \<open>
  C4, as the code has it. When the bridge is not mounted, doUnmount returns OK and its
  calls are: kill the processes using the path, force-unmount the secure-app bind, then
  (only when \<open>mUseSdcardFs\<close> is set) the teardown of the four sdcardfs paths, then the
  forced unmount of the raw path, the detached one if that failed, and the removal of
  the raw directory. No bind mount of a sibling is removed and \<open>UnmountUserFuse\<close> is
  not called.
\<close>

theorem doUnmount_raw_only:
  assumes "\<not> mFuseMounted v"
  shows "fst (doUnmount w v) = OK \<and>
     (\<exists>detach kill.
        calls (snd (doUnmount w v)) =
          calls v @ [KillProcessesUsingPath (mPath v), ForceUnmount kAsecPath] @
          (if mUseSdcardFs v then
             [ForceUnmount (mSdcardFsDefault v), ForceUnmount (mSdcardFsRead v),
              ForceUnmount (mSdcardFsWrite v), ForceUnmount (mSdcardFsFull v),
              Rmdir (mSdcardFsDefault v), Rmdir (mSdcardFsRead v),
              Rmdir (mSdcardFsWrite v), Rmdir (mSdcardFsFull v)]
           else []) @
          [ForceUnmount (mRawPath v)] @ detach @ [Rmdir (mRawPath v)] @ kill
        \<and> (detach = [] \<or> detach = [UmountDetach (mRawPath v)])
        \<and> (kill = [] \<or> kill = [KillProcessesUsingPath (mPath v)]))"
proof -
  let ?v2 = "unmountSdcardFs (fire (ForceUnmount kAsecPath) (fire (KillProcessesUsingPath (mPath v)) v))"
  have run: "doUnmount w v = unmountRaw w ?v2"
    using assms by (simp add: doUnmount_def unmountFuse_not_mounted fire_def)
  obtain detach kill where
    raw: "unmountRaw w ?v2 =
       (OK, ?v2\<lparr>mRawPath := [], calls := calls ?v2 @ [ForceUnmount (mRawPath ?v2)] @ detach @
              [Rmdir (mRawPath ?v2)] @ kill\<rparr>)"
    and d: "detach = [] \<or> detach = [UmountDetach (mRawPath ?v2)]"
    and k: "kill = [] \<or> kill = [KillProcessesUsingPath (mPath ?v2)]"
    using unmountRaw_shape [of w ?v2] by blast
  have fields: "mRawPath ?v2 = mRawPath v" "mPath ?v2 = mPath v"
    by (simp_all add: unmountSdcardFs_fields fire_def)
  have cs: "calls ?v2 = calls v @ [KillProcessesUsingPath (mPath v), ForceUnmount kAsecPath] @
          (if mUseSdcardFs v then
             [ForceUnmount (mSdcardFsDefault v), ForceUnmount (mSdcardFsRead v),
              ForceUnmount (mSdcardFsWrite v), ForceUnmount (mSdcardFsFull v),
              Rmdir (mSdcardFsDefault v), Rmdir (mSdcardFsRead v),
              Rmdir (mSdcardFsWrite v), Rmdir (mSdcardFsFull v)]
           else [])"
    by (simp add: unmountSdcardFs_calls fire_def)
  show ?thesis
    unfolding run raw
    apply (rule conjI)
     apply simp
    apply (rule exI [of _ detach], rule exI [of _ kill])
    using d k fields cs apply simp
    done
qed

theorem doUnmount_raw_only_witness:
  "fst (doUnmount busy (mountedCard\<lparr>mFuseMounted := False, mUseSdcardFs := False\<rparr>)) = 0 \<and>
   calls (snd (doUnmount busy (mountedCard\<lparr>mFuseMounted := False, mUseSdcardFs := False\<rparr>))) =
     [KillProcessesUsingPath ''/storage/1234-ABCD'',
      ForceUnmount ''/mnt/secure/asec'',
      ForceUnmount ''/mnt/media_rw/1234-ABCD'',
      UmountDetach ''/mnt/media_rw/1234-ABCD'',
      Rmdir ''/mnt/media_rw/1234-ABCD'',
      KillProcessesUsingPath ''/storage/1234-ABCD'']"
  using doUnmount_raw_only [of "mountedCard\<lparr>mFuseMounted := False, mUseSdcardFs := False\<rparr>" busy]
  by (simp add: busy_def calm_def mountedCard_def card_def doUnmount_def unmountFuse_def
      unmountRaw_eq unmountSdcardFs_def kAsecPath_def ask_def fire_def Let_def OK_def)

text \<open>
  Against C4 as stated: a volume that is not visible, on a device that uses sdcardfs. doMount stops after the
  raw mount, the bridge and the overlay were never started, and doUnmount still
  force-unmounts and removes the four sdcardfs paths.
\<close>

theorem raw_only_volume_overlay_teardown:
  "doMount calm hiddenCard \<noteq> None
   \<and> fst (the (doMount calm hiddenCard)) = 0
   \<and> \<not> mFuseMounted (snd (the (doMount calm hiddenCard)))
   \<and> calls (snd (the (doMount calm hiddenCard))) =
       [ReadMetadataUntrusted ''/dev/block/vold/public:8,1'',
        VfatCheck ''/dev/block/vold/public:8,1'',
        FsPrepareDir ''/mnt/media_rw/1234-ABCD'',
        VfatMount ''/dev/block/vold/public:8,1'' ''/mnt/media_rw/1234-ABCD'' AID_EXTERNAL_STORAGE]
   \<and> calls (snd (doUnmount calm (snd (the (doMount calm hiddenCard))))) =
       [ReadMetadataUntrusted ''/dev/block/vold/public:8,1'',
        VfatCheck ''/dev/block/vold/public:8,1'',
        FsPrepareDir ''/mnt/media_rw/1234-ABCD'',
        VfatMount ''/dev/block/vold/public:8,1'' ''/mnt/media_rw/1234-ABCD'' AID_EXTERNAL_STORAGE,
        KillProcessesUsingPath ''/mnt/media_rw/1234-ABCD'',
        ForceUnmount ''/mnt/secure/asec'',
        ForceUnmount ''/mnt/runtime/default/1234-ABCD'',
        ForceUnmount ''/mnt/runtime/read/1234-ABCD'',
        ForceUnmount ''/mnt/runtime/write/1234-ABCD'',
        ForceUnmount ''/mnt/runtime/full/1234-ABCD'',
        Rmdir ''/mnt/runtime/default/1234-ABCD'',
        Rmdir ''/mnt/runtime/read/1234-ABCD'',
        Rmdir ''/mnt/runtime/write/1234-ABCD'',
        Rmdir ''/mnt/runtime/full/1234-ABCD'',
        ForceUnmount ''/mnt/media_rw/1234-ABCD'',
        Rmdir ''/mnt/media_rw/1234-ABCD'']"
  by (simp add: calm_def hiddenCard_def card_def doMount_def mountBelowFuse_def checkFilesystem_def readMetadata_def mountRaw_def mountPoints_def
      mountDevice_def stableName_def ask_def fire_def Let_def OK_def EIO_def doUnmount_def unmountFuse_def
      unmountRaw_eq unmountSdcardFs_def kAsecPath_def)

text \<open>
  C6. When the bridge is mounted, doUnmount first kills the users of the path, then
  force-unmounts and removes the bridge path of every started user other than the
  owner, and only then calls \<open>UnmountUserFuse\<close> for the owner. Every target of a
  bind mount that the fan-out of doMount makes for the same owner, stable name and
  started users is among the paths force-unmounted before that call.
\<close>

theorem doUnmount_siblings_before_bridge:
  assumes "mFuseMounted v"
  shows "\<exists>sib rest.
     sib = concat (map (\<lambda>u. [ForceUnmount (GetFuseMountPathForUser w u (stableName v)),
                             Rmdir (GetFuseMountPathForUser w u (stableName v))])
                      (filter (\<lambda>u. u \<noteq> mMountUserId v) (startedUsers w)))
     \<and> calls (snd (doUnmount w v)) =
         calls v @ [KillProcessesUsingPath (mPath v)] @ sib @
         [UnmountUserFuse (mMountUserId v) (mInternalPath v) (stableName v)] @ rest
     \<and> (\<forall>v0 t src dst.
          mMountUserId v0 = mMountUserId v \<and> stableName v0 = stableName v \<and>
          calls (bindStartedUsers w (startedUsers w) v0) = calls v0 @ t \<and>
          BindMount src dst \<in> set t \<longrightarrow> ForceUnmount dst \<in> set sib)"
proof -
  let ?sib = "concat (map (\<lambda>u. [ForceUnmount (GetFuseMountPathForUser w u (stableName v)),
                             Rmdir (GetFuseMountPathForUser w u (stableName v))])
                      (filter (\<lambda>u. u \<noteq> mMountUserId v) (startedUsers w)))"
  let ?c = "UnmountUserFuse (mMountUserId v) (mInternalPath v) (stableName v)"
  let ?v0 = "v\<lparr>calls := calls v @ [KillProcessesUsingPath (mPath v)]\<rparr>"
  let ?h = "calls v @ [KillProcessesUsingPath (mPath v)] @ ?sib"
  have m0: "mFuseMounted ?v0" using assms by simp
  have order: "\<exists>rest. calls (snd (doUnmount w v)) = ?h @ [?c] @ rest"
  proof (cases "respond w ?h ?c \<noteq> OK")
    case True
    then have "calls (snd (doUnmount w v)) = ?h @ [?c]"
      by (simp add: doUnmount_def unmountFuse_mounted [OF m0] fire_def Let_def)
    then show ?thesis by simp
  next
    case False
    let ?v1 = "v\<lparr>calls := ?h @ [?c], mFuseMounted := False\<rparr>"
    let ?v2 = "unmountSdcardFs (fire (ForceUnmount kAsecPath) ?v1)"
    from False have run: "doUnmount w v = unmountRaw w ?v2"
      by (simp add: doUnmount_def unmountFuse_mounted [OF m0] fire_def Let_def)
    obtain t where t: "calls (snd (unmountRaw w ?v2)) = calls ?v2 @ t"
      using unmountRaw_calls by blast
    obtain t' where t': "calls ?v2 = ?h @ [?c] @ t'"
      by (simp add: unmountSdcardFs_calls fire_def)
    show ?thesis unfolding run t t' by simp
  qed
  have mirror: "\<forall>v0 t src dst.
          mMountUserId v0 = mMountUserId v \<and> stableName v0 = stableName v \<and>
          calls (bindStartedUsers w (startedUsers w) v0) = calls v0 @ t \<and>
          BindMount src dst \<in> set t \<longrightarrow> ForceUnmount dst \<in> set ?sib"
    by (auto simp add: bindStartedUsers_eq)
  from order obtain rest where r: "calls (snd (doUnmount w v)) = ?h @ [?c] @ rest" by blast
  show ?thesis
    apply (rule exI [of _ ?sib], rule exI [of _ rest])
    using r mirror apply simp
    done
qed

theorem doUnmount_siblings_before_bridge_witness:
  "mFuseMounted mountedCard \<and>
   take 8 (calls (snd (doUnmount calm mountedCard))) =
       [KillProcessesUsingPath ''/storage/1234-ABCD'',
        ForceUnmount ''/mnt/user/10/1234-ABCD'', Rmdir ''/mnt/user/10/1234-ABCD'',
        ForceUnmount ''/mnt/user/11/1234-ABCD'', Rmdir ''/mnt/user/11/1234-ABCD'',
        ForceUnmount ''/mnt/user/12/1234-ABCD'', Rmdir ''/mnt/user/12/1234-ABCD'',
        UnmountUserFuse 0 ''/mnt/media_rw/1234-ABCD'' ''1234-ABCD''] \<and>
   calls (bindStartedUsers calm (startedUsers calm) mountedCard) =
       [PrepareMountDirForUser 10, PrepareDir ''/mnt/user/10/1234-ABCD'',
        BindMount ''/mnt/user/0/1234-ABCD'' ''/mnt/user/10/1234-ABCD'',
        PrepareMountDirForUser 11, PrepareDir ''/mnt/user/11/1234-ABCD'',
        BindMount ''/mnt/user/0/1234-ABCD'' ''/mnt/user/11/1234-ABCD'']"
  using doUnmount_siblings_before_bridge [of mountedCard calm]
  by (auto simp add: calm_def mountedCard_def card_def stableName_def bindStartedUsers_eq)

text \<open>
  C9. When doUnmount reaches the raw path (it is past the bridge block) and
  \<open>ForceUnmount(mRawPath)\<close> fails, the next calls are the detached unmount of the
  raw path and the removal of the raw directory, and doUnmount returns OK.
\<close>

theorem doUnmount_lazy_unmount:
  assumes "unmountFuse w (fire (KillProcessesUsingPath (mPath v)) v) = (None, v1)"
    and "v2 = unmountSdcardFs (fire (ForceUnmount kAsecPath) v1)"
    and "respond w (calls v2) (ForceUnmount (mRawPath v2)) \<noteq> 0"
  shows "mRawPath v2 = mRawPath v \<and> fst (doUnmount w v) = OK \<and>
         (\<exists>kill. calls (snd (doUnmount w v)) =
            calls v2 @ [ForceUnmount (mRawPath v), UmountDetach (mRawPath v),
                        Rmdir (mRawPath v)] @ kill)"
proof -
  have "mRawPath (snd (unmountFuse w (fire (KillProcessesUsingPath (mPath v)) v))) = mRawPath v"
    by (simp add: unmountFuse_def unmountBinds_eq ask_def fire_def Let_def)
  with assms(1,2) have raw: "mRawPath v2 = mRawPath v"
    by (simp add: unmountSdcardFs_fields fire_def)
  from assms have "fst (doUnmount w v) = OK \<and>
         (\<exists>kill. calls (snd (doUnmount w v)) =
            calls v2 @ [ForceUnmount (mRawPath v2), UmountDetach (mRawPath v2),
                        Rmdir (mRawPath v2)] @ kill)"
    by (simp add: doUnmount_def unmountRaw_eq)
  with raw show ?thesis by simp
qed

theorem doUnmount_lazy_unmount_witness:
  "fst (doUnmount busy mountedCard) = 0 \<and>
   drop 17 (calls (snd (doUnmount busy mountedCard))) =
     [ForceUnmount ''/mnt/media_rw/1234-ABCD'',
      UmountDetach ''/mnt/media_rw/1234-ABCD'',
      Rmdir ''/mnt/media_rw/1234-ABCD'',
      KillProcessesUsingPath ''/storage/1234-ABCD'']"
  using doUnmount_lazy_unmount [of busy mountedCard
      "snd (unmountFuse busy (fire (KillProcessesUsingPath (mPath mountedCard)) mountedCard))"
      "unmountSdcardFs (fire (ForceUnmount kAsecPath)
         (snd (unmountFuse busy (fire (KillProcessesUsingPath (mPath mountedCard)) mountedCard))))"]
  by (simp add: busy_def calm_def mountedCard_def card_def doUnmount_def unmountFuse_def
      unmountBinds_eq unmountRaw_eq unmountSdcardFs_def kAsecPath_def ask_def fire_def Let_def OK_def
      stableName_def)

section \<open>Mount\<close>

subsection \<open>The wait for sdcardfs under a clock that follows the sleeps\<close>

text \<open>
  If the device of the polled path stays what it was and the clock advances by exactly
  the 50 ms of each \<open>usleep\<close>, the loop that has made \<open>k\<close> polls makes \<open>101 - k\<close> more
  and returns \<open>-ETIMEDOUT\<close>: after poll \<open>k\<close> the elapsed time is \<open>50 * k\<close> ms, which
  exceeds 5000 for the first time at \<open>k = 101\<close>.
\<close>

lemma slept_append [simp]: "slept (h @ t) = slept h + slept t"
  by (simp add: slept_def)

lemma slept_simps [simp]:
  "slept [] = 0"
  "slept (c # h) = (case c of Usleep us \<Rightarrow> us | _ \<Rightarrow> 0) + slept h"
  by (simp_all add: slept_def)

lemma ms_of_polls: "nanoseconds_to_milliseconds (1000 * int (50000 * k)) = 50 * int k"
  by (simp add: nanoseconds_to_milliseconds_def)

lemma waitForSdcardFs_timeout_aux:
  assumes dev: "\<And>h. respond w h (GetDevice p) = before"
    and clock: "\<And>h. respond w h SystemTime = boot + 1000 * int (slept h)"
  shows "mSdcardFsFull v = p \<Longrightarrow> slept (calls v) = s0 + 50000 * k \<Longrightarrow> k \<le> 100 \<Longrightarrow>
     start = boot + 1000 * int s0 \<Longrightarrow>
     waitForSdcardFs w before start v =
       Some (Some (- ETIMEDOUT),
         v\<lparr>calls := calls v @ concat (replicate (101 - k) [GetDevice p, Usleep 50000, SystemTime])\<rparr>)"
proof (induction "100 - k" arbitrary: k v)
  case 0
  then have k: "k = 100" by simp
  have "nanoseconds_to_milliseconds (1000 * int (50000 * 101)) = 5050"
    using ms_of_polls [of 101] by simp
  then show ?case
    using 0 k
    by (subst waitForSdcardFs.simps) (simp add: ask_def fire_def dev clock)
next
  case (Suc n)
  then have k: "k < 100" by simp
  let ?v3 = "v\<lparr>calls := calls v @ [GetDevice p, Usleep 50000, SystemTime]\<rparr>"
  have ms: "nanoseconds_to_milliseconds (1000 * int (50000 * (k + 1))) = 50 * int (k + 1)"
    by (rule ms_of_polls)
  have step: "waitForSdcardFs w before start v = waitForSdcardFs w before start ?v3"
    using Suc.prems k ms
    by (subst waitForSdcardFs.simps) (simp add: ask_def fire_def dev clock algebra_simps)
  have "waitForSdcardFs w before start ?v3 =
       Some (Some (- ETIMEDOUT),
         ?v3\<lparr>calls := calls ?v3 @ concat (replicate (101 - (k + 1)) [GetDevice p, Usleep 50000, SystemTime])\<rparr>)"
    using Suc.hyps(2) Suc.prems by (intro Suc.hyps(1)) simp_all
  moreover have "101 - k = Suc (101 - (k + 1))" using k by simp
  ultimately show ?case unfolding step by simp
qed

subsection \<open>The wait for sdcardfs under any clock\<close>

text \<open>
  The loop returns \<open>-ETIMEDOUT\<close> at the first poll after which the clock reads more
  than 5000 ms past the start reading: if the device stays what it was, the readings
  of the first \<open>n\<close> polls are within the budget and the reading of the next poll is
  beyond it, the loop makes \<open>n + 1\<close> polls.
\<close>

lemma waitForSdcardFs_timeout_at:
  assumes p: "mSdcardFsFull v = p"
    and within: "\<forall>j<n. respond w (calls v @ concat (replicate j [GetDevice p, Usleep 50000, SystemTime])) (GetDevice p) = before
        \<and> \<not> 5000 < nanoseconds_to_milliseconds
              (respond w (calls v @ concat (replicate j [GetDevice p, Usleep 50000, SystemTime]) @
                 [GetDevice p, Usleep 50000]) SystemTime - start)"
    and over: "respond w (calls v @ concat (replicate n [GetDevice p, Usleep 50000, SystemTime])) (GetDevice p) = before
        \<and> 5000 < nanoseconds_to_milliseconds
              (respond w (calls v @ concat (replicate n [GetDevice p, Usleep 50000, SystemTime]) @
                 [GetDevice p, Usleep 50000]) SystemTime - start)"
  shows "waitForSdcardFs w before start v =
       Some (Some (- ETIMEDOUT),
         v\<lparr>calls := calls v @ concat (replicate (Suc n) [GetDevice p, Usleep 50000, SystemTime])\<rparr>)"
  using assms
proof (induction n arbitrary: v)
  case 0
  then show ?case
    by (subst waitForSdcardFs.simps) (simp add: ask_def fire_def)
next
  case (Suc n)
  let ?v3 = "v\<lparr>calls := calls v @ [GetDevice p, Usleep 50000, SystemTime]\<rparr>"
  from Suc.prems(2) have first: "respond w (calls v) (GetDevice p) = before"
    "\<not> 5000 < nanoseconds_to_milliseconds (respond w (calls v @ [GetDevice p, Usleep 50000]) SystemTime - start)"
    by (auto dest: spec [of _ 0])
  have step: "waitForSdcardFs w before start v = waitForSdcardFs w before start ?v3"
    using Suc.prems(1) first
    by (subst waitForSdcardFs.simps) (simp add: ask_def fire_def)
  have "waitForSdcardFs w before start ?v3 =
       Some (Some (- ETIMEDOUT),
         ?v3\<lparr>calls := calls ?v3 @ concat (replicate (Suc n) [GetDevice p, Usleep 50000, SystemTime])\<rparr>)"
  proof (rule Suc.IH)
    show "mSdcardFsFull ?v3 = p" using Suc.prems(1) by simp
    show "\<forall>j<n. respond w (calls ?v3 @ concat (replicate j [GetDevice p, Usleep 50000, SystemTime])) (GetDevice p) = before
        \<and> \<not> 5000 < nanoseconds_to_milliseconds
              (respond w (calls ?v3 @ concat (replicate j [GetDevice p, Usleep 50000, SystemTime]) @
                 [GetDevice p, Usleep 50000]) SystemTime - start)"
    proof (intro allI impI)
      fix j assume "j < n"
      then have "Suc j < Suc n" by simp
      with Suc.prems(2) show "respond w (calls ?v3 @ concat (replicate j [GetDevice p, Usleep 50000, SystemTime])) (GetDevice p) = before
        \<and> \<not> 5000 < nanoseconds_to_milliseconds
              (respond w (calls ?v3 @ concat (replicate j [GetDevice p, Usleep 50000, SystemTime]) @
                 [GetDevice p, Usleep 50000]) SystemTime - start)"
        by (auto dest!: spec [of _ "Suc j"])
    qed
    show "respond w (calls ?v3 @ concat (replicate n [GetDevice p, Usleep 50000, SystemTime])) (GetDevice p) = before
        \<and> 5000 < nanoseconds_to_milliseconds
              (respond w (calls ?v3 @ concat (replicate n [GetDevice p, Usleep 50000, SystemTime]) @
                 [GetDevice p, Usleep 50000]) SystemTime - start)"
      using Suc.prems(3) by simp
  qed
  then show ?case unfolding step by simp
qed

text \<open>
  A clock that never runs backwards and that every \<open>usleep\<close> advances by at least the
  time asked for has advanced by at least 50 ms with each poll.
\<close>

lemma clock_after_polls:
  assumes mono: "\<forall>h c. respond w h SystemTime \<le> respond w (h @ [c]) SystemTime"
    and sleep: "\<forall>h us. respond w h SystemTime + 1000 * int us \<le> respond w (h @ [Usleep us]) SystemTime"
  shows "respond w h SystemTime + 50000000 * int j
           \<le> respond w (h @ concat (replicate j [g, Usleep 50000, SystemTime])) SystemTime"
proof (induction j)
  case 0
  show ?case by simp
next
  case (Suc j)
  let ?hj = "h @ concat (replicate j [g, Usleep 50000, SystemTime])"
  have s: "concat (replicate (Suc j) [g, Usleep 50000, SystemTime])
      = concat (replicate j [g, Usleep 50000, SystemTime]) @ [g, Usleep 50000, SystemTime]"
    by (induction j) simp_all
  have a: "respond w ?hj SystemTime \<le> respond w (?hj @ [g]) SystemTime"
    using mono by blast
  have b: "respond w (?hj @ [g]) SystemTime + 1000 * int 50000 \<le> respond w ((?hj @ [g]) @ [Usleep 50000]) SystemTime"
    using sleep by blast
  have c: "respond w ((?hj @ [g]) @ [Usleep 50000]) SystemTime
      \<le> respond w (((?hj @ [g]) @ [Usleep 50000]) @ [SystemTime]) SystemTime"
    using mono by blast
  have "h @ concat (replicate (Suc j) [g, Usleep 50000, SystemTime]) = ((?hj @ [g]) @ [Usleep 50000]) @ [SystemTime]"
    unfolding s by simp
  then show ?case using Suc a b c by (simp only:) simp
qed

lemma reading_after_polls:
  assumes mono: "\<forall>h c. respond w h SystemTime \<le> respond w (h @ [c]) SystemTime"
    and sleep: "\<forall>h us. respond w h SystemTime + 1000 * int us \<le> respond w (h @ [Usleep us]) SystemTime"
  shows "respond w h SystemTime + 50000000 * int (Suc j)
           \<le> respond w (h @ [SystemTime] @ concat (replicate j [g, Usleep 50000, SystemTime]) @ [g, Usleep 50000]) SystemTime"
proof -
  let ?hj = "(h @ [SystemTime]) @ concat (replicate j [g, Usleep 50000, SystemTime])"
  have z: "respond w h SystemTime \<le> respond w (h @ [SystemTime]) SystemTime" using mono by blast
  have y: "respond w (h @ [SystemTime]) SystemTime + 50000000 * int j \<le> respond w ?hj SystemTime"
    by (rule clock_after_polls [OF mono sleep])
  have a: "respond w ?hj SystemTime \<le> respond w (?hj @ [g]) SystemTime"
    using mono by blast
  have b: "respond w (?hj @ [g]) SystemTime + 1000 * int 50000 \<le> respond w ((?hj @ [g]) @ [Usleep 50000]) SystemTime"
    using sleep by blast
  have "h @ [SystemTime] @ concat (replicate j [g, Usleep 50000, SystemTime]) @ [g, Usleep 50000]
      = (?hj @ [g]) @ [Usleep 50000]" by simp
  then show ?thesis using z y a b by (simp only:) simp
qed

lemma ms_over: "5050000000 \<le> n \<Longrightarrow> 5000 < nanoseconds_to_milliseconds n"
  by (simp add: nanoseconds_to_milliseconds_def)

lemma length_polls: "length (concat (replicate n [a, b, c])) = 3 * n"
  by (induction n) simp_all

lemma slept_polls_gen:
  "slept [g] = 0 \<Longrightarrow> slept (concat (replicate n [g, Usleep 50000, SystemTime])) = 50000 * n"
  by (induction n) simp_all

subsection \<open>Histories only grow\<close>

text \<open>
  Each part of doMount and doUnmount appends calls to the history and removes none. The
  lemmas are stated for any property \<open>P\<close> that holds of the calls the part can make.
\<close>

lemma extends_refl [simp]: "extends P v v"
  by (simp add: extends_def)

lemma extends_trans: "extends P a b \<Longrightarrow> extends P b c \<Longrightarrow> extends P a c"
  by (auto simp add: extends_def)

lemma extends_fire: "P c \<Longrightarrow> extends P v v' \<Longrightarrow> extends P v (fire c v')"
  by (auto simp add: extends_def fire_def)

lemma extends_ask: "P c \<Longrightarrow> extends P v v' \<Longrightarrow> extends P v (snd (ask w c v'))"
  by (auto simp add: extends_def ask_def)

lemma prepareDirs_extends:
  assumes "\<And>p. P (FsPrepareDir p)"
  shows "extends P v (snd (prepareDirs w ps v))"
proof (induction ps arbitrary: v)
  case Nil
  show ?case by simp
next
  case (Cons p ps)
  have a: "extends P v (snd (ask w (FsPrepareDir p) v))"
    by (simp add: extends_ask assms)
  show ?case
    using a extends_trans [OF a Cons.IH [of "snd (ask w (FsPrepareDir p) v)"]]
    by (simp add: split_beta)
qed

lemma prepareDirs_same:
  "snd (prepareDirs w ps v) = v\<lparr>calls := calls (snd (prepareDirs w ps v))\<rparr>"
proof (induction ps arbitrary: v)
  case Nil
  show ?case by simp
next
  case (Cons p ps)
  show ?case
    using Cons.IH [of "snd (ask w (FsPrepareDir p) v)"]
    by (simp add: split_beta ask_def)
qed

lemma waitForSdcardFs_extends:
  assumes P: "\<And>p. P (GetDevice p)" "\<And>n. P (Usleep n)" "P SystemTime"
    and run: "waitForSdcardFs w before start v = Some y"
  shows "extends P v (snd y) \<and> snd y = v\<lparr>calls := calls (snd y)\<rparr>"
proof (rule waitForSdcardFs.raw_induct
    [where P = "\<lambda>w before start v y. extends P v (snd y) \<and> snd y = v\<lparr>calls := calls (snd y)\<rparr>",
     OF _ run])
  fix wait w before start v y
  assume IH: "\<And>w before start v y. wait w before start v = Some y \<Longrightarrow>
                extends P v (snd y) \<and> snd y = v\<lparr>calls := calls (snd y)\<rparr>"
    and body: "(case ask w (GetDevice (mSdcardFsFull v)) v of
      (dev, v1) \<Rightarrow>
        if before = dev
        then case ask w SystemTime (fire (Usleep 50000) v1) of
             (now, v3) \<Rightarrow>
               if 5000 < nanoseconds_to_milliseconds (now - start)
               then Some (Some (- ETIMEDOUT), v3)
               else wait w before start v3
        else Some (None, v1)) = Some y"
  let ?v1 = "fire (GetDevice (mSdcardFsFull v)) v"
  let ?v3 = "fire SystemTime (fire (Usleep 50000) ?v1)"
  have e1: "extends P v ?v1" by (simp add: extends_fire P)
  have e3: "extends P v ?v3" by (simp add: extends_fire P)
  show "extends P v (snd y) \<and> snd y = v\<lparr>calls := calls (snd y)\<rparr>"
  proof (cases "before = respond w (calls v) (GetDevice (mSdcardFsFull v))")
    case False
    with body have "snd y = ?v1" by (auto simp add: ask_def fire_def)
    with e1 show ?thesis by (simp add: fire_def)
  next
    case True
    show ?thesis
    proof (cases "5000 < nanoseconds_to_milliseconds (respond w (calls (fire (Usleep 50000) ?v1)) SystemTime - start)")
      case t: True
      with True body have "snd y = ?v3" by (auto simp add: ask_def fire_def)
      with e3 show ?thesis by (simp add: fire_def)
    next
      case f: False
      with True body have "wait w before start ?v3 = Some y"
        by (simp add: ask_def fire_def)
      from IH [OF this] have "extends P ?v3 (snd y)" and "snd y = ?v3\<lparr>calls := calls (snd y)\<rparr>" by simp_all
      with e3 show ?thesis by (auto intro: extends_trans simp add: fire_def)
    qed
  qed
qed

lemma extends_upd [simp]:
  "extends P v (v'\<lparr>mFuseMounted := b\<rparr>) = extends P v v'"
  "extends P v (v'\<lparr>mRawPath := r\<rparr>) = extends P v v'"
  by (simp_all add: extends_def)

subsection \<open>The stages below the FUSE mount\<close>

lemma readMetadata_eq:
  "readMetadata w v =
     (let h = calls v @ [ReadMetadataUntrusted (mDevPath v)];
          fsType = fst (metadata w h); fsUuid = fst (snd (metadata w h));
          fsLabel = snd (snd (metadata w h))
      in (respond w (calls v) (ReadMetadataUntrusted (mDevPath v)),
          v\<lparr>mFsType := fsType, mFsUuid := fsUuid, mFsLabel := fsLabel,
            calls := h @ (if hasListener v
                          then [OnVolumeMetadataChanged (mId v) fsType fsUuid fsLabel] else [])\<rparr>))"
  by (simp add: readMetadata_def ask_def fire_def Let_def split_beta)

lemma checkFilesystem_extends:
  assumes "\<And>p. P (ReadMetadataUntrusted p)" "\<And>a b c d. P (OnVolumeMetadataChanged a b c d)"
    "\<And>p. P (VfatCheck p)" "\<And>p. P (ExfatCheck p)"
  shows "extends P v (snd (checkFilesystem w v))"
  using assms
  by (simp add: checkFilesystem_def readMetadata_eq extends_def ask_def Let_def split_beta)

lemma checkFilesystem_fields:
  "flagPrimary (snd (checkFilesystem w v)) = flagPrimary v"
  "visibleForWrite (snd (checkFilesystem w v)) = visibleForWrite v"
  "mUseSdcardFs (snd (checkFilesystem w v)) = mUseSdcardFs v"
  by (simp_all add: checkFilesystem_def readMetadata_eq ask_def Let_def split_beta)

lemma initAsecStage_eq:
  "initAsecStage w v =
    (let legacyPath = mRawPath v @ ''/android_secure'';
         securePath = mRawPath v @ ''/.android_secure'';
         h1 = calls v @ [Access legacyPath];
         h2 = h1 @ (if respond w (calls v) (Access legacyPath) = 0
                    then [Access securePath] @
                         (if respond w h1 (Access securePath) \<noteq> 0
                          then [Rename legacyPath securePath] else [])
                    else []);
         h3 = h2 @ [Mkdir securePath];
         created = (respond w h2 (Mkdir securePath) = 0 \<or> errno w h3 = EEXIST)
     in (if created then OK else - errno w h3,
         v\<lparr>calls := h3 @ (if created then [BindMount securePath kAsecPath] else [])\<rparr>))"
proof -
  define legacyPath where "legacyPath = mRawPath v @ ''/android_secure''"
  define securePath where "securePath = mRawPath v @ ''/.android_secure''"
  show ?thesis
    unfolding initAsecStage_def ask_def fire_def Let_def
      legacyPath_def [symmetric] securePath_def [symmetric]
    by (cases "respond w (calls v) (Access legacyPath) = 0";
        cases "respond w (calls v @ [Access legacyPath]) (Access securePath) = 0")
       (simp_all)
qed

lemma initAsecStage_extends:
  assumes "\<And>p. P (Access p)" "\<And>p q. P (Rename p q)" "\<And>p. P (Mkdir p)" "\<And>p q. P (BindMount p q)"
  shows "extends P v (snd (initAsecStage w v))"
  using assms by (simp add: initAsecStage_eq extends_def Let_def)

lemma mountDevice_extends:
  assumes "\<And>p q g. P (VfatMount p q g)" "\<And>p q g. P (ExfatMount p q g)"
  shows "extends P v (snd (mountDevice w vis v))"
  using assms by (simp add: mountDevice_def extends_def ask_def Let_def)

lemma mountDevice_fields:
  "flagPrimary (snd (mountDevice w vis v)) = flagPrimary v"
  "mRawPath (snd (mountDevice w vis v)) = mRawPath v"
  by (simp_all add: mountDevice_def ask_def Let_def)

lemma mountPoints_fields [simp]:
  "calls (mountPoints vis sn v) = calls v"
  "flagPrimary (mountPoints vis sn v) = flagPrimary v"
  "visibleForWrite (mountPoints vis sn v) = visibleForWrite v"
  "mUseSdcardFs (mountPoints vis sn v) = mUseSdcardFs v"
  by (simp_all add: mountPoints_def)

lemma mountRaw_cases:
  "snd (mountRaw w vis sn v) = fire (FsPrepareDir (mRawPath (mountPoints vis sn v))) (mountPoints vis sn v)
   \<or> snd (mountRaw w vis sn v) =
       snd (mountDevice w vis (fire (FsPrepareDir (mRawPath (mountPoints vis sn v))) (mountPoints vis sn v)))
   \<or> (flagPrimary v \<and> snd (mountRaw w vis sn v) =
       snd (initAsecStage w (snd (mountDevice w vis
         (fire (FsPrepareDir (mRawPath (mountPoints vis sn v))) (mountPoints vis sn v))))))"
proof -
  have a: "\<And>c u. snd (ask w c u) = fire c u" by (simp add: ask_def fire_def)
  have "flagPrimary (snd (mountDevice w vis
         (fire (FsPrepareDir (mRawPath (mountPoints vis sn v))) (mountPoints vis sn v)))) = flagPrimary v"
    by (simp add: mountDevice_fields fire_def)
  then show ?thesis
    by (simp add: mountRaw_def Let_def split_beta a split: option.splits)
qed

lemma mountRaw_extends:
  assumes "\<And>p. P (FsPrepareDir p)" "\<And>p q g. P (VfatMount p q g)" "\<And>p q g. P (ExfatMount p q g)"
    and "flagPrimary v \<Longrightarrow> (\<forall>p q. P (Access p) \<and> P (Rename p q) \<and> P (Mkdir p) \<and> P (BindMount p q))"
  shows "extends P v (snd (mountRaw w vis sn v))"
proof -
  let ?v1 = "mountPoints vis sn v"
  let ?v2 = "fire (FsPrepareDir (mRawPath ?v1)) ?v1"
  let ?v3 = "snd (mountDevice w vis ?v2)"
  have e2: "extends P v ?v2" using assms(1) by (simp add: extends_def fire_def)
  have e3: "extends P v ?v3"
    using extends_trans [OF e2 mountDevice_extends [of P ?v2 w vis]] assms(2,3) by simp
  have e4: "flagPrimary v \<Longrightarrow> extends P v (snd (initAsecStage w ?v3))"
    using extends_trans [OF e3 initAsecStage_extends [of P ?v3 w]] assms(4) by simp
  from mountRaw_cases [of w vis sn v] show ?thesis
  proof (elim disjE conjE)
    assume "snd (mountRaw w vis sn v) = ?v2"
    then show ?thesis using e2 by (simp only:)
  next
    assume "snd (mountRaw w vis sn v) = ?v3"
    then show ?thesis using e3 by (simp only:)
  next
    assume "flagPrimary v" and r: "snd (mountRaw w vis sn v) = snd (initAsecStage w ?v3)"
    from e4 [OF this(1)] r show ?thesis by (simp only:)
  qed
qed

lemma spinUpSdcardFs_extends:
  assumes P: "\<And>p. P (FsPrepareDir p)" "\<And>p. P (GetDevice p)" "\<And>a b c d. P (ForkSdcardFs a b c d)"
    "\<And>n. P (Usleep n)" "P SystemTime" "\<And>p. P (Waitpid p)"
    and run: "spinUpSdcardFs w sn v = Some y"
  shows "extends P v (snd y)"
proof -
  let ?ps = "[mSdcardFsDefault v, mSdcardFsRead v, mSdcardFsWrite v, mSdcardFsFull v]"
  let ?v1 = "snd (prepareDirs w ?ps v)"
  let ?v2 = "fire (GetDevice (mSdcardFsFull ?v1)) ?v1"
  let ?v3 = "fire (ForkSdcardFs (flagPrimary ?v2) (mMountUserId ?v2) (mRawPath ?v2) sn) ?v2"
  let ?v4 = "fire SystemTime ?v3"
  have e1: "extends P v ?v1" by (rule prepareDirs_extends) (rule P)
  have e3: "extends P v ?v3" using e1 by (simp add: extends_fire P)
  have e4: "extends P v ?v4" using e3 by (simp add: extends_fire P)
  show ?thesis
  proof (cases "fst (prepareDirs w ?ps v)")
    case True
    with run have "snd y = ?v1" by (auto simp add: spinUpSdcardFs_def split_beta)
    with e1 show ?thesis by simp
  next
    case nf: False
    let ?pid = "respond w (calls ?v2) (ForkSdcardFs (flagPrimary ?v2) (mMountUserId ?v2) (mRawPath ?v2) sn)"
    have pid0: "?pid \<noteq> 0"
      using run nf by (auto simp add: spinUpSdcardFs_def split_beta ask_def fire_def)
    show ?thesis
    proof (cases "?pid = - 1")
      case True
      with run nf pid0 have "snd y = ?v3"
        by (auto simp add: spinUpSdcardFs_def split_beta ask_def fire_def)
      with e3 show ?thesis by simp
    next
      case False
      let ?before = "respond w (calls ?v1) (GetDevice (mSdcardFsFull ?v1))"
      let ?start = "respond w (calls ?v3) SystemTime"
      from run nf pid0 False obtain z where
        z: "waitForSdcardFs w ?before ?start ?v4 = Some z"
        and y: "snd y = snd z \<or> snd y = fire (Waitpid ?pid) (snd z)"
        by (auto simp add: spinUpSdcardFs_def split_beta ask_def fire_def
            split: option.splits)
      from waitForSdcardFs_extends [OF P(2,4,5) z] have "extends P ?v4 (snd z)" by simp
      with e4 have "extends P v (snd z)" by (rule extends_trans)
      with y show ?thesis by (auto simp add: extends_fire P)
    qed
  qed
qed

subsection \<open>What each stage returns\<close>

text \<open>
  The result of each stage below the FUSE mount, in terms of what the outside calls
  answer. The paths that \<open>mountPoints\<close> records stay folded.
\<close>

lemma checkFilesystem_eq:
  "checkFilesystem w v =
     (let m = snd (readMetadata w v) in
      if mFsType m = ''vfat'' \<and> vfatSupported w then
        (if respond w (calls m) (VfatCheck (mDevPath m)) \<noteq> 0 then Some (- EIO) else None,
         m\<lparr>calls := calls m @ [VfatCheck (mDevPath m)]\<rparr>)
      else if mFsType m = ''exfat'' \<and> exfatSupported w then
        (if respond w (calls m) (ExfatCheck (mDevPath m)) \<noteq> 0 then Some (- EIO) else None,
         m\<lparr>calls := calls m @ [ExfatCheck (mDevPath m)]\<rparr>)
      else (Some (- EIO), m))"
  by (simp add: checkFilesystem_def ask_def Let_def split_beta)

lemma checkFilesystem_ok_fsType:
  assumes "checkFilesystem w v = (None, v1)"
  shows "mFsType v1 = ''vfat'' \<or> mFsType v1 = ''exfat''"
  using assms by (auto simp add: checkFilesystem_eq Let_def split: if_splits)


lemma mountPoints_more:
  "mFsType (mountPoints vis sn v) = mFsType v"
  "mDevPath (mountPoints vis sn v) = mDevPath v"
  "mRawPath (mountPoints vis sn v) = ''/mnt/media_rw/'' @ sn"
  "mMountUserId (mountPoints vis sn v) = mMountUserId v"
  "mFuseMounted (mountPoints vis sn v) = mFuseMounted v"
  by (simp_all add: mountPoints_def)

lemma mountDevice_eq:
  assumes "mFsType v = ''vfat'' \<or> mFsType v = ''exfat''"
  shows "mountDevice w vis v =
    (let gid = (if vis then AID_MEDIA_RW else AID_EXTERNAL_STORAGE);
         mnt = (if mFsType v = ''vfat'' then VfatMount (mDevPath v) (mRawPath v) gid
                else ExfatMount (mDevPath v) (mRawPath v) gid)
     in (if respond w (calls v) mnt \<noteq> 0 then Some (- EIO) else None, v\<lparr>calls := calls v @ [mnt]\<rparr>))"
  using assms by (auto simp add: mountDevice_def ask_def Let_def)

lemma mountRaw_eq:
  assumes fs: "mFsType v = ''vfat'' \<or> mFsType v = ''exfat''"
    and raw: "raw = ''/mnt/media_rw/'' @ sn"
    and gid: "gid = (if vis then AID_MEDIA_RW else AID_EXTERNAL_STORAGE)"
    and mnt: "mnt = (if mFsType v = ''vfat'' then VfatMount (mDevPath v) raw gid
                     else ExfatMount (mDevPath v) raw gid)"
  shows "mountRaw w vis sn v =
    (if respond w (calls v) (FsPrepareDir raw) \<noteq> 0
     then (Some (- errno w (calls v @ [FsPrepareDir raw])),
           (mountPoints vis sn v)\<lparr>calls := calls v @ [FsPrepareDir raw]\<rparr>)
     else if respond w (calls v @ [FsPrepareDir raw]) mnt \<noteq> 0
     then (Some (- EIO), (mountPoints vis sn v)\<lparr>calls := calls v @ [FsPrepareDir raw, mnt]\<rparr>)
     else (None, if flagPrimary v
                 then snd (initAsecStage w ((mountPoints vis sn v)\<lparr>calls := calls v @ [FsPrepareDir raw, mnt]\<rparr>))
                 else (mountPoints vis sn v)\<lparr>calls := calls v @ [FsPrepareDir raw, mnt]\<rparr>))"
proof -
  let ?p = "mountPoints vis sn v"
  let ?p2 = "?p\<lparr>calls := calls v @ [FsPrepareDir raw]\<rparr>"
  have fs2: "mFsType ?p2 = ''vfat'' \<or> mFsType ?p2 = ''exfat''"
    using fs by (simp add: mountPoints_more)
  have rp: "mRawPath ?p2 = raw" "mRawPath ?p = raw"
    by (simp_all add: mountPoints_more raw)
  have md: "mountDevice w vis ?p2 =
      (if respond w (calls v @ [FsPrepareDir raw]) mnt \<noteq> 0 then Some (- EIO) else None,
       ?p\<lparr>calls := calls v @ [FsPrepareDir raw, mnt]\<rparr>)"
    by (simp add: mountDevice_eq [OF fs2] Let_def mnt gid rp mountPoints_more(1,2))
  have "mountRaw w vis sn v =
     (if respond w (calls v) (FsPrepareDir raw) \<noteq> 0
      then (Some (- errno w (calls v @ [FsPrepareDir raw])), ?p2)
      else (case mountDevice w vis ?p2 of
                (Some e, v3) \<Rightarrow> (Some e, v3)
              | (None, v3) \<Rightarrow> (None, if flagPrimary v3 then snd (initAsecStage w v3) else v3)))"
    unfolding mountRaw_def Let_def ask_def rp
    by simp
  then show ?thesis unfolding md by simp
qed

lemma mountRaw_useSdcardFs:
  "mUseSdcardFs (snd (mountRaw w vis sn v)) = mUseSdcardFs v"
proof -
  have a: "mUseSdcardFs (snd (mountDevice w vis u)) = mUseSdcardFs u" for u
    by (simp add: mountDevice_def ask_def Let_def)
  have b: "mUseSdcardFs (snd (initAsecStage w u)) = mUseSdcardFs u" for u
    by (simp add: initAsecStage_eq Let_def)
  from mountRaw_cases [of w vis sn v] show ?thesis
    by (elim disjE conjE) (simp_all only: a b, simp_all add: fire_def)
qed

lemma prepareDirs_fail_at:
  "i < length ps \<Longrightarrow>
   \<forall>j<i. respond w (calls v @ map FsPrepareDir (take j ps)) (FsPrepareDir (ps ! j)) = 0 \<Longrightarrow>
   respond w (calls v @ map FsPrepareDir (take i ps)) (FsPrepareDir (ps ! i)) \<noteq> 0 \<Longrightarrow>
   prepareDirs w ps v = (True, v\<lparr>calls := calls v @ map FsPrepareDir (take (Suc i) ps)\<rparr>)"
proof (induction ps arbitrary: i v)
  case Nil
  then show ?case by simp
next
  case (Cons p ps)
  show ?case
  proof (cases i)
    case 0
    with Cons.prems show ?thesis by (simp add: ask_def)
  next
    case (Suc k)
    let ?v1 = "v\<lparr>calls := calls v @ [FsPrepareDir p]\<rparr>"
    from Cons.prems(2) Suc have first: "respond w (calls v) (FsPrepareDir p) = 0"
      by (auto dest: spec [of _ 0])
    have "prepareDirs w ps ?v1 = (True, ?v1\<lparr>calls := calls ?v1 @ map FsPrepareDir (take (Suc k) ps)\<rparr>)"
    proof (rule Cons.IH)
      show "k < length ps" using Cons.prems(1) Suc by simp
      show "\<forall>j<k. respond w (calls ?v1 @ map FsPrepareDir (take j ps)) (FsPrepareDir (ps ! j)) = 0"
      proof (intro allI impI)
        fix j assume "j < k"
        then have "Suc j < i" using Suc by simp
        with Cons.prems(2) show "respond w (calls ?v1 @ map FsPrepareDir (take j ps)) (FsPrepareDir (ps ! j)) = 0"
          by (auto dest!: spec [of _ "Suc j"])
      qed
      show "respond w (calls ?v1 @ map FsPrepareDir (take k ps)) (FsPrepareDir (ps ! k)) \<noteq> 0"
        using Cons.prems(3) Suc by simp
    qed
    then show ?thesis using first Suc by (simp add: ask_def)
  qed
qed

lemma prepareDirs_all_ok:
  "\<forall>j<length ps. respond w (calls v @ map FsPrepareDir (take j ps)) (FsPrepareDir (ps ! j)) = 0 \<Longrightarrow>
   prepareDirs w ps v = (False, v\<lparr>calls := calls v @ map FsPrepareDir ps\<rparr>)"
proof (induction ps arbitrary: v)
  case Nil
  then show ?case by simp
next
  case (Cons p ps)
  let ?v1 = "v\<lparr>calls := calls v @ [FsPrepareDir p]\<rparr>"
  from Cons.prems have first: "respond w (calls v) (FsPrepareDir p) = 0"
    by (auto dest: spec [of _ 0])
  have "prepareDirs w ps ?v1 = (False, ?v1\<lparr>calls := calls ?v1 @ map FsPrepareDir ps\<rparr>)"
  proof (rule Cons.IH, intro allI impI)
    fix j assume "j < length ps"
    then have "Suc j < length (p # ps)" by simp
    with Cons.prems show "respond w (calls ?v1 @ map FsPrepareDir (take j ps)) (FsPrepareDir (ps ! j)) = 0"
      by (auto dest!: spec [of _ "Suc j"])
  qed
  then show ?case using first by (simp add: ask_def)
qed

lemma spinUpSdcardFs_dir_fails:
  assumes ps: "ps = [mSdcardFsDefault v, mSdcardFsRead v, mSdcardFsWrite v, mSdcardFsFull v]"
    and i: "i < 4"
    and ok: "\<forall>j<i. respond w (calls v @ map FsPrepareDir (take j ps)) (FsPrepareDir (ps ! j)) = 0"
    and bad: "respond w (calls v @ map FsPrepareDir (take i ps)) (FsPrepareDir (ps ! i)) \<noteq> 0"
  shows "spinUpSdcardFs w sn v =
     Some (Some (- errno w (calls v @ map FsPrepareDir (take (Suc i) ps))),
           v\<lparr>calls := calls v @ map FsPrepareDir (take (Suc i) ps)\<rparr>)"
proof -
  have "i < length ps" using i ps by simp
  from prepareDirs_fail_at [OF this ok bad] show ?thesis
    unfolding spinUpSdcardFs_def ps [symmetric] by simp
qed

lemma spinUpSdcardFs_fork_fails:
  assumes ps: "ps = [mSdcardFsDefault v, mSdcardFsRead v, mSdcardFsWrite v, mSdcardFsFull v]"
    and ok: "\<forall>j<4. respond w (calls v @ map FsPrepareDir (take j ps)) (FsPrepareDir (ps ! j)) = 0"
    and h: "h = calls v @ map FsPrepareDir ps"
    and bad: "respond w (h @ [GetDevice (mSdcardFsFull v)])
                (ForkSdcardFs (flagPrimary v) (mMountUserId v) (mRawPath v) sn) = - 1"
  shows "spinUpSdcardFs w sn v =
     Some (Some (- errno w (h @ [GetDevice (mSdcardFsFull v),
                                ForkSdcardFs (flagPrimary v) (mMountUserId v) (mRawPath v) sn])),
           v\<lparr>calls := h @ [GetDevice (mSdcardFsFull v),
                            ForkSdcardFs (flagPrimary v) (mMountUserId v) (mRawPath v) sn]\<rparr>)"
proof -
  have "\<forall>j<length ps. respond w (calls v @ map FsPrepareDir (take j ps)) (FsPrepareDir (ps ! j)) = 0"
    using ok ps by simp
  from prepareDirs_all_ok [OF this] show ?thesis
    unfolding spinUpSdcardFs_def ps [symmetric] using bad h
    by (simp add: ask_def)
qed

lemma spinUpSdcardFs_timeout_core:
  assumes dirs: "prepareDirs w [mSdcardFsDefault v, mSdcardFsRead v, mSdcardFsWrite v, mSdcardFsFull v] v
                   = (False, v1)"
    and g: "g = GetDevice (mSdcardFsFull v)"
    and f: "f = ForkSdcardFs (flagPrimary v) (mMountUserId v) (mRawPath v) sn"
    and fork: "respond w (calls v1 @ [g]) f \<notin> {0, - 1}"
    and within: "\<forall>j<n. respond w (calls v1 @ [g, f, SystemTime] @ concat (replicate j [g, Usleep 50000, SystemTime])) g
                      = respond w (calls v1) g
        \<and> \<not> 5000 < nanoseconds_to_milliseconds
              (respond w (calls v1 @ [g, f, SystemTime] @ concat (replicate j [g, Usleep 50000, SystemTime]) @
                 [g, Usleep 50000]) SystemTime - respond w (calls v1 @ [g, f]) SystemTime)"
    and over: "respond w (calls v1 @ [g, f, SystemTime] @ concat (replicate n [g, Usleep 50000, SystemTime])) g
                      = respond w (calls v1) g
        \<and> 5000 < nanoseconds_to_milliseconds
              (respond w (calls v1 @ [g, f, SystemTime] @ concat (replicate n [g, Usleep 50000, SystemTime]) @
                 [g, Usleep 50000]) SystemTime - respond w (calls v1 @ [g, f]) SystemTime)"
  shows "spinUpSdcardFs w sn v =
     Some (Some (- ETIMEDOUT),
           v1\<lparr>calls := calls v1 @ [g, f, SystemTime] @ concat (replicate (Suc n) [g, Usleep 50000, SystemTime])\<rparr>)"
proof -
  let ?v4 = "v1\<lparr>calls := calls v1 @ [g, f, SystemTime]\<rparr>"
  have same: "v1 = v\<lparr>calls := calls v1\<rparr>"
    using prepareDirs_same [of w "[mSdcardFsDefault v, mSdcardFsRead v, mSdcardFsWrite v, mSdcardFsFull v]" v] dirs
    by simp
  have fl: "mSdcardFsFull v1 = mSdcardFsFull v" "flagPrimary v1 = flagPrimary v" "mMountUserId v1 = mMountUserId v"
    "mRawPath v1 = mRawPath v"
    by (subst same, simp)+
  have wait: "waitForSdcardFs w (respond w (calls v1) g) (respond w (calls v1 @ [g, f]) SystemTime) ?v4 =
       Some (Some (- ETIMEDOUT),
         ?v4\<lparr>calls := calls ?v4 @ concat (replicate (Suc n) [GetDevice (mSdcardFsFull v), Usleep 50000, SystemTime])\<rparr>)"
  proof (rule waitForSdcardFs_timeout_at)
    show "mSdcardFsFull ?v4 = mSdcardFsFull v" using fl by simp
    show "\<forall>j<n. respond w (calls ?v4 @ concat (replicate j [GetDevice (mSdcardFsFull v), Usleep 50000, SystemTime]))
            (GetDevice (mSdcardFsFull v)) = respond w (calls v1) g
        \<and> \<not> 5000 < nanoseconds_to_milliseconds
              (respond w (calls ?v4 @ concat (replicate j [GetDevice (mSdcardFsFull v), Usleep 50000, SystemTime]) @
                 [GetDevice (mSdcardFsFull v), Usleep 50000]) SystemTime - respond w (calls v1 @ [g, f]) SystemTime)"
      using within unfolding g [symmetric] by simp
    show "respond w (calls ?v4 @ concat (replicate n [GetDevice (mSdcardFsFull v), Usleep 50000, SystemTime]))
            (GetDevice (mSdcardFsFull v)) = respond w (calls v1) g
        \<and> 5000 < nanoseconds_to_milliseconds
              (respond w (calls ?v4 @ concat (replicate n [GetDevice (mSdcardFsFull v), Usleep 50000, SystemTime]) @
                 [GetDevice (mSdcardFsFull v), Usleep 50000]) SystemTime - respond w (calls v1 @ [g, f]) SystemTime)"
      using over unfolding g [symmetric] by simp
  qed
  show ?thesis
    unfolding spinUpSdcardFs_def dirs
    using fork g f wait
    by (simp add: fl ask_def fire_def del: prepareDirs.simps replicate.simps)
qed

lemma spinUpSdcardFs_timeout_at:
  assumes ps: "ps = [mSdcardFsDefault v, mSdcardFsRead v, mSdcardFsWrite v, mSdcardFsFull v]"
    and ok: "\<forall>j<4. respond w (calls v @ map FsPrepareDir (take j ps)) (FsPrepareDir (ps ! j)) = 0"
    and h: "h = calls v @ map FsPrepareDir ps"
    and g: "g = GetDevice (mSdcardFsFull v)"
    and f: "f = ForkSdcardFs (flagPrimary v) (mMountUserId v) (mRawPath v) sn"
    and fork: "respond w (h @ [g]) f \<notin> {0, - 1}"
    and within: "\<forall>j<n. respond w (h @ [g, f, SystemTime] @ concat (replicate j [g, Usleep 50000, SystemTime])) g
                      = respond w h g
        \<and> \<not> 5000 < nanoseconds_to_milliseconds
              (respond w (h @ [g, f, SystemTime] @ concat (replicate j [g, Usleep 50000, SystemTime]) @
                 [g, Usleep 50000]) SystemTime - respond w (h @ [g, f]) SystemTime)"
    and over: "respond w (h @ [g, f, SystemTime] @ concat (replicate n [g, Usleep 50000, SystemTime])) g
                      = respond w h g
        \<and> 5000 < nanoseconds_to_milliseconds
              (respond w (h @ [g, f, SystemTime] @ concat (replicate n [g, Usleep 50000, SystemTime]) @
                 [g, Usleep 50000]) SystemTime - respond w (h @ [g, f]) SystemTime)"
  shows "spinUpSdcardFs w sn v =
     Some (Some (- ETIMEDOUT),
           v\<lparr>calls := h @ [g, f, SystemTime] @ concat (replicate (Suc n) [g, Usleep 50000, SystemTime])\<rparr>)"
proof -
  have "\<forall>j<length ps. respond w (calls v @ map FsPrepareDir (take j ps)) (FsPrepareDir (ps ! j)) = 0"
    using ok ps by simp
  from prepareDirs_all_ok [OF this]
  have d: "prepareDirs w [mSdcardFsDefault v, mSdcardFsRead v, mSdcardFsWrite v, mSdcardFsFull v] v
      = (False, v\<lparr>calls := h\<rparr>)"
    unfolding ps h by simp
  have "spinUpSdcardFs w sn v =
     Some (Some (- ETIMEDOUT),
           (v\<lparr>calls := h\<rparr>)\<lparr>calls := calls (v\<lparr>calls := h\<rparr>) @ [g, f, SystemTime] @
               concat (replicate (Suc n) [g, Usleep 50000, SystemTime])\<rparr>)"
    by (rule spinUpSdcardFs_timeout_core [OF d g f]) (use fork within over in simp_all)
  then show ?thesis by (simp del: replicate.simps)
qed

subsection \<open>doUnmount, the FUSE mount and the bind mounts\<close>

lemma unmountFuse_extends:
  assumes "\<And>p. P (ForceUnmount p)" "\<And>p. P (Rmdir p)" "\<And>u p n. P (UnmountUserFuse u p n)"
  shows "extends P v (snd (unmountFuse w v))"
proof (cases "mFuseMounted v")
  case False
  then show ?thesis by (simp add: unmountFuse_not_mounted)
next
  case True
  have "list_all P (concat (map (\<lambda>u. [ForceUnmount (GetFuseMountPathForUser w u (stableName v)),
                             Rmdir (GetFuseMountPathForUser w u (stableName v))])
                      (filter (\<lambda>u. u \<noteq> mMountUserId v) (startedUsers w))))"
    using assms by (simp add: list_all_iff)
  then show ?thesis
    using assms(3) by (simp add: unmountFuse_mounted [OF True] Let_def extends_def)
qed

lemma unmountSdcardFs_extends:
  assumes "\<And>p. P (ForceUnmount p)" "\<And>p. P (Rmdir p)"
  shows "extends P v (unmountSdcardFs v)"
  using assms by (simp add: extends_def unmountSdcardFs_calls)

lemma unmountRaw_extends:
  assumes "\<And>p. P (ForceUnmount p)" "\<And>p. P (Rmdir p)" "\<And>p. P (UmountDetach p)"
    "\<And>p. P (KillProcessesUsingPath p)"
  shows "extends P v (snd (unmountRaw w v))"
  using assms by (simp add: extends_def unmountRaw_eq)

lemma doUnmount_extends:
  assumes P: "\<And>p. P (KillProcessesUsingPath p)" "\<And>p. P (ForceUnmount p)" "\<And>p. P (Rmdir p)"
    "\<And>p. P (UmountDetach p)" "\<And>u p n. P (UnmountUserFuse u p n)"
  shows "extends P v (snd (doUnmount w v))"
proof -
  let ?v0 = "fire (KillProcessesUsingPath (mPath v)) v"
  let ?v1 = "snd (unmountFuse w ?v0)"
  let ?v2 = "unmountSdcardFs (fire (ForceUnmount kAsecPath) ?v1)"
  have e0: "extends P v ?v0" by (simp add: extends_fire P)
  have e1: "extends P v ?v1"
    by (rule extends_trans [OF e0 unmountFuse_extends]) (rule P)+
  have "extends P v (fire (ForceUnmount kAsecPath) ?v1)" using e1 by (simp add: extends_fire P)
  then have e2: "extends P v ?v2"
    by (rule extends_trans [OF _ unmountSdcardFs_extends]) (rule P)+
  have e3: "extends P v (snd (unmountRaw w ?v2))"
    by (rule extends_trans [OF e2 unmountRaw_extends]) (rule P)+
  show ?thesis
    using e1 e3 by (simp add: doUnmount_def split_beta split: option.splits)
qed


lemma tuneAndBind_eq:
  "tuneAndBind w sn v =
     (OK, v\<lparr>calls := calls v @
        [ConfigureReadAheadForFuse (GetFuseMountPathForUser w (mMountUserId v) sn) 256,
         ConfigureMaxDirtyRatioForFuse (GetFuseMountPathForUser w (mMountUserId v) sn) 40] @
        concat (map (\<lambda>u. [PrepareMountDirForUser u,
                           PrepareDir (GetFuseMountPathForUser w u (stableName v)),
                           BindMount (GetFuseMountPathForUser w (mMountUserId v) (stableName v))
                                     (GetFuseMountPathForUser w u (stableName v))])
                    (filter (\<lambda>u. u \<noteq> mMountUserId v \<and> mMountUserId v = getSharedStorageUser w u)
                       (startedUsers w)))\<rparr>)"
  by (simp add: tuneAndBind_def bindStartedUsers_eq fire_def Let_def)


text \<open>
  What doUnmount attempts on any volume: it kills the users of the path, and every call
  it makes after that is a teardown call.
\<close>

lemma doUnmount_attempts:
  "\<exists>t. calls (snd (doUnmount w u)) = calls u @ [KillProcessesUsingPath (mPath u)] @ t
       \<and> list_all isTeardown t
       \<and> (\<not> mFuseMounted u \<longrightarrow>
            ForceUnmount (mRawPath u) \<in> set t \<and> Rmdir (mRawPath u) \<in> set t
            \<and> mRawPath (snd (doUnmount w u)) = [])
       \<and> (mFuseMounted u \<longrightarrow>
            UnmountUserFuse (mMountUserId u) (mInternalPath u) (stableName u) \<in> set t)"
proof (cases "mFuseMounted u")
  case False
  let ?v2 = "unmountSdcardFs (fire (ForceUnmount kAsecPath) (fire (KillProcessesUsingPath (mPath u)) u))"
  have run: "doUnmount w u = unmountRaw w ?v2"
    using False by (simp add: doUnmount_def unmountFuse_not_mounted fire_def)
  obtain detach kill where
    raw: "unmountRaw w ?v2 =
       (OK, ?v2\<lparr>mRawPath := [], calls := calls ?v2 @ [ForceUnmount (mRawPath ?v2)] @ detach @
              [Rmdir (mRawPath ?v2)] @ kill\<rparr>)"
    and d: "detach = [] \<or> detach = [UmountDetach (mRawPath ?v2)]"
    and k: "kill = [] \<or> kill = [KillProcessesUsingPath (mPath ?v2)]"
    using unmountRaw_shape [of w ?v2] by blast
  have fields: "mRawPath ?v2 = mRawPath u"
    by (simp add: unmountSdcardFs_fields fire_def)
  obtain sd where cs: "calls ?v2 = calls u @ [KillProcessesUsingPath (mPath u)] @ [ForceUnmount kAsecPath] @ sd"
    and sdt: "list_all isTeardown sd"
    by (cases "mUseSdcardFs u") (simp_all add: unmountSdcardFs_calls fire_def)
  let ?t = "[ForceUnmount kAsecPath] @ sd @ [ForceUnmount (mRawPath u)] @ detach @ [Rmdir (mRawPath u)] @ kill"
  have "calls (snd (doUnmount w u)) = calls u @ [KillProcessesUsingPath (mPath u)] @ ?t"
    unfolding run raw using cs fields by simp
  moreover have "list_all isTeardown ?t" using sdt d k by auto
  moreover have "ForceUnmount (mRawPath u) \<in> set ?t" "Rmdir (mRawPath u) \<in> set ?t" by simp_all
  moreover have "mRawPath (snd (doUnmount w u)) = []" unfolding run raw by simp
  ultimately show ?thesis using False by blast
next
  case True
  let ?sib = "concat (map (\<lambda>x. [ForceUnmount (GetFuseMountPathForUser w x (stableName u)),
                             Rmdir (GetFuseMountPathForUser w x (stableName u))])
                      (filter (\<lambda>x. x \<noteq> mMountUserId u) (startedUsers w)))"
  let ?c = "UnmountUserFuse (mMountUserId u) (mInternalPath u) (stableName u)"
  let ?v0 = "fire (KillProcessesUsingPath (mPath u)) u"
  have m0: "mFuseMounted ?v0" using True by (simp add: fire_def)
  have f0: "stableName ?v0 = stableName u" "mMountUserId ?v0 = mMountUserId u"
    "mInternalPath ?v0 = mInternalPath u" "calls ?v0 = calls u @ [KillProcessesUsingPath (mPath u)]"
    by (simp_all add: fire_def)
  have sibt: "list_all isTeardown ?sib" by (simp add: list_all_iff)
  obtain t' where all: "calls (snd (doUnmount w u)) = calls u @ t'" and allt: "list_all isTeardown t'"
    using doUnmount_extends [where P = isTeardown, of u w] by (auto simp add: extends_def)
  have "\<exists>rest. calls (snd (doUnmount w u)) = calls u @ [KillProcessesUsingPath (mPath u)] @ ?sib @ [?c] @ rest"
  proof (cases "respond w (calls u @ [KillProcessesUsingPath (mPath u)] @ ?sib) ?c \<noteq> OK")
    case True
    then have "calls (snd (doUnmount w u)) = calls u @ [KillProcessesUsingPath (mPath u)] @ ?sib @ [?c]"
      by (simp add: doUnmount_def unmountFuse_mounted [OF m0] f0 Let_def)
    then show ?thesis by simp
  next
    case False
    let ?v1 = "?v0\<lparr>calls := calls u @ [KillProcessesUsingPath (mPath u)] @ ?sib @ [?c], mFuseMounted := False\<rparr>"
    let ?v2 = "unmountSdcardFs (fire (ForceUnmount kAsecPath) ?v1)"
    from False have run: "doUnmount w u = unmountRaw w ?v2"
      by (simp add: doUnmount_def unmountFuse_mounted [OF m0] f0 Let_def)
    obtain t where t: "calls (snd (unmountRaw w ?v2)) = calls ?v2 @ t"
      using unmountRaw_calls by blast
    obtain s where s: "calls ?v2 = calls u @ [KillProcessesUsingPath (mPath u)] @ ?sib @ [?c] @ s"
      by (simp add: unmountSdcardFs_calls fire_def)
    show ?thesis unfolding run t s by simp
  qed
  then obtain rest where r: "calls (snd (doUnmount w u)) =
      calls u @ [KillProcessesUsingPath (mPath u)] @ ?sib @ [?c] @ rest" by blast
  from all r have t': "t' = [KillProcessesUsingPath (mPath u)] @ ?sib @ [?c] @ rest" by simp
  let ?t = "?sib @ [?c] @ rest"
  have "list_all isTeardown ?t" using allt unfolding t' by simp
  moreover have "?c \<in> set ?t" by simp
  ultimately show ?thesis using True r by blast
qed



subsection \<open>doMount as a whole\<close>

lemma mountBelowFuse_cases:
  assumes "mountBelowFuse w v = Some y"
  shows "snd y = snd (checkFilesystem w v)
     \<or> snd y = snd (mountRaw w (visibleForWrite v) (stableName (snd (checkFilesystem w v)))
                    (snd (checkFilesystem w v)))
     \<or> (\<exists>z. spinUpSdcardFs w (stableName (snd (checkFilesystem w v)))
               (snd (mountRaw w (visibleForWrite v) (stableName (snd (checkFilesystem w v)))
                    (snd (checkFilesystem w v)))) = Some z \<and> snd y = snd z)"
  using assms
  by (auto simp add: mountBelowFuse_def Let_def split_beta split: option.splits if_splits)

lemma mountBelowFuse_extends:
  assumes P: "\<And>p. P (ReadMetadataUntrusted p)" "\<And>a b c d. P (OnVolumeMetadataChanged a b c d)"
    "\<And>p. P (VfatCheck p)" "\<And>p. P (ExfatCheck p)"
    "\<And>p. P (FsPrepareDir p)" "\<And>p q g. P (VfatMount p q g)" "\<And>p q g. P (ExfatMount p q g)"
    "\<And>p. P (GetDevice p)" "\<And>a b c d. P (ForkSdcardFs a b c d)"
    "\<And>n. P (Usleep n)" "P SystemTime" "\<And>p. P (Waitpid p)"
    and asec: "flagPrimary v \<Longrightarrow> (\<forall>p q. P (Access p) \<and> P (Rename p q) \<and> P (Mkdir p) \<and> P (BindMount p q))"
    and run: "mountBelowFuse w v = Some y"
  shows "extends P v (snd y)"
proof -
  let ?v1 = "snd (checkFilesystem w v)"
  let ?sn = "stableName ?v1"
  let ?v2 = "snd (mountRaw w (visibleForWrite v) ?sn ?v1)"
  have e1: "extends P v ?v1" by (rule checkFilesystem_extends) (rule P)+
  have "extends P ?v1 ?v2"
    using asec by (intro mountRaw_extends P) (simp add: checkFilesystem_fields)
  with e1 have e2: "extends P v ?v2" by (rule extends_trans)
  from mountBelowFuse_cases [OF run] show ?thesis
  proof (elim disjE exE conjE)
    assume "snd y = ?v1" with e1 show ?thesis by (simp only:)
  next
    assume "snd y = ?v2" with e2 show ?thesis by (simp only:)
  next
    fix z assume z: "spinUpSdcardFs w ?sn ?v2 = Some z" and y: "snd y = snd z"
    have "extends P ?v2 (snd z)" by (rule spinUpSdcardFs_extends [OF _ _ _ _ _ _ z]) (rule P)+
    with e2 have "extends P v (snd z)" by (rule extends_trans)
    with y show ?thesis by (simp only:)
  qed
qed




lemma doMount_check_fails:
  assumes "checkFilesystem w v = (Some e, v1)"
  shows "doMount w v = Some (e, v1)"
  using assms by (simp add: doMount_def mountBelowFuse_def)

lemma doMount_raw_fails:
  assumes "checkFilesystem w v = (None, v1)"
    and "mountRaw w (visibleForWrite v) (stableName v1) v1 = (Some e, v2)"
  shows "doMount w v = Some (e, v2)"
  using assms by (simp add: doMount_def mountBelowFuse_def)

lemma doMount_overlay_fails:
  assumes "checkFilesystem w v = (None, v1)"
    and "mountRaw w (visibleForWrite v) (stableName v1) v1 = (None, v2)"
    and "visibleForWrite v" "mUseSdcardFs v2"
    and "spinUpSdcardFs w (stableName v1) v2 = Some (Some e, v3)"
  shows "doMount w v = Some (e, v3)"
  using assms by (simp add: doMount_def mountBelowFuse_def)

text \<open>
  A stage that fails ends doMount: the result is the status of that stage and the volume
  as the failing call left it.
\<close>

lemma doMount_check_stage:
  assumes m: "m = snd (readMetadata w v)"
  shows "(\<not> (mFsType m = ''vfat'' \<and> vfatSupported w) \<and> \<not> (mFsType m = ''exfat'' \<and> exfatSupported w) \<longrightarrow>
            doMount w v = Some (- EIO, m))
       \<and> (mFsType m = ''vfat'' \<and> vfatSupported w \<and> respond w (calls m) (VfatCheck (mDevPath m)) \<noteq> 0 \<longrightarrow>
            doMount w v = Some (- EIO, m\<lparr>calls := calls m @ [VfatCheck (mDevPath m)]\<rparr>))
       \<and> (mFsType m = ''exfat'' \<and> exfatSupported w \<and> respond w (calls m) (ExfatCheck (mDevPath m)) \<noteq> 0 \<longrightarrow>
            doMount w v = Some (- EIO, m\<lparr>calls := calls m @ [ExfatCheck (mDevPath m)]\<rparr>))"
proof -
  have cf: "checkFilesystem w v = (if mFsType m = ''vfat'' \<and> vfatSupported w then
        (if respond w (calls m) (VfatCheck (mDevPath m)) \<noteq> 0 then Some (- EIO) else None,
         m\<lparr>calls := calls m @ [VfatCheck (mDevPath m)]\<rparr>)
      else if mFsType m = ''exfat'' \<and> exfatSupported w then
        (if respond w (calls m) (ExfatCheck (mDevPath m)) \<noteq> 0 then Some (- EIO) else None,
         m\<lparr>calls := calls m @ [ExfatCheck (mDevPath m)]\<rparr>)
      else (Some (- EIO), m))"
    unfolding m by (simp only: checkFilesystem_eq Let_def)
  show ?thesis
  proof (intro conjI impI)
    assume a: "\<not> (mFsType m = ''vfat'' \<and> vfatSupported w) \<and> \<not> (mFsType m = ''exfat'' \<and> exfatSupported w)"
    have "checkFilesystem w v = (Some (- EIO), m)"
      unfolding cf using a by (simp only: if_False)
    then show "doMount w v = Some (- EIO, m)" by (rule doMount_check_fails)
  next
    assume a: "mFsType m = ''vfat'' \<and> vfatSupported w \<and> respond w (calls m) (VfatCheck (mDevPath m)) \<noteq> 0"
    then have a1: "mFsType m = ''vfat'' \<and> vfatSupported w"
      and a2: "respond w (calls m) (VfatCheck (mDevPath m)) \<noteq> 0" by blast+
    have "checkFilesystem w v = (Some (- EIO), m\<lparr>calls := calls m @ [VfatCheck (mDevPath m)]\<rparr>)"
      unfolding cf using a1 a2 by (simp only: if_True simp_thms)
    then show "doMount w v = Some (- EIO, m\<lparr>calls := calls m @ [VfatCheck (mDevPath m)]\<rparr>)"
      by (rule doMount_check_fails)
  next
    assume a: "mFsType m = ''exfat'' \<and> exfatSupported w \<and> respond w (calls m) (ExfatCheck (mDevPath m)) \<noteq> 0"
    then have a1: "mFsType m = ''exfat'' \<and> exfatSupported w"
      and a2: "respond w (calls m) (ExfatCheck (mDevPath m)) \<noteq> 0" by blast+
    from a1 have "mFsType m \<noteq> ''vfat''" by simp
    then have a0: "\<not> (mFsType m = ''vfat'' \<and> vfatSupported w)" by blast
    have "checkFilesystem w v = (Some (- EIO), m\<lparr>calls := calls m @ [ExfatCheck (mDevPath m)]\<rparr>)"
      unfolding cf using a0 a1 a2 by (simp only: if_True if_False simp_thms)
    then show "doMount w v = Some (- EIO, m\<lparr>calls := calls m @ [ExfatCheck (mDevPath m)]\<rparr>)"
      by (rule doMount_check_fails)
  qed
qed

lemma doMount_raw_stage:
  assumes c: "checkFilesystem w v = (None, v1)"
    and vis: "vis = visibleForWrite v" and sn: "sn = stableName v1"
    and raw: "raw = ''/mnt/media_rw/'' @ sn"
    and gid: "gid = (if vis then AID_MEDIA_RW else AID_EXTERNAL_STORAGE)"
    and mnt: "mnt = (if mFsType v1 = ''vfat'' then VfatMount (mDevPath v1) raw gid
                     else ExfatMount (mDevPath v1) raw gid)"
  shows "(respond w (calls v1) (FsPrepareDir raw) \<noteq> 0 \<longrightarrow>
            doMount w v = Some (- errno w (calls v1 @ [FsPrepareDir raw]),
                                (mountPoints vis sn v1)\<lparr>calls := calls v1 @ [FsPrepareDir raw]\<rparr>))
       \<and> (respond w (calls v1) (FsPrepareDir raw) = 0 \<and>
          respond w (calls v1 @ [FsPrepareDir raw]) mnt \<noteq> 0 \<longrightarrow>
            doMount w v = Some (- EIO, (mountPoints vis sn v1)\<lparr>calls := calls v1 @ [FsPrepareDir raw, mnt]\<rparr>))"
proof -
  note r = mountRaw_eq [OF checkFilesystem_ok_fsType [OF c] raw gid mnt, of w]
  show ?thesis
  proof (intro conjI impI)
    assume "respond w (calls v1) (FsPrepareDir raw) \<noteq> 0"
    then have "mountRaw w (visibleForWrite v) (stableName v1) v1 =
        (Some (- errno w (calls v1 @ [FsPrepareDir raw])),
         (mountPoints vis sn v1)\<lparr>calls := calls v1 @ [FsPrepareDir raw]\<rparr>)"
      unfolding vis [symmetric] sn [symmetric] r by simp
    from doMount_raw_fails [OF c this]
    show "doMount w v = Some (- errno w (calls v1 @ [FsPrepareDir raw]),
                                (mountPoints vis sn v1)\<lparr>calls := calls v1 @ [FsPrepareDir raw]\<rparr>)" .
  next
    assume "respond w (calls v1) (FsPrepareDir raw) = 0 \<and>
          respond w (calls v1 @ [FsPrepareDir raw]) mnt \<noteq> 0"
    then have "mountRaw w (visibleForWrite v) (stableName v1) v1 =
        (Some (- EIO), (mountPoints vis sn v1)\<lparr>calls := calls v1 @ [FsPrepareDir raw, mnt]\<rparr>)"
      unfolding vis [symmetric] sn [symmetric] r by simp
    from doMount_raw_fails [OF c this]
    show "doMount w v = Some (- EIO, (mountPoints vis sn v1)\<lparr>calls := calls v1 @ [FsPrepareDir raw, mnt]\<rparr>)" .
  qed
qed

lemma doMount_overlay_stage:
  assumes c: "checkFilesystem w v = (None, v1)"
    and m: "mountRaw w (visibleForWrite v) (stableName v1) v1 = (None, v2)"
    and vis: "visibleForWrite v" and sd: "mUseSdcardFs v"
    and ps: "ps = [mSdcardFsDefault v2, mSdcardFsRead v2, mSdcardFsWrite v2, mSdcardFsFull v2]"
    and h: "h = calls v2 @ map FsPrepareDir ps"
    and g: "g = GetDevice (mSdcardFsFull v2)"
    and f: "f = ForkSdcardFs (flagPrimary v2) (mMountUserId v2) (mRawPath v2) (stableName v1)"
  shows "(i < 4 \<and> (\<forall>j<i. respond w (calls v2 @ map FsPrepareDir (take j ps)) (FsPrepareDir (ps ! j)) = 0) \<and>
          respond w (calls v2 @ map FsPrepareDir (take i ps)) (FsPrepareDir (ps ! i)) \<noteq> 0 \<longrightarrow>
            doMount w v = Some (- errno w (calls v2 @ map FsPrepareDir (take (Suc i) ps)),
                                v2\<lparr>calls := calls v2 @ map FsPrepareDir (take (Suc i) ps)\<rparr>))
       \<and> ((\<forall>j<4. respond w (calls v2 @ map FsPrepareDir (take j ps)) (FsPrepareDir (ps ! j)) = 0) \<and>
          respond w (h @ [g]) f = - 1 \<longrightarrow>
            doMount w v = Some (- errno w (h @ [g, f]), v2\<lparr>calls := h @ [g, f]\<rparr>))
       \<and> ((\<forall>j<4. respond w (calls v2 @ map FsPrepareDir (take j ps)) (FsPrepareDir (ps ! j)) = 0) \<and>
          respond w (h @ [g]) f \<notin> {0, - 1} \<and>
          (\<forall>j<n. respond w (h @ [g, f, SystemTime] @ concat (replicate j [g, Usleep 50000, SystemTime])) g
                      = respond w h g
             \<and> \<not> 5000 < nanoseconds_to_milliseconds
                  (respond w (h @ [g, f, SystemTime] @ concat (replicate j [g, Usleep 50000, SystemTime]) @
                     [g, Usleep 50000]) SystemTime - respond w (h @ [g, f]) SystemTime)) \<and>
          respond w (h @ [g, f, SystemTime] @ concat (replicate n [g, Usleep 50000, SystemTime])) g
                      = respond w h g \<and>
          5000 < nanoseconds_to_milliseconds
                  (respond w (h @ [g, f, SystemTime] @ concat (replicate n [g, Usleep 50000, SystemTime]) @
                     [g, Usleep 50000]) SystemTime - respond w (h @ [g, f]) SystemTime) \<longrightarrow>
            doMount w v = Some (- ETIMEDOUT,
               v2\<lparr>calls := h @ [g, f, SystemTime] @
                     concat (replicate (Suc n) [g, Usleep 50000, SystemTime])\<rparr>))"
proof -
  have "mUseSdcardFs v1 = mUseSdcardFs v"
    using checkFilesystem_fields(3) [of w v] c by simp
  moreover have "mUseSdcardFs v2 = mUseSdcardFs v1"
    using mountRaw_useSdcardFs [of w "visibleForWrite v" "stableName v1" v1] m by simp
  ultimately have sd2: "mUseSdcardFs v2" using sd by simp
  note ov = doMount_overlay_fails [OF c m vis sd2]
  show ?thesis
  proof (intro conjI impI)
    assume a: "i < 4 \<and> (\<forall>j<i. respond w (calls v2 @ map FsPrepareDir (take j ps)) (FsPrepareDir (ps ! j)) = 0) \<and>
          respond w (calls v2 @ map FsPrepareDir (take i ps)) (FsPrepareDir (ps ! i)) \<noteq> 0"
    then have a1: "i < 4"
      and a2: "\<forall>j<i. respond w (calls v2 @ map FsPrepareDir (take j ps)) (FsPrepareDir (ps ! j)) = 0"
      and a3: "respond w (calls v2 @ map FsPrepareDir (take i ps)) (FsPrepareDir (ps ! i)) \<noteq> 0"
      by blast+
    show "doMount w v = Some (- errno w (calls v2 @ map FsPrepareDir (take (Suc i) ps)),
                                v2\<lparr>calls := calls v2 @ map FsPrepareDir (take (Suc i) ps)\<rparr>)"
      by (rule ov) (rule spinUpSdcardFs_dir_fails [OF ps a1 a2 a3])
  next
    assume a: "(\<forall>j<4. respond w (calls v2 @ map FsPrepareDir (take j ps)) (FsPrepareDir (ps ! j)) = 0) \<and>
          respond w (h @ [g]) f = - 1"
    then have a1: "\<forall>j<4. respond w (calls v2 @ map FsPrepareDir (take j ps)) (FsPrepareDir (ps ! j)) = 0"
      and a2: "respond w (h @ [GetDevice (mSdcardFsFull v2)])
                (ForkSdcardFs (flagPrimary v2) (mMountUserId v2) (mRawPath v2) (stableName v1)) = - 1"
      unfolding g f by blast+
    show "doMount w v = Some (- errno w (h @ [g, f]), v2\<lparr>calls := h @ [g, f]\<rparr>)"
      unfolding g f by (rule ov) (rule spinUpSdcardFs_fork_fails [OF ps a1 h a2])
  next
    assume a: "(\<forall>j<4. respond w (calls v2 @ map FsPrepareDir (take j ps)) (FsPrepareDir (ps ! j)) = 0) \<and>
          respond w (h @ [g]) f \<notin> {0, - 1} \<and>
          (\<forall>j<n. respond w (h @ [g, f, SystemTime] @ concat (replicate j [g, Usleep 50000, SystemTime])) g
                      = respond w h g
             \<and> \<not> 5000 < nanoseconds_to_milliseconds
                  (respond w (h @ [g, f, SystemTime] @ concat (replicate j [g, Usleep 50000, SystemTime]) @
                     [g, Usleep 50000]) SystemTime - respond w (h @ [g, f]) SystemTime)) \<and>
          respond w (h @ [g, f, SystemTime] @ concat (replicate n [g, Usleep 50000, SystemTime])) g
                      = respond w h g \<and>
          5000 < nanoseconds_to_milliseconds
                  (respond w (h @ [g, f, SystemTime] @ concat (replicate n [g, Usleep 50000, SystemTime]) @
                     [g, Usleep 50000]) SystemTime - respond w (h @ [g, f]) SystemTime)"
    then have a1: "\<forall>j<4. respond w (calls v2 @ map FsPrepareDir (take j ps)) (FsPrepareDir (ps ! j)) = 0"
      and a2: "respond w (h @ [g]) f \<notin> {0, - 1}"
      and a3: "\<forall>j<n. respond w (h @ [g, f, SystemTime] @ concat (replicate j [g, Usleep 50000, SystemTime])) g
                      = respond w h g
             \<and> \<not> 5000 < nanoseconds_to_milliseconds
                  (respond w (h @ [g, f, SystemTime] @ concat (replicate j [g, Usleep 50000, SystemTime]) @
                     [g, Usleep 50000]) SystemTime - respond w (h @ [g, f]) SystemTime)"
      and a4: "respond w (h @ [g, f, SystemTime] @ concat (replicate n [g, Usleep 50000, SystemTime])) g
                      = respond w h g \<and>
          5000 < nanoseconds_to_milliseconds
                  (respond w (h @ [g, f, SystemTime] @ concat (replicate n [g, Usleep 50000, SystemTime]) @
                     [g, Usleep 50000]) SystemTime - respond w (h @ [g, f]) SystemTime)"
      by blast+
    show "doMount w v = Some (- ETIMEDOUT,
               v2\<lparr>calls := h @ [g, f, SystemTime] @
                     concat (replicate (Suc n) [g, Usleep 50000, SystemTime])\<rparr>)"
      by (rule ov) (rule spinUpSdcardFs_timeout_at [OF ps a1 h g f a2 a3 a4])
  qed
qed


subsection \<open>When sdcardfs never comes up\<close>

lemma prepareDirs_ok:
  assumes "\<And>h p. respond w h (FsPrepareDir p) = 0"
  shows "prepareDirs w ps v = (False, v\<lparr>calls := calls v @ map FsPrepareDir ps\<rparr>)"
  by (induction ps arbitrary: v) (simp_all add: ask_def assms)

lemma spinUpSdcardFs_never_up:
  assumes never: "\<forall>h. respond w h (GetDevice (mSdcardFsFull v)) = before"
    and clock: "\<forall>h. respond w h SystemTime = boot + 1000 * int (slept h)"
    and dirs: "prepareDirs w [mSdcardFsDefault v, mSdcardFsRead v, mSdcardFsWrite v, mSdcardFsFull v] v
                 = (False, v1)"
    and fork: "respond w (calls v1 @ [GetDevice (mSdcardFsFull v)])
                 (ForkSdcardFs (flagPrimary v) (mMountUserId v) (mRawPath v) sn) \<notin> {0, - 1}"
  shows "spinUpSdcardFs w sn v = Some (Some (- ETIMEDOUT),
      v1\<lparr>calls := calls v1 @
        [GetDevice (mSdcardFsFull v),
         ForkSdcardFs (flagPrimary v) (mMountUserId v) (mRawPath v) sn, SystemTime] @
        concat (replicate 101 [GetDevice (mSdcardFsFull v), Usleep 50000, SystemTime])\<rparr>)"
proof -
  let ?p = "mSdcardFsFull v"
  let ?fork = "ForkSdcardFs (flagPrimary v) (mMountUserId v) (mRawPath v) sn"
  let ?h3 = "calls v1 @ [GetDevice ?p, ?fork]"
  let ?v4 = "v1\<lparr>calls := ?h3 @ [SystemTime]\<rparr>"
  let ?start = "respond w ?h3 SystemTime"
  let ?loop = "concat (replicate 101 [GetDevice ?p, Usleep 50000, SystemTime])"
  have same: "v1 = v\<lparr>calls := calls v1\<rparr>"
    using prepareDirs_same [of w "[mSdcardFsDefault v, mSdcardFsRead v, mSdcardFsWrite v, mSdcardFsFull v]" v] dirs
    by simp
  have f: "mSdcardFsFull v1 = ?p" "flagPrimary v1 = flagPrimary v" "mMountUserId v1 = mMountUserId v"
    "mRawPath v1 = mRawPath v"
    by (subst same, simp)+
  have wait: "waitForSdcardFs w before ?start ?v4 =
      Some (Some (- ETIMEDOUT), ?v4\<lparr>calls := calls ?v4 @
         concat (replicate (101 - 0) [GetDevice ?p, Usleep 50000, SystemTime])\<rparr>)"
  proof (rule waitForSdcardFs_timeout_aux [where boot = boot and ?s0.0 = "slept ?h3"])
    show "\<And>h. respond w h (GetDevice ?p) = before" using never by simp
    show "\<And>h. respond w h SystemTime = boot + 1000 * int (slept h)" using clock by simp
    show "mSdcardFsFull ?v4 = ?p" using f by simp
    show "slept (calls ?v4) = slept ?h3 + 50000 * 0" by simp
    show "(0::nat) \<le> 100" by simp
    show "?start = boot + 1000 * int (slept ?h3)" using clock by simp
  qed
  show ?thesis
    unfolding spinUpSdcardFs_def dirs
    using fork never
    by (simp add: f ask_def fire_def wait [simplified] del: prepareDirs.simps replicate.simps)
qed

lemma slept_polls:
  "slept (concat (replicate n [GetDevice p, Usleep 50000, SystemTime])) = 50000 * n"
  by (induction n) simp_all

subsection \<open>doMount in the concrete worlds\<close>

lemma never_stuck: "\<forall>h. respond stuck h (GetDevice p) = 0"
  by (simp add: stuck_def calm_def)

lemma clock_stuck: "\<forall>h. respond stuck h SystemTime = 0 + 1000 * int (slept h)"
  by (simp add: stuck_def calm_def)

lemma dirs_stuck: "prepareDirs stuck ps v = (False, v\<lparr>calls := calls v @ map FsPrepareDir ps\<rparr>)"
  by (rule prepareDirs_ok) (simp add: stuck_def calm_def)

lemma fork_stuck: "respond stuck h (ForkSdcardFs a b c d) \<notin> {0, - 1}"
  by (simp add: stuck_def calm_def)

lemma mountBelowFuse_stuck:
  "mountBelowFuse stuck sdcardfsCard = Some (Inl (- ETIMEDOUT), timedOutCard)"
proof -
  define v2 where "v2 = sdcardfsCard\<lparr>mFsType := ''vfat'', mFsUuid := ''1234-ABCD'', mFsLabel := ''SDCARD'',
      mRawPath := ''/mnt/media_rw/1234-ABCD'',
      mSdcardFsDefault := ''/mnt/runtime/default/1234-ABCD'',
      mSdcardFsRead := ''/mnt/runtime/read/1234-ABCD'',
      mSdcardFsWrite := ''/mnt/runtime/write/1234-ABCD'',
      mSdcardFsFull := ''/mnt/runtime/full/1234-ABCD'',
      mPath := ''/storage/1234-ABCD'', mInternalPath := ''/mnt/media_rw/1234-ABCD'',
      calls := [ReadMetadataUntrusted ''/dev/block/vold/public:8,1'',
        VfatCheck ''/dev/block/vold/public:8,1'',
        FsPrepareDir ''/mnt/media_rw/1234-ABCD'',
        VfatMount ''/dev/block/vold/public:8,1'' ''/mnt/media_rw/1234-ABCD'' AID_MEDIA_RW]\<rparr>"
  have c: "checkFilesystem stuck sdcardfsCard =
      (None, sdcardfsCard\<lparr>mFsType := ''vfat'', mFsUuid := ''1234-ABCD'', mFsLabel := ''SDCARD'',
         calls := [ReadMetadataUntrusted ''/dev/block/vold/public:8,1'',
                   VfatCheck ''/dev/block/vold/public:8,1'']\<rparr>)"
    by (simp add: stuck_def calm_def sdcardfsCard_def card_def checkFilesystem_def readMetadata_def
        ask_def fire_def Let_def)
  have m: "mountRaw stuck True ''1234-ABCD''
      (sdcardfsCard\<lparr>mFsType := ''vfat'', mFsUuid := ''1234-ABCD'', mFsLabel := ''SDCARD'',
         calls := [ReadMetadataUntrusted ''/dev/block/vold/public:8,1'',
                   VfatCheck ''/dev/block/vold/public:8,1'']\<rparr>) = (None, v2)"
    by (simp add: v2_def stuck_def calm_def sdcardfsCard_def card_def mountRaw_def mountPoints_def
        mountDevice_def ask_def fire_def Let_def)
  have f: "mSdcardFsFull v2 = ''/mnt/runtime/full/1234-ABCD''"
    "mSdcardFsDefault v2 = ''/mnt/runtime/default/1234-ABCD''"
    "mSdcardFsRead v2 = ''/mnt/runtime/read/1234-ABCD''"
    "mSdcardFsWrite v2 = ''/mnt/runtime/write/1234-ABCD''"
    "mRawPath v2 = ''/mnt/media_rw/1234-ABCD''" "mUseSdcardFs v2" "flagPrimary v2 = False"
    "mMountUserId v2 = 0"
    "calls v2 = [ReadMetadataUntrusted ''/dev/block/vold/public:8,1'',
        VfatCheck ''/dev/block/vold/public:8,1'',
        FsPrepareDir ''/mnt/media_rw/1234-ABCD'',
        VfatMount ''/dev/block/vold/public:8,1'' ''/mnt/media_rw/1234-ABCD'' AID_MEDIA_RW]"
    by (simp_all add: v2_def sdcardfsCard_def card_def)
  have never: "\<forall>h. respond stuck h (GetDevice (mSdcardFsFull v2)) = 0" by (rule never_stuck)
  note s = spinUpSdcardFs_never_up [where sn = "''1234-ABCD''", OF never clock_stuck dirs_stuck fork_stuck]
  have vis: "visibleForWrite sdcardfsCard" by (simp add: sdcardfsCard_def card_def)
  have sn: "stableName (sdcardfsCard\<lparr>mFsType := ''vfat'', mFsUuid := ''1234-ABCD'', mFsLabel := ''SDCARD'',
         calls := [ReadMetadataUntrusted ''/dev/block/vold/public:8,1'',
                   VfatCheck ''/dev/block/vold/public:8,1'']\<rparr>) = ''1234-ABCD''"
    by (simp add: stableName_def)
  have "mountBelowFuse stuck sdcardfsCard = Some (Inl (- ETIMEDOUT),
      v2\<lparr>calls := calls v2 @ map FsPrepareDir [mSdcardFsDefault v2, mSdcardFsRead v2, mSdcardFsWrite v2, mSdcardFsFull v2] @
        [GetDevice (mSdcardFsFull v2),
         ForkSdcardFs (flagPrimary v2) (mMountUserId v2) (mRawPath v2) ''1234-ABCD'', SystemTime] @
        concat (replicate 101 [GetDevice (mSdcardFsFull v2), Usleep 50000, SystemTime])\<rparr>)"
    apply (simp only: mountBelowFuse_def Let_def c prod.case option.case sum.case
        sn m vis f(6) s not_True_eq_False if_True if_False)
    apply (simp del: replicate.simps)
    done
  also have "v2\<lparr>calls := calls v2 @ map FsPrepareDir [mSdcardFsDefault v2, mSdcardFsRead v2, mSdcardFsWrite v2, mSdcardFsFull v2] @
        [GetDevice (mSdcardFsFull v2),
         ForkSdcardFs (flagPrimary v2) (mMountUserId v2) (mRawPath v2) ''1234-ABCD'', SystemTime] @
        concat (replicate 101 [GetDevice (mSdcardFsFull v2), Usleep 50000, SystemTime])\<rparr> = timedOutCard"
    by (simp add: f timedOutCard_def del: replicate.simps) (simp add: v2_def)
  finally show ?thesis .
qed

lemma mountBelowFuse_card:
  assumes "metadata w = (\<lambda>h. (''vfat'', ''1234-ABCD'', ''SDCARD''))" "vfatSupported w"
    and "\<And>h p. respond w h (VfatCheck p) = 0" "\<And>h p. respond w h (FsPrepareDir p) = 0"
    and "\<And>h p q g. respond w h (VfatMount p q g) = 0"
  shows "mountBelowFuse w (card\<lparr>hasMountCallback := cb\<rparr>) =
           Some (Inr ''1234-ABCD'', atFuseCard\<lparr>hasMountCallback := cb\<rparr>)"
  by (simp add: assms card_def atFuseCard_def mountBelowFuse_def checkFilesystem_def readMetadata_def
  mountRaw_def mountPoints_def mountDevice_def stableName_def ask_def fire_def Let_def)

lemma mountFuse_card:
  assumes "\<And>h u p n. respond w h (MountUserFuse u p n) = 0"
  shows "mountFuse w ''1234-ABCD'' atFuseCard = (None, fuseMountedCard)"
  by (simp add: assms mountFuse_def ask_def fire_def Let_def atFuseCard_def card_def fuseMountedCard_def)

lemma card_no_callback: "card\<lparr>hasMountCallback := False\<rparr> = card" "atFuseCard\<lparr>hasMountCallback := False\<rparr> = atFuseCard"
  by (simp_all add: card_def atFuseCard_def)


lemma failAt_simps:
  "respond (failAt c0 e) h c = (if c = c0 then - 1 else 0)"
  "errno (failAt c0 e) h = e"
  "metadata (failAt c0 e) = (\<lambda>h. (''vfat'', ''1234-ABCD'', ''SDCARD''))"
  "vfatSupported (failAt c0 e)"
  by (simp_all add: failAt_def calm_def)

lemma card_flags:
  "card\<lparr>mUseSdcardFs := False\<rparr> = card" "card\<lparr>mUseSdcardFs := True\<rparr> = sdcardfsCard"
  "atFuseCard\<lparr>mUseSdcardFs := False\<rparr> = atFuseCard"
  "visibleForWrite card" "visibleForWrite sdcardfsCard" "mUseSdcardFs sdcardfsCard"
  by (simp_all add: card_def sdcardfsCard_def atFuseCard_def)

lemma checkFilesystem_card:
  assumes "metadata w = (\<lambda>h. (''vfat'', ''1234-ABCD'', ''SDCARD''))" "vfatSupported w"
    and "\<And>h p. respond w h (VfatCheck p) = 0"
  shows "checkFilesystem w (card\<lparr>mUseSdcardFs := s\<rparr>) = (None, checkedCard s)"
  by (simp add: assms card_def checkedCard_def checkFilesystem_def readMetadata_def ask_def fire_def Let_def)

lemma checkedCard_fields:
  "stableName (checkedCard s) = ''1234-ABCD''" "mFsType (checkedCard s) = ''vfat''"
  "mDevPath (checkedCard s) = ''/dev/block/vold/public:8,1''"
  "calls (checkedCard s) = [ReadMetadataUntrusted ''/dev/block/vold/public:8,1'',
                VfatCheck ''/dev/block/vold/public:8,1'']"
  by (simp_all add: checkedCard_def card_def stableName_def)

lemma atFuseCard_fields:
  "calls atFuseCard = [ReadMetadataUntrusted ''/dev/block/vold/public:8,1'',
        VfatCheck ''/dev/block/vold/public:8,1'',
        FsPrepareDir ''/mnt/media_rw/1234-ABCD'',
        VfatMount ''/dev/block/vold/public:8,1'' ''/mnt/media_rw/1234-ABCD'' AID_MEDIA_RW]"
  "mSdcardFsDefault atFuseCard = ''/mnt/runtime/default/1234-ABCD''"
  "mSdcardFsRead atFuseCard = ''/mnt/runtime/read/1234-ABCD''"
  "mSdcardFsWrite atFuseCard = ''/mnt/runtime/write/1234-ABCD''"
  "mSdcardFsFull atFuseCard = ''/mnt/runtime/full/1234-ABCD''"
  "mRawPath atFuseCard = ''/mnt/media_rw/1234-ABCD''"
  "flagPrimary atFuseCard = False" "mMountUserId atFuseCard = 0"
  by (simp_all add: atFuseCard_def card_def)

lemma mountPoints_checkedCard:
  "(mountPoints True ''1234-ABCD'' (checkedCard s))\<lparr>calls := calls atFuseCard\<rparr> = atFuseCard\<lparr>mUseSdcardFs := s\<rparr>"
  by (simp add: mountPoints_def checkedCard_def atFuseCard_def card_def)

lemma mountPoints_checkedCard_calls:
  "(mountPoints True ''1234-ABCD'' (checkedCard s))\<lparr>calls :=
       [ReadMetadataUntrusted ''/dev/block/vold/public:8,1'',
        VfatCheck ''/dev/block/vold/public:8,1'',
        FsPrepareDir ''/mnt/media_rw/1234-ABCD'',
        VfatMount ''/dev/block/vold/public:8,1'' ''/mnt/media_rw/1234-ABCD'' AID_MEDIA_RW]\<rparr>
     = atFuseCard\<lparr>mUseSdcardFs := s\<rparr>"
  using mountPoints_checkedCard [of s] by (simp only: atFuseCard_fields)

lemma mountRaw_card:
  assumes "respond w (calls (checkedCard s)) (FsPrepareDir ''/mnt/media_rw/1234-ABCD'') = 0"
    and "respond w (calls (checkedCard s) @ [FsPrepareDir ''/mnt/media_rw/1234-ABCD''])
           (VfatMount ''/dev/block/vold/public:8,1'' ''/mnt/media_rw/1234-ABCD'' AID_MEDIA_RW) = 0"
  shows "mountRaw w True ''1234-ABCD'' (checkedCard s) = (None, atFuseCard\<lparr>mUseSdcardFs := s\<rparr>)"
proof -
  have fs: "mFsType (checkedCard s) = ''vfat'' \<or> mFsType (checkedCard s) = ''exfat''"
    by (simp add: checkedCard_fields)
  have np: "\<not> flagPrimary (checkedCard s)" by (simp add: checkedCard_def card_def)
  have raw: "''/mnt/media_rw/1234-ABCD'' = ''/mnt/media_rw/'' @ ''1234-ABCD''" by simp
  have c4: "[ReadMetadataUntrusted ''/dev/block/vold/public:8,1'',
                VfatCheck ''/dev/block/vold/public:8,1''] @ [FsPrepareDir ''/mnt/media_rw/1234-ABCD'',
       VfatMount ''/dev/block/vold/public:8,1'' ''/mnt/media_rw/1234-ABCD'' AID_MEDIA_RW] = calls atFuseCard"
    by (simp add: checkedCard_fields atFuseCard_fields)
  show ?thesis
    unfolding mountRaw_eq [OF fs raw refl refl]
    using assms np
    by (simp only: checkedCard_fields if_True if_False simp_thms c4 mountPoints_checkedCard)
qed

lemma slow_within:
  assumes "j < 100"
  shows "\<not> 5000 < nanoseconds_to_milliseconds (1000 * int (50003 * j + 50009) - 6000)"
  using assms by (simp add: nanoseconds_to_milliseconds_def)

lemma slow_spin_up:
  "spinUpSdcardFs slow ''1234-ABCD'' rawMountedCard =
     Some (Some (- ETIMEDOUT), rawMountedCard\<lparr>calls :=
       [FsPrepareDir ''/mnt/runtime/default/1234-ABCD'',
        FsPrepareDir ''/mnt/runtime/read/1234-ABCD'',
        FsPrepareDir ''/mnt/runtime/write/1234-ABCD'',
        FsPrepareDir ''/mnt/runtime/full/1234-ABCD'',
        GetDevice ''/mnt/runtime/full/1234-ABCD'',
        ForkSdcardFs False 0 ''/mnt/media_rw/1234-ABCD'' ''1234-ABCD'',
        SystemTime] @
       concat (replicate 101 [GetDevice ''/mnt/runtime/full/1234-ABCD'', Usleep 50000, SystemTime])\<rparr>)"
proof -
  define ps where "ps = [mSdcardFsDefault rawMountedCard, mSdcardFsRead rawMountedCard,
      mSdcardFsWrite rawMountedCard, mSdcardFsFull rawMountedCard]"
  define h where "h = calls rawMountedCard @ map FsPrepareDir ps"
  define g where "g = GetDevice (mSdcardFsFull rawMountedCard)"
  define f where "f = ForkSdcardFs (flagPrimary rawMountedCard) (mMountUserId rawMountedCard)
      (mRawPath rawMountedCard) ''1234-ABCD''"
  have r: "respond slow x (FsPrepareDir p) = 0" "respond slow x (GetDevice p) = 0"
    "respond slow x (ForkSdcardFs a b c d) = 4711"
    "respond slow x SystemTime = 1000 * int (slept x + length x)" for x p a b c d
    by (simp_all add: slow_def calm_def)
  have lh: "length h = 4" "slept h = 0"
    by (simp_all add: h_def ps_def rawMountedCard_def mountedCard_def card_def)
  have sg: "slept [g] = 0" "slept [f] = 0" by (simp_all add: g_def f_def)
  have run: "spinUpSdcardFs slow ''1234-ABCD'' rawMountedCard =
     Some (Some (- ETIMEDOUT),
           rawMountedCard\<lparr>calls := h @ [g, f, SystemTime] @ concat (replicate (Suc 100) [g, Usleep 50000, SystemTime])\<rparr>)"
  proof (rule spinUpSdcardFs_timeout_at [OF ps_def _ h_def g_def f_def])
    show "\<forall>j<4. respond slow (calls rawMountedCard @ map FsPrepareDir (take j ps)) (FsPrepareDir (ps ! j)) = 0"
      by (simp add: r)
    show "respond slow (h @ [g]) f \<notin> {0, - 1}" by (simp add: f_def r)
    show "\<forall>j<100. respond slow (h @ [g, f, SystemTime] @ concat (replicate j [g, Usleep 50000, SystemTime])) g
                      = respond slow h g
        \<and> \<not> 5000 < nanoseconds_to_milliseconds
              (respond slow (h @ [g, f, SystemTime] @ concat (replicate j [g, Usleep 50000, SystemTime]) @
                 [g, Usleep 50000]) SystemTime - respond slow (h @ [g, f]) SystemTime)"
    proof (intro allI impI conjI)
      fix j :: nat assume j: "j < 100"
      show "respond slow (h @ [g, f, SystemTime] @ concat (replicate j [g, Usleep 50000, SystemTime])) g
                      = respond slow h g"
        by (simp add: g_def r)
      have "respond slow (h @ [g, f, SystemTime] @ concat (replicate j [g, Usleep 50000, SystemTime]) @
                 [g, Usleep 50000]) SystemTime - respond slow (h @ [g, f]) SystemTime
            = 1000 * int (50003 * j + 50009) - 6000"
        using sg by (simp add: r lh slept_polls_gen length_polls del: replicate.simps)
      then show "\<not> 5000 < nanoseconds_to_milliseconds
              (respond slow (h @ [g, f, SystemTime] @ concat (replicate j [g, Usleep 50000, SystemTime]) @
                 [g, Usleep 50000]) SystemTime - respond slow (h @ [g, f]) SystemTime)"
        using slow_within [OF j] by (simp only: simp_thms)
    qed
    have "respond slow (h @ [g, f, SystemTime] @ concat (replicate 100 [g, Usleep 50000, SystemTime]) @
                 [g, Usleep 50000]) SystemTime - respond slow (h @ [g, f]) SystemTime
            = 5050303000"
      using sg by (simp add: r lh slept_polls_gen length_polls del: replicate.simps)
    then show "respond slow (h @ [g, f, SystemTime] @ concat (replicate 100 [g, Usleep 50000, SystemTime])) g
                      = respond slow h g
        \<and> 5000 < nanoseconds_to_milliseconds
              (respond slow (h @ [g, f, SystemTime] @ concat (replicate 100 [g, Usleep 50000, SystemTime]) @
                 [g, Usleep 50000]) SystemTime - respond slow (h @ [g, f]) SystemTime)"
      by (simp add: g_def r nanoseconds_to_milliseconds_def del: replicate.simps)
  qed
  show ?thesis
    unfolding run
    by (simp add: h_def ps_def g_def f_def ETIMEDOUT_def rawMountedCard_def mountedCard_def card_def
        del: replicate.simps)
qed

subsection \<open>The claims about doMount\<close>

text \<open>
  C2, as the code has it. Only the two failures of the FUSE stage roll back: when doMount
  has come as far as the FUSE mount and \<open>MountUserFuse\<close> fails with \<open>result\<close>, doMount
  calls doUnmount and returns \<open>-result\<close>; when the mount callback reports the volume not
  ready, doMount calls doUnmount and returns \<open>-EIO\<close>. In both cases every call made
  after the failure is a teardown call of doUnmount, so the tuning and the bind mounts
  never run. A failure of an earlier stage ends doMount at the failing call, with that
  stage's status and nothing unmounted: the history of the volume returned ends with
  the call that failed. The status is \<open>-EIO\<close> when the filesystem is not supported (the
  last call is the one that read the metadata) or its check fails; \<open>-errno\<close> when the raw
  mount point cannot be prepared; \<open>-EIO\<close> when the mount of the device fails; \<open>-errno\<close>
  when one of the four directories of sdcardfs cannot be prepared (the later ones are
  not tried) or \<open>fork\<close> answers -1; \<open>-ETIMEDOUT\<close> at the first poll after which the clock
  reads more than 5000 ms past the start reading. Whenever a stage below the FUSE mount
  ends doMount, no teardown call was made. doUnmount itself, on any volume, first kills
  the processes using the path and then makes teardown calls only: among them the forced
  unmount and the removal of the raw path when the bridge is not mounted (the raw path
  is then cleared), and \<open>UnmountUserFuse\<close> when it is.
\<close>

theorem doMount_failure_rollback:
  "(let m = snd (readMetadata w v) in
      (\<not> (mFsType m = ''vfat'' \<and> vfatSupported w) \<and> \<not> (mFsType m = ''exfat'' \<and> exfatSupported w) \<longrightarrow>
         doMount w v = Some (- EIO, m))
    \<and> (mFsType m = ''vfat'' \<and> vfatSupported w \<and> respond w (calls m) (VfatCheck (mDevPath m)) \<noteq> 0 \<longrightarrow>
         doMount w v = Some (- EIO, m\<lparr>calls := calls m @ [VfatCheck (mDevPath m)]\<rparr>))
    \<and> (mFsType m = ''exfat'' \<and> exfatSupported w \<and> respond w (calls m) (ExfatCheck (mDevPath m)) \<noteq> 0 \<longrightarrow>
         doMount w v = Some (- EIO, m\<lparr>calls := calls m @ [ExfatCheck (mDevPath m)]\<rparr>)))
   \<and> (checkFilesystem w v = (None, v1) \<longrightarrow>
       (let vis = visibleForWrite v; sn = stableName v1; raw = ''/mnt/media_rw/'' @ sn;
            gid = (if vis then AID_MEDIA_RW else AID_EXTERNAL_STORAGE);
            mnt = (if mFsType v1 = ''vfat'' then VfatMount (mDevPath v1) raw gid
                   else ExfatMount (mDevPath v1) raw gid)
        in (respond w (calls v1) (FsPrepareDir raw) \<noteq> 0 \<longrightarrow>
              doMount w v = Some (- errno w (calls v1 @ [FsPrepareDir raw]),
                                  (mountPoints vis sn v1)\<lparr>calls := calls v1 @ [FsPrepareDir raw]\<rparr>))
         \<and> (respond w (calls v1) (FsPrepareDir raw) = 0 \<and>
            respond w (calls v1 @ [FsPrepareDir raw]) mnt \<noteq> 0 \<longrightarrow>
              doMount w v = Some (- EIO, (mountPoints vis sn v1)\<lparr>calls := calls v1 @ [FsPrepareDir raw, mnt]\<rparr>))))
   \<and> (checkFilesystem w v = (None, v1) \<and>
      mountRaw w (visibleForWrite v) (stableName v1) v1 = (None, v2) \<and>
      visibleForWrite v \<and> mUseSdcardFs v \<longrightarrow>
       (let ps = [mSdcardFsDefault v2, mSdcardFsRead v2, mSdcardFsWrite v2, mSdcardFsFull v2];
            h = calls v2 @ map FsPrepareDir ps;
            g = GetDevice (mSdcardFsFull v2);
            f = ForkSdcardFs (flagPrimary v2) (mMountUserId v2) (mRawPath v2) (stableName v1)
        in (i < 4 \<and> (\<forall>j<i. respond w (calls v2 @ map FsPrepareDir (take j ps)) (FsPrepareDir (ps ! j)) = 0) \<and>
            respond w (calls v2 @ map FsPrepareDir (take i ps)) (FsPrepareDir (ps ! i)) \<noteq> 0 \<longrightarrow>
              doMount w v = Some (- errno w (calls v2 @ map FsPrepareDir (take (Suc i) ps)),
                                  v2\<lparr>calls := calls v2 @ map FsPrepareDir (take (Suc i) ps)\<rparr>))
         \<and> ((\<forall>j<4. respond w (calls v2 @ map FsPrepareDir (take j ps)) (FsPrepareDir (ps ! j)) = 0) \<and>
            respond w (h @ [g]) f = - 1 \<longrightarrow>
              doMount w v = Some (- errno w (h @ [g, f]), v2\<lparr>calls := h @ [g, f]\<rparr>))
         \<and> ((\<forall>j<4. respond w (calls v2 @ map FsPrepareDir (take j ps)) (FsPrepareDir (ps ! j)) = 0) \<and>
            respond w (h @ [g]) f \<notin> {0, - 1} \<and>
            (\<forall>j<n. respond w (h @ [g, f, SystemTime] @ concat (replicate j [g, Usleep 50000, SystemTime])) g
                        = respond w h g
               \<and> \<not> 5000 < nanoseconds_to_milliseconds
                    (respond w (h @ [g, f, SystemTime] @ concat (replicate j [g, Usleep 50000, SystemTime]) @
                       [g, Usleep 50000]) SystemTime - respond w (h @ [g, f]) SystemTime)) \<and>
            respond w (h @ [g, f, SystemTime] @ concat (replicate n [g, Usleep 50000, SystemTime])) g
                        = respond w h g \<and>
            5000 < nanoseconds_to_milliseconds
                    (respond w (h @ [g, f, SystemTime] @ concat (replicate n [g, Usleep 50000, SystemTime]) @
                       [g, Usleep 50000]) SystemTime - respond w (h @ [g, f]) SystemTime) \<longrightarrow>
              doMount w v = Some (- ETIMEDOUT,
                 v2\<lparr>calls := h @ [g, f, SystemTime] @
                       concat (replicate (Suc n) [g, Usleep 50000, SystemTime])\<rparr>))))
   \<and> (mountBelowFuse w v = Some (Inr sn, v3) \<and>
      respond w (calls v3) (MountUserFuse (mMountUserId v3) (mInternalPath v3) sn) \<noteq> 0 \<longrightarrow>
      doMount w v =
        Some (- respond w (calls v3) (MountUserFuse (mMountUserId v3) (mInternalPath v3) sn),
              snd (doUnmount w (fire (MountUserFuse (mMountUserId v3) (mInternalPath v3) sn) v3)))
      \<and> extends isTeardown (fire (MountUserFuse (mMountUserId v3) (mInternalPath v3) sn) v3)
           (snd (doUnmount w (fire (MountUserFuse (mMountUserId v3) (mInternalPath v3) sn) v3))))
   \<and> (mountBelowFuse w v = Some (Inr sn, v3) \<and>
      respond w (calls v3) (MountUserFuse (mMountUserId v3) (mInternalPath v3) sn) = 0 \<and>
      hasMountCallback v3 \<and>
      respond w (calls v3 @ [MountUserFuse (mMountUserId v3) (mInternalPath v3) sn])
        (OnVolumeChecking (mPath v3) (mInternalPath v3)) = 0 \<longrightarrow>
      doMount w v =
        Some (- EIO,
              snd (doUnmount w (v3\<lparr>mFuseMounted := True,
                 calls := calls v3 @ [MountUserFuse (mMountUserId v3) (mInternalPath v3) sn,
                                      OnVolumeChecking (mPath v3) (mInternalPath v3)]\<rparr>)))
      \<and> extends isTeardown
           (v3\<lparr>mFuseMounted := True,
                 calls := calls v3 @ [MountUserFuse (mMountUserId v3) (mInternalPath v3) sn,
                                      OnVolumeChecking (mPath v3) (mInternalPath v3)]\<rparr>)
           (snd (doUnmount w (v3\<lparr>mFuseMounted := True,
                 calls := calls v3 @ [MountUserFuse (mMountUserId v3) (mInternalPath v3) sn,
                                      OnVolumeChecking (mPath v3) (mInternalPath v3)]\<rparr>))))
   \<and> (mountBelowFuse w v = Some (Inl e, v3) \<longrightarrow>
      doMount w v = Some (e, v3) \<and> extends (\<lambda>c. \<not> isTeardown c) v v3)
   \<and> (\<exists>t. calls (snd (doUnmount w u)) = calls u @ [KillProcessesUsingPath (mPath u)] @ t
         \<and> list_all isTeardown t
         \<and> (\<not> mFuseMounted u \<longrightarrow>
              ForceUnmount (mRawPath u) \<in> set t \<and> Rmdir (mRawPath u) \<in> set t
              \<and> mRawPath (snd (doUnmount w u)) = [])
         \<and> (mFuseMounted u \<longrightarrow>
              UnmountUserFuse (mMountUserId u) (mInternalPath u) (stableName u) \<in> set t))"
  apply (intro conjI)
  subgoal
    unfolding Let_def by (rule doMount_check_stage [OF refl])
  subgoal
    unfolding Let_def by (intro impI) (rule doMount_raw_stage [OF _ refl refl refl refl refl], assumption)
  subgoal
    unfolding Let_def
    by (intro impI, elim conjE) (rule doMount_overlay_stage [OF _ _ _ _ refl refl refl refl], assumption+)
  subgoal
    by (intro impI conjI) (simp add: doMount_def mountFuse_def ask_def fire_def, rule doUnmount_extends, simp_all)
  subgoal
    by (intro impI conjI) (simp add: doMount_def mountFuse_def ask_def fire_def Let_def, rule doUnmount_extends, simp_all)
  subgoal
    by (intro impI conjI)
       (simp add: doMount_def,
        drule mountBelowFuse_extends [where P = "\<lambda>c. \<not> isTeardown c", rotated - 1], simp_all)
  subgoal
    by (rule doUnmount_attempts)
  done

theorem doMount_failure_rollback_witness:
  "doMount (failAt (VfatCheck ''/dev/block/vold/public:8,1'') 5) card =
     Some (- 5, card\<lparr>mFsType := ''vfat'', mFsUuid := ''1234-ABCD'', mFsLabel := ''SDCARD'',
                    calls := [ReadMetadataUntrusted ''/dev/block/vold/public:8,1'',
                              VfatCheck ''/dev/block/vold/public:8,1'']\<rparr>) \<and>
   doMount (failAt (VfatMount ''/dev/block/vold/public:8,1'' ''/mnt/media_rw/1234-ABCD'' AID_MEDIA_RW) 5) card =
     Some (- 5, atFuseCard) \<and>
   doMount (failAt (FsPrepareDir ''/mnt/runtime/read/1234-ABCD'') 13) sdcardfsCard =
     Some (- 13, atFuseCard\<lparr>mUseSdcardFs := True, calls := calls atFuseCard @
        [FsPrepareDir ''/mnt/runtime/default/1234-ABCD'',
         FsPrepareDir ''/mnt/runtime/read/1234-ABCD'']\<rparr>) \<and>
   doMount (failAt (ForkSdcardFs False 0 ''/mnt/media_rw/1234-ABCD'' ''1234-ABCD'') 11) sdcardfsCard =
     Some (- 11, atFuseCard\<lparr>mUseSdcardFs := True, calls := calls atFuseCard @
        [FsPrepareDir ''/mnt/runtime/default/1234-ABCD'',
         FsPrepareDir ''/mnt/runtime/read/1234-ABCD'',
         FsPrepareDir ''/mnt/runtime/write/1234-ABCD'',
         FsPrepareDir ''/mnt/runtime/full/1234-ABCD'',
         GetDevice ''/mnt/runtime/full/1234-ABCD'',
         ForkSdcardFs False 0 ''/mnt/media_rw/1234-ABCD'' ''1234-ABCD'']\<rparr>) \<and>
   doMount stuck sdcardfsCard = Some (- 110, timedOutCard) \<and>
   extends (\<lambda>c. \<not> isTeardown c) sdcardfsCard timedOutCard \<and>
   doMount noFuse card \<noteq> None \<and>
   fst (the (doMount noFuse card)) = 1 \<and>
   calls (snd (the (doMount noFuse card))) =
     [ReadMetadataUntrusted ''/dev/block/vold/public:8,1'',
      VfatCheck ''/dev/block/vold/public:8,1'',
      FsPrepareDir ''/mnt/media_rw/1234-ABCD'',
      VfatMount ''/dev/block/vold/public:8,1'' ''/mnt/media_rw/1234-ABCD'' AID_MEDIA_RW,
      MountUserFuse 0 ''/mnt/media_rw/1234-ABCD'' ''1234-ABCD'',
      KillProcessesUsingPath ''/storage/1234-ABCD'',
      ForceUnmount ''/mnt/secure/asec'',
      ForceUnmount ''/mnt/media_rw/1234-ABCD'',
      Rmdir ''/mnt/media_rw/1234-ABCD''] \<and>
   mRawPath (snd (the (doMount noFuse card))) = [] \<and>
   fst (the (doMount calm (card\<lparr>hasMountCallback := True\<rparr>))) = - 5 \<and>
   calls (snd (the (doMount calm (card\<lparr>hasMountCallback := True\<rparr>)))) =
     [ReadMetadataUntrusted ''/dev/block/vold/public:8,1'',
      VfatCheck ''/dev/block/vold/public:8,1'',
      FsPrepareDir ''/mnt/media_rw/1234-ABCD'',
      VfatMount ''/dev/block/vold/public:8,1'' ''/mnt/media_rw/1234-ABCD'' AID_MEDIA_RW,
      MountUserFuse 0 ''/mnt/media_rw/1234-ABCD'' ''1234-ABCD'',
      OnVolumeChecking ''/storage/1234-ABCD'' ''/mnt/media_rw/1234-ABCD'',
      KillProcessesUsingPath ''/storage/1234-ABCD'',
      ForceUnmount ''/mnt/user/10/1234-ABCD'', Rmdir ''/mnt/user/10/1234-ABCD'',
      ForceUnmount ''/mnt/user/11/1234-ABCD'', Rmdir ''/mnt/user/11/1234-ABCD'',
      ForceUnmount ''/mnt/user/12/1234-ABCD'', Rmdir ''/mnt/user/12/1234-ABCD'',
      UnmountUserFuse 0 ''/mnt/media_rw/1234-ABCD'' ''1234-ABCD'',
      ForceUnmount ''/mnt/secure/asec'',
      ForceUnmount ''/mnt/media_rw/1234-ABCD'',
      Rmdir ''/mnt/media_rw/1234-ABCD'']"
proof -
  have check: "doMount (failAt (VfatCheck ''/dev/block/vold/public:8,1'') 5) card =
     Some (- 5, card\<lparr>mFsType := ''vfat'', mFsUuid := ''1234-ABCD'', mFsLabel := ''SDCARD'',
                    calls := [ReadMetadataUntrusted ''/dev/block/vold/public:8,1'',
                              VfatCheck ''/dev/block/vold/public:8,1'']\<rparr>)"
  proof -
    let ?W = "failAt (VfatCheck ''/dev/block/vold/public:8,1'') 5"
    have rm: "snd (readMetadata ?W card) =
        card\<lparr>mFsType := ''vfat'', mFsUuid := ''1234-ABCD'', mFsLabel := ''SDCARD'',
             calls := [ReadMetadataUntrusted ''/dev/block/vold/public:8,1'']\<rparr>"
      by (simp add: readMetadata_eq failAt_simps card_def Let_def)
    have dev: "mDevPath card = ''/dev/block/vold/public:8,1''" by (simp add: card_def)
    note t = doMount_failure_rollback [where w = ?W and v = card, THEN conjunct1, unfolded Let_def rm,
        THEN conjunct2, THEN conjunct1]
    from t show ?thesis
      by (simp add: failAt_simps dev EIO_def)
  qed
  have mount: "doMount (failAt (VfatMount ''/dev/block/vold/public:8,1'' ''/mnt/media_rw/1234-ABCD'' AID_MEDIA_RW) 5)
       card = Some (- 5, atFuseCard)"
  proof -
    let ?W = "failAt (VfatMount ''/dev/block/vold/public:8,1'' ''/mnt/media_rw/1234-ABCD'' AID_MEDIA_RW) 5"
    have c: "checkFilesystem ?W card = (None, checkedCard False)"
      using checkFilesystem_card [of ?W False] by (simp add: failAt_simps card_flags)
    note t = doMount_failure_rollback [where w = ?W and v = card and ?v1.0 = "checkedCard False",
        THEN conjunct2, THEN conjunct1, THEN mp, OF c, unfolded Let_def, THEN conjunct2]
    from t show ?thesis
      by (simp add: failAt_simps checkedCard_fields card_flags EIO_def mountPoints_checkedCard_calls)
  qed
  have dir: "doMount (failAt (FsPrepareDir ''/mnt/runtime/read/1234-ABCD'') 13) sdcardfsCard =
     Some (- 13, atFuseCard\<lparr>mUseSdcardFs := True, calls := calls atFuseCard @
        [FsPrepareDir ''/mnt/runtime/default/1234-ABCD'',
         FsPrepareDir ''/mnt/runtime/read/1234-ABCD'']\<rparr>)"
  proof -
    let ?W = "failAt (FsPrepareDir ''/mnt/runtime/read/1234-ABCD'') 13"
    have c: "checkFilesystem ?W sdcardfsCard = (None, checkedCard True)"
      using checkFilesystem_card [of ?W True] by (simp add: failAt_simps card_flags)
    have m: "mountRaw ?W (visibleForWrite sdcardfsCard) (stableName (checkedCard True)) (checkedCard True)
        = (None, atFuseCard\<lparr>mUseSdcardFs := True\<rparr>)"
      unfolding checkedCard_fields using card_flags(5)
      by (simp only: simp_thms) (rule mountRaw_card, simp_all add: failAt_simps)
    note t = doMount_failure_rollback [where w = ?W and v = sdcardfsCard and ?v1.0 = "checkedCard True"
        and ?v2.0 = "atFuseCard\<lparr>mUseSdcardFs := True\<rparr>" and i = 1,
        THEN conjunct2, THEN conjunct2, THEN conjunct1, THEN mp,
        OF conjI [OF c conjI [OF m conjI [OF card_flags(5) card_flags(6)]]], unfolded Let_def, THEN conjunct1]
    from t show ?thesis
      by (simp add: failAt_simps atFuseCard_fields)
  qed
  have fork: "doMount (failAt (ForkSdcardFs False 0 ''/mnt/media_rw/1234-ABCD'' ''1234-ABCD'') 11) sdcardfsCard =
     Some (- 11, atFuseCard\<lparr>mUseSdcardFs := True, calls := calls atFuseCard @
        [FsPrepareDir ''/mnt/runtime/default/1234-ABCD'',
         FsPrepareDir ''/mnt/runtime/read/1234-ABCD'',
         FsPrepareDir ''/mnt/runtime/write/1234-ABCD'',
         FsPrepareDir ''/mnt/runtime/full/1234-ABCD'',
         GetDevice ''/mnt/runtime/full/1234-ABCD'',
         ForkSdcardFs False 0 ''/mnt/media_rw/1234-ABCD'' ''1234-ABCD'']\<rparr>)"
  proof -
    let ?W = "failAt (ForkSdcardFs False 0 ''/mnt/media_rw/1234-ABCD'' ''1234-ABCD'') 11"
    have c: "checkFilesystem ?W sdcardfsCard = (None, checkedCard True)"
      using checkFilesystem_card [of ?W True] by (simp add: failAt_simps card_flags)
    have m: "mountRaw ?W (visibleForWrite sdcardfsCard) (stableName (checkedCard True)) (checkedCard True)
        = (None, atFuseCard\<lparr>mUseSdcardFs := True\<rparr>)"
      unfolding checkedCard_fields using card_flags(5)
      by (simp only: simp_thms) (rule mountRaw_card, simp_all add: failAt_simps)
    note t = doMount_failure_rollback [where w = ?W and v = sdcardfsCard and ?v1.0 = "checkedCard True"
        and ?v2.0 = "atFuseCard\<lparr>mUseSdcardFs := True\<rparr>",
        THEN conjunct2, THEN conjunct2, THEN conjunct1, THEN mp,
        OF conjI [OF c conjI [OF m conjI [OF card_flags(5) card_flags(6)]]], unfolded Let_def,
        THEN conjunct2, THEN conjunct1]
    from t show ?thesis
      by (simp add: failAt_simps atFuseCard_fields checkedCard_fields)
  qed
  have timeout: "doMount stuck sdcardfsCard = Some (- 110, timedOutCard)"
  proof -
    let ?v2 = "atFuseCard\<lparr>mUseSdcardFs := True\<rparr>"
    let ?ps = "[mSdcardFsDefault ?v2, mSdcardFsRead ?v2, mSdcardFsWrite ?v2, mSdcardFsFull ?v2]"
    let ?h = "calls ?v2 @ map FsPrepareDir ?ps"
    let ?g = "GetDevice (mSdcardFsFull ?v2)"
    let ?f = "ForkSdcardFs (flagPrimary ?v2) (mMountUserId ?v2) (mRawPath ?v2) (stableName (checkedCard True))"
    have r: "respond stuck x (FsPrepareDir p) = 0" "respond stuck x (GetDevice p) = 0"
      "respond stuck x (VfatMount p q gid) = 0"
      "respond stuck x (ForkSdcardFs a b c d) = 4711"
      "respond stuck x SystemTime = 1000 * int (slept x)" for x p q gid a b c d
      by (simp_all add: stuck_def calm_def)
    have c: "checkFilesystem stuck sdcardfsCard = (None, checkedCard True)"
      using checkFilesystem_card [of stuck True] by (simp add: stuck_def calm_def card_flags)
    have m: "mountRaw stuck (visibleForWrite sdcardfsCard) (stableName (checkedCard True)) (checkedCard True)
        = (None, ?v2)"
      unfolding checkedCard_fields using card_flags(5)
      by (simp only: simp_thms) (rule mountRaw_card, simp_all add: r)
    have sl: "slept ?h = 0" by (simp add: atFuseCard_fields)
    have H1: "\<forall>j<4. respond stuck (calls ?v2 @ map FsPrepareDir (take j ?ps)) (FsPrepareDir (?ps ! j)) = 0"
      by (simp add: r)
    have H2: "respond stuck (?h @ [?g]) ?f \<notin> {0, - 1}" by (simp add: r)
    have H3: "\<forall>j<100. respond stuck (?h @ [?g, ?f, SystemTime] @ concat (replicate j [?g, Usleep 50000, SystemTime])) ?g
                          = respond stuck ?h ?g
                 \<and> \<not> 5000 < nanoseconds_to_milliseconds
                      (respond stuck (?h @ [?g, ?f, SystemTime] @ concat (replicate j [?g, Usleep 50000, SystemTime]) @
                         [?g, Usleep 50000]) SystemTime - respond stuck (?h @ [?g, ?f]) SystemTime)"
      using sl by (simp add: r slept_polls nanoseconds_to_milliseconds_def del: replicate.simps)
    have H4: "respond stuck (?h @ [?g, ?f, SystemTime] @ concat (replicate 100 [?g, Usleep 50000, SystemTime])) ?g
                          = respond stuck ?h ?g"
      by (simp add: r)
    have H5: "5000 < nanoseconds_to_milliseconds
                      (respond stuck (?h @ [?g, ?f, SystemTime] @ concat (replicate 100 [?g, Usleep 50000, SystemTime]) @
                         [?g, Usleep 50000]) SystemTime - respond stuck (?h @ [?g, ?f]) SystemTime)"
      using sl by (simp add: r slept_polls nanoseconds_to_milliseconds_def del: replicate.simps)
    note t = doMount_failure_rollback [where w = stuck and v = sdcardfsCard and ?v1.0 = "checkedCard True"
        and ?v2.0 = ?v2 and n = 100,
        THEN conjunct2, THEN conjunct2, THEN conjunct1, THEN mp,
        OF conjI [OF c conjI [OF m conjI [OF card_flags(5) card_flags(6)]]], unfolded Let_def,
        THEN conjunct2, THEN conjunct2, THEN mp,
        OF conjI [OF H1 conjI [OF H2 conjI [OF H3 conjI [OF H4 H5]]]]]
    have "?v2\<lparr>calls := ?h @ [?g, ?f, SystemTime] @ concat (replicate (Suc 100) [?g, Usleep 50000, SystemTime])\<rparr>
        = timedOutCard"
      by (simp add: timedOutCard_def atFuseCard_def sdcardfsCard_def card_def checkedCard_fields
          del: replicate.simps)
    with t show ?thesis by (simp only: ETIMEDOUT_def)
  qed
  have quiet: "extends (\<lambda>c. \<not> isTeardown c) sdcardfsCard timedOutCard"
    using doMount_failure_rollback [where w = stuck and v = sdcardfsCard and ?v3.0 = timedOutCard
        and e = "- ETIMEDOUT", THEN conjunct2, THEN conjunct2, THEN conjunct2, THEN conjunct2, THEN conjunct2,
        THEN conjunct1, THEN mp, OF mountBelowFuse_stuck]
    by simp
  have b1: "mountBelowFuse noFuse (card\<lparr>hasMountCallback := False\<rparr>) =
      Some (Inr ''1234-ABCD'', atFuseCard\<lparr>hasMountCallback := False\<rparr>)"
    by (rule mountBelowFuse_card) (simp_all add: noFuse_def calm_def)
  have b2: "mountBelowFuse calm (card\<lparr>hasMountCallback := True\<rparr>) =
      Some (Inr ''1234-ABCD'', atFuseCard\<lparr>hasMountCallback := True\<rparr>)"
    by (rule mountBelowFuse_card) (simp_all add: calm_def)
  have c: "card\<lparr>hasMountCallback := False\<rparr> = card" by (simp add: card_def)
  let ?m = "MountUserFuse 0 ''/mnt/media_rw/1234-ABCD'' ''1234-ABCD''"
  let ?k = "OnVolumeChecking ''/storage/1234-ABCD'' ''/mnt/media_rw/1234-ABCD''"
  have f: "mMountUserId atFuseCard = 0" "mInternalPath atFuseCard = ''/mnt/media_rw/1234-ABCD''"
    "mPath atFuseCard = ''/storage/1234-ABCD''"
    by (simp_all add: atFuseCard_def card_def)
  have r1: "respond noFuse h ?m = - 1" for h by (simp add: noFuse_def calm_def)
  have r2: "respond calm h c = 0" for h c by (simp add: calm_def)
  from doMount_failure_rollback [where w = noFuse and v = card and sn = "''1234-ABCD''"
      and ?v3.0 = "atFuseCard\<lparr>hasMountCallback := False\<rparr>",
      THEN conjunct2, THEN conjunct2, THEN conjunct2, THEN conjunct1] b1
  have d1: "doMount noFuse card =
      Some (1, snd (doUnmount noFuse (fire ?m (atFuseCard\<lparr>hasMountCallback := False\<rparr>))))"
    by (simp add: c f r1)
  from doMount_failure_rollback [where w = calm and v = "card\<lparr>hasMountCallback := True\<rparr>"
      and sn = "''1234-ABCD''" and ?v3.0 = "atFuseCard\<lparr>hasMountCallback := True\<rparr>",
      THEN conjunct2, THEN conjunct2, THEN conjunct2, THEN conjunct2, THEN conjunct1] b2
  have d2: "doMount calm (card\<lparr>hasMountCallback := True\<rparr>) =
      Some (- 5, snd (doUnmount calm (atFuseCard\<lparr>hasMountCallback := True, mFuseMounted := True,
         calls := calls atFuseCard @ [?m, ?k]\<rparr>)))"
    by (simp add: f r2 EIO_def)
  have u1: "calls (snd (doUnmount noFuse (fire ?m (atFuseCard\<lparr>hasMountCallback := False\<rparr>)))) =
     [ReadMetadataUntrusted ''/dev/block/vold/public:8,1'',
      VfatCheck ''/dev/block/vold/public:8,1'',
      FsPrepareDir ''/mnt/media_rw/1234-ABCD'',
      VfatMount ''/dev/block/vold/public:8,1'' ''/mnt/media_rw/1234-ABCD'' AID_MEDIA_RW,
      MountUserFuse 0 ''/mnt/media_rw/1234-ABCD'' ''1234-ABCD'',
      KillProcessesUsingPath ''/storage/1234-ABCD'',
      ForceUnmount ''/mnt/secure/asec'',
      ForceUnmount ''/mnt/media_rw/1234-ABCD'',
      Rmdir ''/mnt/media_rw/1234-ABCD'']"
    by (simp add: noFuse_def calm_def atFuseCard_def card_def fire_def doUnmount_def unmountFuse_def
        unmountRaw_eq unmountSdcardFs_def kAsecPath_def OK_def)
  have u2: "calls (snd (doUnmount calm (atFuseCard\<lparr>hasMountCallback := True, mFuseMounted := True,
         calls := calls atFuseCard @ [?m, ?k]\<rparr>))) =
     [ReadMetadataUntrusted ''/dev/block/vold/public:8,1'',
      VfatCheck ''/dev/block/vold/public:8,1'',
      FsPrepareDir ''/mnt/media_rw/1234-ABCD'',
      VfatMount ''/dev/block/vold/public:8,1'' ''/mnt/media_rw/1234-ABCD'' AID_MEDIA_RW,
      MountUserFuse 0 ''/mnt/media_rw/1234-ABCD'' ''1234-ABCD'',
      OnVolumeChecking ''/storage/1234-ABCD'' ''/mnt/media_rw/1234-ABCD'',
      KillProcessesUsingPath ''/storage/1234-ABCD'',
      ForceUnmount ''/mnt/user/10/1234-ABCD'', Rmdir ''/mnt/user/10/1234-ABCD'',
      ForceUnmount ''/mnt/user/11/1234-ABCD'', Rmdir ''/mnt/user/11/1234-ABCD'',
      ForceUnmount ''/mnt/user/12/1234-ABCD'', Rmdir ''/mnt/user/12/1234-ABCD'',
      UnmountUserFuse 0 ''/mnt/media_rw/1234-ABCD'' ''1234-ABCD'',
      ForceUnmount ''/mnt/secure/asec'',
      ForceUnmount ''/mnt/media_rw/1234-ABCD'',
      Rmdir ''/mnt/media_rw/1234-ABCD'']"
    by (simp add: calm_def atFuseCard_def card_def fire_def doUnmount_def unmountFuse_def ask_def
        unmountBinds_eq unmountRaw_eq unmountSdcardFs_def kAsecPath_def OK_def stableName_def Let_def)
  have nm: "\<not> mFuseMounted (fire ?m (atFuseCard\<lparr>hasMountCallback := False\<rparr>))"
    by (simp add: fire_def atFuseCard_def card_def)
  from doMount_failure_rollback [where w = noFuse
      and u = "fire ?m (atFuseCard\<lparr>hasMountCallback := False\<rparr>)",
      THEN conjunct2, THEN conjunct2, THEN conjunct2, THEN conjunct2, THEN conjunct2, THEN conjunct2] nm
  have u3: "mRawPath (snd (doUnmount noFuse (fire ?m (atFuseCard\<lparr>hasMountCallback := False\<rparr>)))) = []"
    by blast
  show ?thesis
    unfolding check mount dir fork timeout d1 d2 option.sel fst_conv snd_conv u1 u2 u3
    using quiet by simp
qed

text \<open>
  Against C2 as stated: in the world \<open>stuck\<close> the raw mount succeeds and sdcardfs never comes up. doMount
  returns \<open>-ETIMEDOUT\<close> after the 101st poll; the raw path is still recorded, the
  vfat mount is in the history and no unmount was attempted.
\<close>

theorem doMount_timeout_no_rollback:
  "doMount stuck sdcardfsCard = Some (- 110, timedOutCard) \<and>
   mRawPath timedOutCard = ''/mnt/media_rw/1234-ABCD'' \<and>
   VfatMount ''/dev/block/vold/public:8,1'' ''/mnt/media_rw/1234-ABCD'' AID_MEDIA_RW \<in> set (calls timedOutCard) \<and>
   filter isTeardown (calls timedOutCard) = []"
proof -
  have "filter isTeardown (concat (replicate n [GetDevice p, Usleep 50000, SystemTime])) = []" for n p
    by (induction n) simp_all
  then show ?thesis
    by (simp add: doMount_def mountBelowFuse_stuck ETIMEDOUT_def timedOutCard_def
        del: replicate.simps)
qed

text \<open>
  C5, as the code has it. Take a run of the synchronizer that reaches the poll loop (the
  four directories were prepared and \<open>fork\<close> answered with a pid) and in which the
  device of \<open>mSdcardFsFull\<close> never differs from the value read before the fork. If the
  clock never runs backwards and every \<open>usleep\<close> advances it by at least the time asked
  for, the synchronizer returns \<open>-ETIMEDOUT\<close>, and it does so at the first poll whose
  clock reading is more than 5000 whole milliseconds past the start reading, which is
  the 101st poll at the latest: the loop does not run forever, and every reading before
  the last one was within the budget. When the clock advances by exactly the time slept,
  the loop polls 101 times and the reading that ends it is exactly 5000 ms + 50 ms past
  the start reading.
\<close>

theorem spinUpSdcardFs_times_out:
  assumes never: "\<forall>h. respond w h (GetDevice (mSdcardFsFull v)) = before"
    and dirs: "prepareDirs w [mSdcardFsDefault v, mSdcardFsRead v, mSdcardFsWrite v, mSdcardFsFull v] v
                 = (False, v1)"
    and g: "g = GetDevice (mSdcardFsFull v)"
    and f: "f = ForkSdcardFs (flagPrimary v) (mMountUserId v) (mRawPath v) sn"
    and fork: "respond w (calls v1 @ [g]) f \<notin> {0, - 1}"
  shows "((\<forall>h c. respond w h SystemTime \<le> respond w (h @ [c]) SystemTime) \<and>
          (\<forall>h us. respond w h SystemTime + 1000 * int us \<le> respond w (h @ [Usleep us]) SystemTime) \<longrightarrow>
          (\<exists>n\<le>100.
             spinUpSdcardFs w sn v =
               Some (Some (- ETIMEDOUT),
                     v1\<lparr>calls := calls v1 @ [g, f, SystemTime] @
                          concat (replicate (Suc n) [g, Usleep 50000, SystemTime])\<rparr>)
             \<and> (\<forall>j<n. \<not> 5000 < nanoseconds_to_milliseconds
                   (respond w (calls v1 @ [g, f, SystemTime] @
                      concat (replicate j [g, Usleep 50000, SystemTime]) @ [g, Usleep 50000]) SystemTime
                    - respond w (calls v1 @ [g, f]) SystemTime))
             \<and> 5000 < nanoseconds_to_milliseconds
                   (respond w (calls v1 @ [g, f, SystemTime] @
                      concat (replicate n [g, Usleep 50000, SystemTime]) @ [g, Usleep 50000]) SystemTime
                    - respond w (calls v1 @ [g, f]) SystemTime)))
     \<and> ((\<forall>h. respond w h SystemTime = boot + 1000 * int (slept h)) \<longrightarrow>
          spinUpSdcardFs w sn v =
            Some (Some (- ETIMEDOUT),
                  v1\<lparr>calls := calls v1 @ [g, f, SystemTime] @
                       concat (replicate 101 [g, Usleep 50000, SystemTime])\<rparr>)
          \<and> respond w (calls v1 @ [g, f, SystemTime] @
               concat (replicate 100 [g, Usleep 50000, SystemTime]) @ [g, Usleep 50000]) SystemTime
             - respond w (calls v1 @ [g, f]) SystemTime = (5000 + 50) * 1000000)"
proof (intro conjI impI)
  assume a: "(\<forall>h c. respond w h SystemTime \<le> respond w (h @ [c]) SystemTime) \<and>
          (\<forall>h us. respond w h SystemTime + 1000 * int us \<le> respond w (h @ [Usleep us]) SystemTime)"
  then have mono: "\<forall>h c. respond w h SystemTime \<le> respond w (h @ [c]) SystemTime"
    and sleep: "\<forall>h us. respond w h SystemTime + 1000 * int us \<le> respond w (h @ [Usleep us]) SystemTime"
    by blast+
  define Q where "Q j \<longleftrightarrow> 5000 < nanoseconds_to_milliseconds
                   (respond w (calls v1 @ [g, f, SystemTime] @
                      concat (replicate j [g, Usleep 50000, SystemTime]) @ [g, Usleep 50000]) SystemTime
                    - respond w (calls v1 @ [g, f]) SystemTime)" for j
  have "respond w (calls v1 @ [g, f]) SystemTime + 50000000 * int (Suc 100)
           \<le> respond w ((calls v1 @ [g, f]) @ [SystemTime] @
                concat (replicate 100 [g, Usleep 50000, SystemTime]) @ [g, Usleep 50000]) SystemTime"
    by (rule reading_after_polls [OF mono sleep])
  then have "5050000000 \<le> respond w (calls v1 @ [g, f, SystemTime] @
                concat (replicate 100 [g, Usleep 50000, SystemTime]) @ [g, Usleep 50000]) SystemTime
              - respond w (calls v1 @ [g, f]) SystemTime"
    by (simp del: replicate.simps)
  then have q100: "Q 100" unfolding Q_def by (rule ms_over)
  define n where "n = (LEAST j. Q j)"
  have qn: "Q n" unfolding n_def using q100 by (rule LeastI)
  have le: "n \<le> 100" unfolding n_def using q100 by (rule Least_le)
  have lt: "\<forall>j<n. \<not> Q j" unfolding n_def using not_less_Least by blast
  have run: "spinUpSdcardFs w sn v =
     Some (Some (- ETIMEDOUT),
           v1\<lparr>calls := calls v1 @ [g, f, SystemTime] @ concat (replicate (Suc n) [g, Usleep 50000, SystemTime])\<rparr>)"
  proof (rule spinUpSdcardFs_timeout_core [OF dirs g f fork])
    show "\<forall>j<n. respond w (calls v1 @ [g, f, SystemTime] @ concat (replicate j [g, Usleep 50000, SystemTime])) g
                      = respond w (calls v1) g
        \<and> \<not> 5000 < nanoseconds_to_milliseconds
              (respond w (calls v1 @ [g, f, SystemTime] @ concat (replicate j [g, Usleep 50000, SystemTime]) @
                 [g, Usleep 50000]) SystemTime - respond w (calls v1 @ [g, f]) SystemTime)"
      using lt never unfolding Q_def g by simp
    show "respond w (calls v1 @ [g, f, SystemTime] @ concat (replicate n [g, Usleep 50000, SystemTime])) g
                      = respond w (calls v1) g
        \<and> 5000 < nanoseconds_to_milliseconds
              (respond w (calls v1 @ [g, f, SystemTime] @ concat (replicate n [g, Usleep 50000, SystemTime]) @
                 [g, Usleep 50000]) SystemTime - respond w (calls v1 @ [g, f]) SystemTime)"
      using qn never unfolding Q_def g by simp
  qed
  show "\<exists>n\<le>100.
             spinUpSdcardFs w sn v =
               Some (Some (- ETIMEDOUT),
                     v1\<lparr>calls := calls v1 @ [g, f, SystemTime] @
                          concat (replicate (Suc n) [g, Usleep 50000, SystemTime])\<rparr>)
             \<and> (\<forall>j<n. \<not> 5000 < nanoseconds_to_milliseconds
                   (respond w (calls v1 @ [g, f, SystemTime] @
                      concat (replicate j [g, Usleep 50000, SystemTime]) @ [g, Usleep 50000]) SystemTime
                    - respond w (calls v1 @ [g, f]) SystemTime))
             \<and> 5000 < nanoseconds_to_milliseconds
                   (respond w (calls v1 @ [g, f, SystemTime] @
                      concat (replicate n [g, Usleep 50000, SystemTime]) @ [g, Usleep 50000]) SystemTime
                    - respond w (calls v1 @ [g, f]) SystemTime)"
    apply (rule exI [of _ n])
    using le run lt qn unfolding Q_def apply (simp only: simp_thms)
    done
next
  assume clock: "\<forall>h. respond w h SystemTime = boot + 1000 * int (slept h)"
  have fork': "respond w (calls v1 @ [GetDevice (mSdcardFsFull v)])
                 (ForkSdcardFs (flagPrimary v) (mMountUserId v) (mRawPath v) sn) \<notin> {0, - 1}"
    using fork unfolding g f .
  show "spinUpSdcardFs w sn v =
            Some (Some (- ETIMEDOUT),
                  v1\<lparr>calls := calls v1 @ [g, f, SystemTime] @
                       concat (replicate 101 [g, Usleep 50000, SystemTime])\<rparr>)"
    unfolding spinUpSdcardFs_never_up [OF never clock dirs fork'] g f by simp
next
  assume clock: "\<forall>h. respond w h SystemTime = boot + 1000 * int (slept h)"
  show "respond w (calls v1 @ [g, f, SystemTime] @
               concat (replicate 100 [g, Usleep 50000, SystemTime]) @ [g, Usleep 50000]) SystemTime
             - respond w (calls v1 @ [g, f]) SystemTime = (5000 + 50) * 1000000"
    using clock unfolding g f by (simp add: slept_polls del: replicate.simps)
qed

theorem spinUpSdcardFs_times_out_witness:
  "spinUpSdcardFs stuck ''1234-ABCD'' rawMountedCard =
     Some (Some (- 110), rawMountedCard\<lparr>calls :=
       [FsPrepareDir ''/mnt/runtime/default/1234-ABCD'',
        FsPrepareDir ''/mnt/runtime/read/1234-ABCD'',
        FsPrepareDir ''/mnt/runtime/write/1234-ABCD'',
        FsPrepareDir ''/mnt/runtime/full/1234-ABCD'',
        GetDevice ''/mnt/runtime/full/1234-ABCD'',
        ForkSdcardFs False 0 ''/mnt/media_rw/1234-ABCD'' ''1234-ABCD'',
        SystemTime] @
       concat (replicate 101 [GetDevice ''/mnt/runtime/full/1234-ABCD'', Usleep 50000, SystemTime])\<rparr>)
   \<and> respond stuck
       ([FsPrepareDir ''/mnt/runtime/default/1234-ABCD'',
         FsPrepareDir ''/mnt/runtime/read/1234-ABCD'',
         FsPrepareDir ''/mnt/runtime/write/1234-ABCD'',
         FsPrepareDir ''/mnt/runtime/full/1234-ABCD'',
         GetDevice ''/mnt/runtime/full/1234-ABCD'',
         ForkSdcardFs False 0 ''/mnt/media_rw/1234-ABCD'' ''1234-ABCD'',
         SystemTime] @
        concat (replicate 100 [GetDevice ''/mnt/runtime/full/1234-ABCD'', Usleep 50000, SystemTime]) @
        [GetDevice ''/mnt/runtime/full/1234-ABCD'', Usleep 50000]) SystemTime
     - respond stuck
       [FsPrepareDir ''/mnt/runtime/default/1234-ABCD'',
        FsPrepareDir ''/mnt/runtime/read/1234-ABCD'',
        FsPrepareDir ''/mnt/runtime/write/1234-ABCD'',
        FsPrepareDir ''/mnt/runtime/full/1234-ABCD'',
        GetDevice ''/mnt/runtime/full/1234-ABCD'',
        ForkSdcardFs False 0 ''/mnt/media_rw/1234-ABCD'' ''1234-ABCD''] SystemTime
     = 5050000000
   \<and> fst (the (spinUpSdcardFs slow ''1234-ABCD'' rawMountedCard)) = Some (- 110)
   \<and> length (calls (snd (the (spinUpSdcardFs slow ''1234-ABCD'' rawMountedCard)))) \<le> 7 + 3 * 101"
proof -
  have never: "\<forall>h. respond stuck h (GetDevice (mSdcardFsFull rawMountedCard)) = 0"
    by (rule never_stuck)
  have never': "\<forall>h. respond slow h (GetDevice (mSdcardFsFull rawMountedCard)) = 0"
    by (simp add: slow_def calm_def)
  have dirs': "prepareDirs slow ps v = (False, v\<lparr>calls := calls v @ map FsPrepareDir ps\<rparr>)" for ps v
    by (rule prepareDirs_ok) (simp add: slow_def calm_def)
  have fork': "respond slow h (ForkSdcardFs a b c d) \<notin> {0, - 1}" for h a b c d
    by (simp add: slow_def calm_def)
  have mono: "\<forall>h c. respond slow h SystemTime \<le> respond slow (h @ [c]) SystemTime"
    by (simp add: slow_def calm_def)
  have sleep: "\<forall>h us. respond slow h SystemTime + 1000 * int us \<le> respond slow (h @ [Usleep us]) SystemTime"
    by (simp add: slow_def calm_def)
  have c: "calls rawMountedCard = []" "mSdcardFsDefault rawMountedCard = ''/mnt/runtime/default/1234-ABCD''"
    "mSdcardFsRead rawMountedCard = ''/mnt/runtime/read/1234-ABCD''"
    "mSdcardFsWrite rawMountedCard = ''/mnt/runtime/write/1234-ABCD''"
    "mSdcardFsFull rawMountedCard = ''/mnt/runtime/full/1234-ABCD''"
    "mRawPath rawMountedCard = ''/mnt/media_rw/1234-ABCD''"
    "flagPrimary rawMountedCard = False" "mMountUserId rawMountedCard = 0"
    by (simp_all add: rawMountedCard_def mountedCard_def card_def)
  note exact = spinUpSdcardFs_times_out [where w = stuck and v = rawMountedCard and sn = "''1234-ABCD''"
      and boot = 0, OF never dirs_stuck refl refl fork_stuck, THEN conjunct2, THEN mp, OF clock_stuck]
  note gen = spinUpSdcardFs_times_out [where w = slow and v = rawMountedCard and sn = "''1234-ABCD''",
      OF never' dirs' refl refl fork', THEN conjunct1, THEN mp, OF conjI [OF mono sleep]]
  from gen obtain n where n: "n \<le> 100"
    and run: "spinUpSdcardFs slow ''1234-ABCD'' rawMountedCard =
               Some (Some (- ETIMEDOUT),
                     rawMountedCard\<lparr>calls := calls rawMountedCard @ map FsPrepareDir [mSdcardFsDefault rawMountedCard,
                         mSdcardFsRead rawMountedCard, mSdcardFsWrite rawMountedCard, mSdcardFsFull rawMountedCard] @
                       [GetDevice (mSdcardFsFull rawMountedCard),
                        ForkSdcardFs (flagPrimary rawMountedCard) (mMountUserId rawMountedCard)
                          (mRawPath rawMountedCard) ''1234-ABCD'', SystemTime] @
                          concat (replicate (Suc n) [GetDevice (mSdcardFsFull rawMountedCard), Usleep 50000, SystemTime])\<rparr>)"
    by (auto simp del: replicate.simps)
  have a: "spinUpSdcardFs stuck ''1234-ABCD'' rawMountedCard =
     Some (Some (- 110), rawMountedCard\<lparr>calls :=
       [FsPrepareDir ''/mnt/runtime/default/1234-ABCD'',
        FsPrepareDir ''/mnt/runtime/read/1234-ABCD'',
        FsPrepareDir ''/mnt/runtime/write/1234-ABCD'',
        FsPrepareDir ''/mnt/runtime/full/1234-ABCD'',
        GetDevice ''/mnt/runtime/full/1234-ABCD'',
        ForkSdcardFs False 0 ''/mnt/media_rw/1234-ABCD'' ''1234-ABCD'',
        SystemTime] @
       concat (replicate 101 [GetDevice ''/mnt/runtime/full/1234-ABCD'', Usleep 50000, SystemTime])\<rparr>)"
    using exact [THEN conjunct1] by (simp add: c ETIMEDOUT_def del: replicate.simps)
  have b: "respond stuck
       ([FsPrepareDir ''/mnt/runtime/default/1234-ABCD'',
         FsPrepareDir ''/mnt/runtime/read/1234-ABCD'',
         FsPrepareDir ''/mnt/runtime/write/1234-ABCD'',
         FsPrepareDir ''/mnt/runtime/full/1234-ABCD'',
         GetDevice ''/mnt/runtime/full/1234-ABCD'',
         ForkSdcardFs False 0 ''/mnt/media_rw/1234-ABCD'' ''1234-ABCD'',
         SystemTime] @
        concat (replicate 100 [GetDevice ''/mnt/runtime/full/1234-ABCD'', Usleep 50000, SystemTime]) @
        [GetDevice ''/mnt/runtime/full/1234-ABCD'', Usleep 50000]) SystemTime
     - respond stuck
       [FsPrepareDir ''/mnt/runtime/default/1234-ABCD'',
        FsPrepareDir ''/mnt/runtime/read/1234-ABCD'',
        FsPrepareDir ''/mnt/runtime/write/1234-ABCD'',
        FsPrepareDir ''/mnt/runtime/full/1234-ABCD'',
        GetDevice ''/mnt/runtime/full/1234-ABCD'',
        ForkSdcardFs False 0 ''/mnt/media_rw/1234-ABCD'' ''1234-ABCD''] SystemTime
     = 5050000000"
    using exact [THEN conjunct2] by (simp add: c del: replicate.simps)
  have d: "fst (the (spinUpSdcardFs slow ''1234-ABCD'' rawMountedCard)) = Some (- 110)"
    unfolding run by (simp add: ETIMEDOUT_def)
  have e: "length (calls (snd (the (spinUpSdcardFs slow ''1234-ABCD'' rawMountedCard)))) \<le> 7 + 3 * 101"
    unfolding run using n by (simp add: c length_polls del: replicate.simps)
  from a b d e show ?thesis by (simp only: simp_thms)
qed

text \<open>
  Against C5 as stated: in the world \<open>slow\<close> the device never changes, \<open>usleep\<close> sleeps
  exactly the time asked for and every outside call takes one microsecond. The
  synchronizer returns \<open>-ETIMEDOUT\<close> after the 101st poll, and the clock reading that
  ends the loop is 5050.303 ms past the start reading: more than 5000 ms + 50 ms.
\<close>

theorem spinUpSdcardFs_slow_clock_overrun:
  "spinUpSdcardFs slow ''1234-ABCD'' rawMountedCard =
     Some (Some (- 110), rawMountedCard\<lparr>calls :=
       [FsPrepareDir ''/mnt/runtime/default/1234-ABCD'',
        FsPrepareDir ''/mnt/runtime/read/1234-ABCD'',
        FsPrepareDir ''/mnt/runtime/write/1234-ABCD'',
        FsPrepareDir ''/mnt/runtime/full/1234-ABCD'',
        GetDevice ''/mnt/runtime/full/1234-ABCD'',
        ForkSdcardFs False 0 ''/mnt/media_rw/1234-ABCD'' ''1234-ABCD'',
        SystemTime] @
       concat (replicate 101 [GetDevice ''/mnt/runtime/full/1234-ABCD'', Usleep 50000, SystemTime])\<rparr>)
   \<and> respond slow
       ([FsPrepareDir ''/mnt/runtime/default/1234-ABCD'',
         FsPrepareDir ''/mnt/runtime/read/1234-ABCD'',
         FsPrepareDir ''/mnt/runtime/write/1234-ABCD'',
         FsPrepareDir ''/mnt/runtime/full/1234-ABCD'',
         GetDevice ''/mnt/runtime/full/1234-ABCD'',
         ForkSdcardFs False 0 ''/mnt/media_rw/1234-ABCD'' ''1234-ABCD'',
         SystemTime] @
        concat (replicate 100 [GetDevice ''/mnt/runtime/full/1234-ABCD'', Usleep 50000, SystemTime]) @
        [GetDevice ''/mnt/runtime/full/1234-ABCD'', Usleep 50000]) SystemTime
     - respond slow
       [FsPrepareDir ''/mnt/runtime/default/1234-ABCD'',
        FsPrepareDir ''/mnt/runtime/read/1234-ABCD'',
        FsPrepareDir ''/mnt/runtime/write/1234-ABCD'',
        FsPrepareDir ''/mnt/runtime/full/1234-ABCD'',
        GetDevice ''/mnt/runtime/full/1234-ABCD'',
        ForkSdcardFs False 0 ''/mnt/media_rw/1234-ABCD'' ''1234-ABCD''] SystemTime
     = 5050303000
   \<and> (5000 + 50) * 1000000 < (5050303000 :: int)"
proof -
  have r: "respond slow x SystemTime = 1000 * int (slept x + length x)" for x
    by (simp add: slow_def calm_def)
  show ?thesis
    unfolding slow_spin_up r
    by (simp add: ETIMEDOUT_def slept_polls length_polls del: replicate.simps)
qed

text \<open>
  C7. When doMount gets past the FUSE mount and exactly two started users other than the
  owner share the owner's storage, doMount returns OK, and after the two tuning calls it
  makes, for each of the two users in turn, \<open>PrepareMountDirForUser\<close>, \<open>PrepareDir\<close> and
  one \<open>BindMount\<close>: two bind mounts in all. The world is arbitrary, so this holds
  whatever those calls answer.
\<close>

theorem doMount_bind_fanout:
  assumes below: "mountBelowFuse w v0 = Some (Inr sn, v3)"
    and fuse: "mountFuse w sn v3 = (None, v4)"
    and two: "filter (\<lambda>u. u \<noteq> mMountUserId v4 \<and> mMountUserId v4 = getSharedStorageUser w u)
                (startedUsers w) = [x, y]"
  shows "doMount w v0 =
    Some (OK, v4\<lparr>calls := calls v4 @
      [ConfigureReadAheadForFuse (GetFuseMountPathForUser w (mMountUserId v4) sn) 256,
       ConfigureMaxDirtyRatioForFuse (GetFuseMountPathForUser w (mMountUserId v4) sn) 40,
       PrepareMountDirForUser x,
       PrepareDir (GetFuseMountPathForUser w x (stableName v4)),
       BindMount (GetFuseMountPathForUser w (mMountUserId v4) (stableName v4))
                 (GetFuseMountPathForUser w x (stableName v4)),
       PrepareMountDirForUser y,
       PrepareDir (GetFuseMountPathForUser w y (stableName v4)),
       BindMount (GetFuseMountPathForUser w (mMountUserId v4) (stableName v4))
                 (GetFuseMountPathForUser w y (stableName v4))]\<rparr>)"
  using below fuse by (simp add: doMount_def tuneAndBind_eq two)

theorem doMount_bind_fanout_witness:
  "respond bindFail (calls fuseMountedCard @
       [ConfigureReadAheadForFuse ''/mnt/user/0/1234-ABCD'' 256,
        ConfigureMaxDirtyRatioForFuse ''/mnt/user/0/1234-ABCD'' 40])
     (PrepareMountDirForUser 10) = - 1 \<and>
   respond bindFail (calls fuseMountedCard @
       [ConfigureReadAheadForFuse ''/mnt/user/0/1234-ABCD'' 256,
        ConfigureMaxDirtyRatioForFuse ''/mnt/user/0/1234-ABCD'' 40,
        PrepareMountDirForUser 10, PrepareDir ''/mnt/user/10/1234-ABCD''])
     (BindMount ''/mnt/user/0/1234-ABCD'' ''/mnt/user/10/1234-ABCD'') = - 1 \<and>
   doMount bindFail card = Some (0, fuseMountedCard\<lparr>calls := calls fuseMountedCard @
     [ConfigureReadAheadForFuse ''/mnt/user/0/1234-ABCD'' 256,
      ConfigureMaxDirtyRatioForFuse ''/mnt/user/0/1234-ABCD'' 40,
      PrepareMountDirForUser 10,
      PrepareDir ''/mnt/user/10/1234-ABCD'',
      BindMount ''/mnt/user/0/1234-ABCD'' ''/mnt/user/10/1234-ABCD'',
      PrepareMountDirForUser 11,
      PrepareDir ''/mnt/user/11/1234-ABCD'',
      BindMount ''/mnt/user/0/1234-ABCD'' ''/mnt/user/11/1234-ABCD'']\<rparr>)"
proof -
  have b: "mountBelowFuse bindFail card = Some (Inr ''1234-ABCD'', atFuseCard)"
    using mountBelowFuse_card [of bindFail False] by (simp add: card_no_callback bindFail_def calm_def)
  have m: "mountFuse bindFail ''1234-ABCD'' atFuseCard = (None, fuseMountedCard)"
    by (rule mountFuse_card) (simp add: bindFail_def calm_def)
  have f: "mMountUserId fuseMountedCard = 0" "stableName fuseMountedCard = ''1234-ABCD''"
    by (simp_all add: fuseMountedCard_def atFuseCard_def card_def stableName_def)
  have two: "filter (\<lambda>u. u \<noteq> mMountUserId fuseMountedCard \<and>
                mMountUserId fuseMountedCard = getSharedStorageUser bindFail u)
                (startedUsers bindFail) = [10, 11]"
    by (simp add: f bindFail_def calm_def)
  have p: "GetFuseMountPathForUser bindFail 0 ''1234-ABCD'' = ''/mnt/user/0/1234-ABCD''"
    "GetFuseMountPathForUser bindFail 10 ''1234-ABCD'' = ''/mnt/user/10/1234-ABCD''"
    "GetFuseMountPathForUser bindFail 11 ''1234-ABCD'' = ''/mnt/user/11/1234-ABCD''"
    by (simp_all add: bindFail_def calm_def)
  have r: "respond bindFail h (PrepareMountDirForUser 10) = - 1"
    "respond bindFail h (BindMount ''/mnt/user/0/1234-ABCD'' ''/mnt/user/10/1234-ABCD'') = - 1" for h
    by (simp_all add: bindFail_def calm_def)
  from doMount_bind_fanout [OF b m two] show ?thesis
    by (simp only: f p r OK_def)
qed



end
